(* ===== verification/Prelude.thy ===== *)
theory Prelude
  imports Main "HOL-Library.AList" "HOL-Library.Sublist" "HOL-Library.State_Monad"
    "HOL-Library.Code_Target_Nat"
begin

text \<open>
  The prelude of the development: the error values of the driver, Go maps as association
  lists, the loop combinators the components share, and the execution rules of the state
  monad in which the effectful parts are written.

  A Go map is a list of key/value pairs with distinct keys; the order of the list is the
  order in which a \<^verbatim>\<open>range\<close> statement visits the entries. Go leaves that order open, so a
  theorem about every such list is a theorem about every order.
\<close>

section \<open>Collections of rewrite rules\<close>

named_theorems gomap_simps \<open>lookups in updated Go maps\<close>
named_theorems run_simps \<open>execution of state monad programs\<close>

section \<open>Errors\<close>

text \<open>The gRPC codes the driver answers with.\<close>

datatype code = InvalidArgument | Internal | Unavailable | FailedPrecondition | PermissionDenied

text \<open>
  An error of a library or system call is seen by the driver through its text and through the
  predicates it asks about it: \<^verbatim>\<open>os.IsNotExist\<close> and \<^verbatim>\<open>errors.Is(err, fs.ErrNotExist)\<close>,
  \<^verbatim>\<open>os.IsPermission\<close>, \<^verbatim>\<open>errors.Is(err, syscall.EPERM)\<close> and
  \<^verbatim>\<open>errors.Is(err, fusemount.ErrHung)\<close>.
\<close>

record sys_error =
  err_text :: string
  err_not_exist :: bool
  err_permission :: bool
  err_eperm :: bool
  err_hung :: bool

text \<open>
  A Go error is a gRPC status, an error made by \<^verbatim>\<open>fmt.Errorf\<close> (none of the predicates above
  looks through it), or an error of a call. A function that returns only an error is
  modelled with an option, \<open>None\<close> for \<^verbatim>\<open>nil\<close>; one that returns a value or an error with a
  sum, \<open>Inl\<close> for the error.
\<close>

datatype go_error = Status code string | Errorf string | SysError sys_error

fun code_name :: "code \<Rightarrow> string" where
  "code_name InvalidArgument = ''InvalidArgument''"
| "code_name Internal = ''Internal''"
| "code_name Unavailable = ''Unavailable''"
| "code_name FailedPrecondition = ''FailedPrecondition''"
| "code_name PermissionDenied = ''PermissionDenied''"

fun Error :: "go_error \<Rightarrow> string" where
  "Error (Status c m) = ''rpc error: code = '' @ code_name c @ '' desc = '' @ m"
| "Error (Errorf m) = m"
| "Error (SysError e) = err_text e"

fun IsNotExist :: "go_error \<Rightarrow> bool" where
  "IsNotExist (SysError e) = err_not_exist e"
| "IsNotExist _ = False"

fun IsPermission :: "go_error \<Rightarrow> bool" where
  "IsPermission (SysError e) = err_permission e"
| "IsPermission _ = False"

fun IsEPERM :: "go_error \<Rightarrow> bool" where
  "IsEPERM (SysError e) = err_eperm e"
| "IsEPERM _ = False"

fun IsHung :: "go_error \<Rightarrow> bool" where
  "IsHung (SysError e) = err_hung e"
| "IsHung _ = False"

section \<open>Go maps\<close>

type_synonym 'v gomap = "(string \<times> 'v) list"

abbreviation gomap_ok :: "'v gomap \<Rightarrow> bool" where
  "gomap_ok m \<equiv> distinct (map fst m)"

text \<open>Reading a missing key of a \<^verbatim>\<open>map[string]string\<close> gives the empty string.\<close>

definition gget :: "string gomap \<Rightarrow> string \<Rightarrow> string" where
  "gget m k = (case map_of m k of None \<Rightarrow> [] | Some v \<Rightarrow> v)"

definition ghas :: "'v gomap \<Rightarrow> string \<Rightarrow> bool" where
  "ghas m k \<longleftrightarrow> map_of m k \<noteq> None"

definition gset :: "'v gomap \<Rightarrow> string \<Rightarrow> 'v \<Rightarrow> 'v gomap" where
  "gset m k v = AList.update k v m"

definition gdel :: "'v gomap \<Rightarrow> string \<Rightarrow> 'v gomap" where
  "gdel m k = AList.delete k m"

text \<open>A loop that stores every entry of one map into another.\<close>

fun gputall :: "'v gomap \<Rightarrow> 'v gomap \<Rightarrow> 'v gomap" where
  "gputall m [] = m"
| "gputall m ((k, v) # kvs) = gputall (gset m k v) kvs"

section \<open>Loops\<close>

text \<open>A loop that returns the first error of its body.\<close>

fun first_err :: "('a \<Rightarrow> go_error option) \<Rightarrow> 'a list \<Rightarrow> go_error option" where
  "first_err f [] = None"
| "first_err f (x # xs) = (case f x of Some e \<Rightarrow> Some e | None \<Rightarrow> first_err f xs)"

section \<open>The interface of a finite map\<close>

text \<open>
  What the components rely on when they store in, delete from and read a map, and what
  follows for loops of stores. The instance is the association lists above.
\<close>

locale kv_map =
  fixes look :: "'m \<Rightarrow> 'k \<Rightarrow> 'v option"
    and put :: "'m \<Rightarrow> 'k \<Rightarrow> 'v \<Rightarrow> 'm"
    and del :: "'m \<Rightarrow> 'k \<Rightarrow> 'm"
    and invar :: "'m \<Rightarrow> bool"
  assumes look_put: "look (put m k v) = (look m)(k \<mapsto> v)"
    and look_del: "invar m \<Longrightarrow> look (del m k) = (look m)(k := None)"
    and invar_put: "invar m \<Longrightarrow> invar (put m k v)"
    and invar_del: "invar m \<Longrightarrow> invar (del m k)"
begin

lemma look_fold_put:
  "look (foldl (\<lambda>m (k, v). put m k v) m kvs) = look m ++ map_of (rev kvs)"
proof (induction kvs arbitrary: m)
  case Nil
  show ?case by simp
next
  case (Cons kv kvs)
  obtain k v where kv: "kv = (k, v)" by (cases kv)
  show ?case
    by (auto simp: kv Cons.IH look_put map_add_def fun_eq_iff split: option.splits)
qed

lemma invar_fold_put: "invar m \<Longrightarrow> invar (foldl (\<lambda>m (k, v). put m k v) m kvs)"
  by (induction kvs arbitrary: m) (auto simp: invar_put)

lemma put_del_commute:
  assumes "invar m" and "k \<noteq> k'"
  shows "look (put (del m k) k' v) = look (del (put m k' v) k)"
  using assms by (simp add: look_put look_del invar_put fun_upd_twist)

lemma look_del_put: "invar m \<Longrightarrow> look (del (put m k v) k) = look (del m k)"
  by (simp add: look_put look_del invar_put)

end

lemma gset_look: "map_of (gset m k v) = (map_of m)(k \<mapsto> v)"
  by (simp add: gset_def update_conv')

lemma gdel_look: "map_of (gdel m k) = (map_of m)(k := None)"
  by (simp add: gdel_def delete_conv')

lemma gset_ok: "gomap_ok m \<Longrightarrow> gomap_ok (gset m k v)"
  by (simp add: gset_def distinct_update)

lemma gdel_ok: "gomap_ok m \<Longrightarrow> gomap_ok (gdel m k)"
  by (simp add: gdel_def distinct_delete)

interpretation gm: kv_map map_of gset gdel gomap_ok
  by unfold_locales (simp_all add: gset_look gdel_look gset_ok gdel_ok)

lemma gputall_foldl: "gputall m kvs = foldl (\<lambda>m (k, v). gset m k v) m kvs"
  by (induction m kvs rule: gputall.induct) simp_all

lemma map_of_rev_distinct: "distinct (map fst kvs) \<Longrightarrow> map_of (rev kvs) = map_of kvs"
  by (rule map_of_eqI) (auto simp: rev_map [symmetric] image_iff map_of_eq_None_iff [symmetric])

lemma gputall_look: "gomap_ok kvs \<Longrightarrow> map_of (gputall m kvs) = map_of m ++ map_of kvs"
  by (simp add: gputall_foldl gm.look_fold_put map_of_rev_distinct)

lemma gputall_ok: "gomap_ok m \<Longrightarrow> gomap_ok (gputall m kvs)"
  by (simp add: gputall_foldl gm.invar_fold_put)

lemmas gomap_laws [gomap_simps] = gset_look gdel_look gputall_look ghas_def gget_def

declare gset_ok [simp] gdel_ok [simp] gputall_ok [simp]

lemma first_err_None [simp]: "first_err f xs = None \<longleftrightarrow> (\<forall>x\<in>set xs. f x = None)"
  by (induction xs) (auto split: option.splits)

lemma first_err_SomeD: "first_err f xs = Some e \<Longrightarrow> \<exists>x\<in>set xs. f x = Some e"
  by (induction xs) (auto split: option.splits)

lemma wrap_err_None [simp]: "(case r of Some e \<Rightarrow> Some (f e) | None \<Rightarrow> None) = None \<longleftrightarrow> r = None"
  by (cases r) simp_all

section \<open>State monad programs\<close>

lemma run_bind [run_simps]:
  "run_state (State_Monad.bind m f) w = (case run_state m w of (x, w') \<Rightarrow> run_state (f x) w')"
  by (simp add: State_Monad.bind_def)

lemma run_return [run_simps]: "run_state (State_Monad.return x) w = (x, w)"
  by (simp add: State_Monad.return_def)

lemma run_State [run_simps]: "run_state (State f) w = f w"
  by simp

lemma run_if [run_simps]:
  "run_state (if b then m else n) w = (if b then run_state m w else run_state n w)"
  by simp

lemma run_let [run_simps]: "run_state (let x = t in f x) w = (let x = t in run_state (f x) w)"
  by simp

end
