(* ===== verification/Go_Strings.thy ===== *)
theory Go_Strings
  imports Prelude
begin

text \<open>
  The functions of Go's \<^verbatim>\<open>strings\<close>, \<^verbatim>\<open>strconv\<close>, \<^verbatim>\<open>bufio\<close> and \<^verbatim>\<open>path/filepath\<close> packages that the
  driver calls, on Go strings as they are: sequences of bytes, a \<^typ>\<open>char\<close> each.
  Upper and lower case and quoting are exact on ASCII text; on a string with a byte beyond
  ASCII they go through Go's Unicode tables, which are a parameter of the model.
\<close>

section \<open>Unicode tables\<close>

record unicode =
  uni_lower :: "string \<Rightarrow> string"
  uni_upper :: "string \<Rightarrow> string"
  uni_quote :: "string \<Rightarrow> string"

text \<open>Tables that leave every string alone, for examples in ASCII.\<close>

definition plain_unicode :: unicode where
  "plain_unicode = \<lparr>uni_lower = (\<lambda>s. s), uni_upper = (\<lambda>s. s), uni_quote = (\<lambda>s. s)\<rparr>"

definition code_of :: "char \<Rightarrow> nat" where
  "code_of c = of_char c"

definition is_ascii :: "string \<Rightarrow> bool" where
  "is_ascii s \<longleftrightarrow> list_all (\<lambda>c. code_of c < 128) s"

section \<open>Package strings\<close>

definition HasPrefix :: "string \<Rightarrow> string \<Rightarrow> bool" where
  "HasPrefix s p \<longleftrightarrow> prefix p s"

definition HasSuffix :: "string \<Rightarrow> string \<Rightarrow> bool" where
  "HasSuffix s p \<longleftrightarrow> prefix (rev p) (rev s)"

text \<open>The position of the first occurrence, \<open>None\<close> for Go's -1.\<close>

fun Index :: "string \<Rightarrow> string \<Rightarrow> nat option" where
  "Index [] p = (if p = [] then Some 0 else None)"
| "Index (c # cs) p = (if prefix p (c # cs) then Some 0 else map_option Suc (Index cs p))"

definition Contains :: "string \<Rightarrow> string \<Rightarrow> bool" where
  "Contains s p \<longleftrightarrow> Index s p \<noteq> None"

definition Cut :: "string \<Rightarrow> string \<Rightarrow> string \<times> string \<times> bool" where
  "Cut s sep = (case Index s sep of
     Some i \<Rightarrow> (take i s, drop (i + length sep) s, True)
   | None \<Rightarrow> (s, [], False))"

definition TrimPrefix :: "string \<Rightarrow> string \<Rightarrow> string" where
  "TrimPrefix s p = (if prefix p s then drop (length p) s else s)"

text \<open>\<^verbatim>\<open>strings.Split\<close> with a separator of one byte.\<close>

fun Split :: "string \<Rightarrow> char \<Rightarrow> string list" where
  "Split [] d = [[]]"
| "Split (c # cs) d =
     (if c = d then [] # Split cs d
      else (case Split cs d of [] \<Rightarrow> [[c]] | seg # segs \<Rightarrow> (c # seg) # segs))"

text \<open>\<^verbatim>\<open>strings.ReplaceAll\<close>; the driver never replaces the empty string.\<close>

fun ReplaceAll :: "string \<Rightarrow> string \<Rightarrow> string \<Rightarrow> string" where
  "ReplaceAll [] old new = []"
| "ReplaceAll (c # cs) old new =
     (if old \<noteq> [] \<and> prefix old (c # cs) then new @ ReplaceAll (drop (length old - 1) cs) old new
      else c # ReplaceAll cs old new)"

definition lower_byte :: "char \<Rightarrow> char" where
  "lower_byte c = (if 65 \<le> code_of c \<and> code_of c \<le> 90 then char_of (code_of c + 32) else c)"

definition upper_byte :: "char \<Rightarrow> char" where
  "upper_byte c = (if 97 \<le> code_of c \<and> code_of c \<le> 122 then char_of (code_of c - 32) else c)"

definition ToLower :: "unicode \<Rightarrow> string \<Rightarrow> string" where
  "ToLower U s = (if is_ascii s then map lower_byte s else uni_lower U s)"

definition ToUpper :: "unicode \<Rightarrow> string \<Rightarrow> string" where
  "ToUpper U s = (if is_ascii s then map upper_byte s else uni_upper U s)"

text \<open>
  \<^verbatim>\<open>strings.TrimSpace\<close>: the UTF-8 encodings of the runes for which \<^verbatim>\<open>unicode.IsSpace\<close> holds
  (tab to carriage return, space, U+0085, U+00A0, U+1680, U+2000 to U+200A, U+2028, U+2029,
  U+202F, U+205F, U+3000) are removed at both ends.
\<close>

definition bytes :: "nat list \<Rightarrow> string" where
  "bytes ns = map char_of ns"

definition space_runes :: "string list" where
  "space_runes = map bytes
     ([[9], [10], [11], [12], [13], [32], [0xC2, 0x85], [0xC2, 0xA0], [0xE1, 0x9A, 0x80],
       [0xE2, 0x80, 0xA8], [0xE2, 0x80, 0xA9], [0xE2, 0x80, 0xAF], [0xE2, 0x81, 0x9F],
       [0xE3, 0x80, 0x80]] @ map (\<lambda>i. [0xE2, 0x80, 0x80 + i]) [0..<11])"

fun trim_left_fuel :: "string list \<Rightarrow> nat \<Rightarrow> string \<Rightarrow> string" where
  "trim_left_fuel ws 0 s = s"
| "trim_left_fuel ws (Suc n) s =
     (case find (\<lambda>p. prefix p s) ws of
        Some p \<Rightarrow> trim_left_fuel ws n (drop (length p) s)
      | None \<Rightarrow> s)"

definition TrimSpace :: "string \<Rightarrow> string" where
  "TrimSpace s =
     (let l = trim_left_fuel space_runes (length s) s
      in rev (trim_left_fuel (map rev space_runes) (length l) (rev l)))"

section \<open>Package strconv and the verbs of package fmt\<close>

definition hex_digit :: "nat \<Rightarrow> char" where
  "hex_digit n = ''0123456789abcdef'' ! (n mod 16)"

definition quote_byte :: "char \<Rightarrow> string" where
  "quote_byte c = (let n = code_of c in
     if n = 34 then bytes [92, 34]
     else if n = 92 then bytes [92, 92]
     else if n = 7 then bytes [92, 97]
     else if n = 8 then bytes [92, 98]
     else if n = 12 then bytes [92, 102]
     else if n = 10 then bytes [92, 110]
     else if n = 13 then bytes [92, 114]
     else if n = 9 then bytes [92, 116]
     else if n = 11 then bytes [92, 118]
     else if n < 32 \<or> n = 127 then bytes [92, 120] @ [hex_digit (n div 16), hex_digit n]
     else [c])"

text \<open>The verb \<^verbatim>\<open>%q\<close>.\<close>

definition Quote :: "unicode \<Rightarrow> string \<Rightarrow> string" where
  "Quote U s = (if is_ascii s then CHR 0x22 # concat (map quote_byte s) @ [CHR 0x22] else uni_quote U s)"

text \<open>The verb \<^verbatim>\<open>%d\<close> on a natural number.\<close>

fun show_nat :: "nat \<Rightarrow> string" where
  "show_nat n = (if n < 10 then [char_of (48 + n)] else show_nat (n div 10) @ [char_of (48 + n mod 10)])"

declare show_nat.simps [simp del]

text \<open>\<^verbatim>\<open>strconv.ParseUint(s, 8, 32)\<close>, \<open>None\<close> for a syntax or range error.\<close>

fun parse_octal :: "nat \<Rightarrow> string \<Rightarrow> nat option" where
  "parse_octal n [] = Some n"
| "parse_octal n (c # cs) =
     (if 48 \<le> code_of c \<and> code_of c \<le> 55 then
        (let n1 = 8 * n + (code_of c - 48)
         in if n1 \<le> 2 ^ 32 - 1 then parse_octal n1 cs else None)
      else None)"

definition ParseUint_8_32 :: "string \<Rightarrow> nat option" where
  "ParseUint_8_32 s = (if s = [] then None else parse_octal 0 s)"

section \<open>Package bufio\<close>

text \<open>
  The lines of \<^verbatim>\<open>bufio.NewScanner\<close> with the default split function: the line feed is dropped
  and with it one carriage return before it; the text after the last line feed is a line
  unless it is empty. The scanner's buffer holds 64 KiB, and a line that does not fit stops
  it with \<^verbatim>\<open>bufio.ErrTooLong\<close>.
\<close>

fun raw_lines :: "string \<Rightarrow> string list" where
  "raw_lines [] = []"
| "raw_lines (c # cs) =
     (if c = CHR 0x0A then [] # raw_lines cs
      else (case raw_lines cs of
              [] \<Rightarrow> [[c]]
            | l # ls \<Rightarrow> (c # l) # ls))"

definition drop_CR :: "string \<Rightarrow> string" where
  "drop_CR l = (if l \<noteq> [] \<and> last l = CHR 0x0D then butlast l else l)"

definition MaxScanTokenSize :: nat where
  "MaxScanTokenSize = 65536"

definition err_too_long :: go_error where
  "err_too_long = Errorf ''bufio.Scanner: token too long''"

section \<open>Package path/filepath\<close>

fun join_with :: "string \<Rightarrow> string list \<Rightarrow> string" where
  "join_with sep [] = []"
| "join_with sep [s] = s"
| "join_with sep (s # t # ss) = s @ sep @ join_with sep (t # ss)"

text \<open>The elements kept so far, the last one first.\<close>

definition clean_step :: "bool \<Rightarrow> string list \<Rightarrow> string \<Rightarrow> string list" where
  "clean_step rooted out seg =
     (if seg = [] \<or> seg = ''.'' then out
      else if seg = ''..'' then
        (case out of
           [] \<Rightarrow> if rooted then [] else [''..'']
         | x # xs \<Rightarrow> if x = ''..'' then ''..'' # out else xs)
      else seg # out)"

definition Clean :: "string \<Rightarrow> string" where
  "Clean p =
     (let rooted = prefix ''/'' p;
          out = rev (foldl (clean_step rooted) [] (Split p (CHR ''/'')))
      in if rooted then CHR ''/'' # join_with ''/'' out
         else if out = [] then ''.'' else join_with ''/'' out)"

definition Join :: "string list \<Rightarrow> string" where
  "Join es = (case dropWhile (\<lambda>e. e = []) es of [] \<Rightarrow> [] | es' \<Rightarrow> Clean (join_with ''/'' es'))"

section \<open>Lemmas on strings\<close>

subsection \<open>Bytes\<close>

lemma char_of_code_of: "char_of (code_of c) = c"
  by (simp add: code_of_def)

lemma code_of_char_of: "n < 256 \<Longrightarrow> code_of (char_of n) = n"
  by (simp add: code_of_def)

subsection \<open>Searching\<close>

lemma Index_SomeD:
  "Index s p = Some i \<Longrightarrow> s = take i s @ p @ drop (i + length p) s"
proof (induction s arbitrary: i)
  case Nil
  then show ?case by (auto split: if_splits)
next
  case (Cons c cs)
  show ?case
  proof (cases "prefix p (c # cs)")
    case True
    with Cons.prems show ?thesis by (auto simp: prefix_def)
  next
    case False
    with Cons.prems obtain j where j: "Index cs p = Some j" "i = Suc j" by auto
    from Cons.IH [OF j(1)] j(2) show ?thesis by simp
  qed
qed

lemma Index_Some_length: "Index s p = Some i \<Longrightarrow> i + length p \<le> length s"
  by (induction s arbitrary: i) (auto dest: prefix_length_le split: if_splits)

lemma Index_None: "Index s p = None \<longleftrightarrow> (\<nexists>a b. s = a @ p @ b)"
proof (induction s)
  case Nil
  show ?case by auto
next
  case (Cons c cs)
  have "(\<exists>a b. c # cs = a @ p @ b) \<longleftrightarrow> prefix p (c # cs) \<or> (\<exists>a b. cs = a @ p @ b)"
    by (auto simp: prefix_def Cons_eq_append_conv)
  with Cons.IH show ?case by auto
qed

lemma Contains_iff: "Contains s p \<longleftrightarrow> (\<exists>a b. s = a @ p @ b)"
  using Index_None [of s p] by (auto simp: Contains_def)

lemma Contains_char: "Contains s [c] \<longleftrightarrow> c \<in> set s"
  by (auto simp: Contains_iff in_set_conv_decomp)

lemma HasSuffix_iff: "HasSuffix s p \<longleftrightarrow> (\<exists>a. s = a @ p)"
  unfolding HasSuffix_def prefix_def
  by (metis rev_append rev_rev_ident)

lemma HasPrefix_iff: "HasPrefix s p \<longleftrightarrow> (\<exists>a. s = p @ a)"
  by (simp add: HasPrefix_def prefix_def)

lemma Cut_charD: "Cut s [c] = (a, b, True) \<Longrightarrow> s = a @ c # b"
  using Index_SomeD [of s "[c]"] by (auto simp: Cut_def split: option.splits)

subsection \<open>Replacing\<close>

lemma ReplaceAll_char: "ReplaceAll s [a] [b] = map (\<lambda>c. if c = a then b else c) s"
  by (induction s) auto

subsection \<open>Splitting paths\<close>

lemma Split_not_Nil [simp]: "Split s d \<noteq> []"
  by (induction s) (auto split: list.splits)

lemma Split_no_sep: "d \<notin> set s \<Longrightarrow> Split s d = [s]"
  by (induction s) auto

lemma Split_append_sep: "Split (a @ d # b) d = Split a d @ Split b d"
proof (induction a)
  case Nil
  show ?case by simp
next
  case (Cons c cs)
  then show ?case by (cases "Split cs d") auto
qed

lemma Split_segments: "seg \<in> set (Split s d) \<Longrightarrow> d \<notin> set seg"
proof (induction s arbitrary: seg)
  case Nil
  then show ?case by simp
next
  case (Cons c cs)
  then show ?case by (cases "Split cs d") (auto split: if_splits)
qed

lemma join_with_cons [simp]: "join_with sep ((c # s) # ss) = c # join_with sep (s # ss)"
  by (cases ss) simp_all

lemma join_Split: "join_with [d] (Split s d) = s"
proof (induction s)
  case Nil
  show ?case by simp
next
  case (Cons c cs)
  then show ?case
    by (cases "Split cs d" rule: list.exhaust) (auto split: list.splits simp: neq_Nil_conv)
qed

text \<open>The segments a path names: empty ones, as in a doubled slash, do not count.\<close>

definition path_segments :: "string \<Rightarrow> string list" where
  "path_segments p = filter (\<lambda>seg. seg \<noteq> []) (Split p (CHR ''/''))"

lemma path_segments_Nil [simp]: "path_segments [] = []"
  by (simp add: path_segments_def)

lemma path_segments_slash [simp]: "path_segments (CHR ''/'' # p) = path_segments p"
  by (simp add: path_segments_def)

lemma path_segments_append [simp]:
  "path_segments (a @ CHR ''/'' # b) = path_segments a @ path_segments b"
  by (simp add: path_segments_def Split_append_sep)

lemma path_segments_single:
  "CHR ''/'' \<notin> set s \<Longrightarrow> s \<noteq> [] \<Longrightarrow> path_segments s = [s]"
  by (simp add: path_segments_def Split_no_sep)

lemma path_segments_cons:
  assumes "CHR ''/'' \<notin> set s" "s \<noteq> []" "t = [] \<or> prefix ''/'' t"
  shows "path_segments (s @ t) = s # path_segments t"
proof (cases t)
  case Nil
  with assms show ?thesis by (simp add: path_segments_single)
next
  case (Cons c t')
  with assms(3) have "c = CHR ''/''" by simp
  with Cons assms(1,2) show ?thesis by (simp add: path_segments_single)
qed

subsection \<open>Joining paths\<close>

text \<open>A name that stays as it is at the end of a joined path.\<close>

lemma join_with_snoc: "\<exists>p. join_with sep (xs @ [x]) = p @ x"
proof (induction xs)
  case (Cons y ys)
  then obtain p where "join_with sep (ys @ [x]) = p @ x" by blast
  then show ?case by (cases "ys @ [x]") auto
qed simp

definition file_name :: "string \<Rightarrow> bool" where
  "file_name f \<longleftrightarrow> f \<noteq> [] \<and> f \<noteq> ''.'' \<and> f \<noteq> ''..'' \<and> CHR ''/'' \<notin> set f"

lemma Clean_file:
  assumes "file_name f"
  shows "\<exists>p. Clean (d @ CHR ''/'' # f) = p @ f"
proof -
  have "Split (d @ CHR ''/'' # f) (CHR ''/'') = Split d (CHR ''/'') @ [f]"
    using assms by (simp add: Split_append_sep Split_no_sep file_name_def)
  then have "rev (foldl (clean_step r) [] (Split (d @ CHR ''/'' # f) (CHR ''/''))) =
      rev (foldl (clean_step r) [] (Split d (CHR ''/''))) @ [f]" for r
    using assms by (simp add: clean_step_def file_name_def)
  then show ?thesis
    using join_with_snoc [of "''/''"] by (auto simp: Clean_def Let_def) (metis append_Cons)+
qed

lemma Join_file: "file_name f \<Longrightarrow> \<exists>p. Join [d, f] = p @ f"
proof (cases "d = []")
  case True
  assume f: "file_name f"
  then have "Split f (CHR ''/'') = [f]" "\<not> prefix ''/'' f" by (auto simp: file_name_def Split_no_sep prefix_def)
  with f True show ?thesis by (auto simp: Join_def Clean_def clean_step_def file_name_def Let_def)
next
  case False
  then show "file_name f \<Longrightarrow> ?thesis" using Clean_file [of f d] by (simp add: Join_def)
qed

end
