(* ===== verification/Csi_Types.thy ===== *)
theory Csi_Types
  imports Prelude
begin

text \<open>
  The messages of the Container Storage Interface that the driver reads and answers with, as
  far as its code looks at them, and the Kubernetes objects it fetches. A getter of a nil
  message returns the zero value of its field, so an absent capability, access mode or
  mount is a value of its own here.
\<close>

datatype access_mode =
    UNKNOWN | SINGLE_NODE_WRITER | SINGLE_NODE_READER_ONLY | MULTI_NODE_READER_ONLY
  | MULTI_NODE_SINGLE_WRITER | MULTI_NODE_MULTI_WRITER | SINGLE_NODE_SINGLE_WRITER
  | SINGLE_NODE_MULTI_WRITER

text \<open>The access type: a file system mount with its flags, a block device, or nothing set.\<close>

datatype access_type = MountVolume "string list" | BlockVolume | NoAccessType

record volume_capability =
  cap_mode :: access_mode
  cap_type :: access_type

text \<open>\<^verbatim>\<open>GetMount() == nil\<close> and \<^verbatim>\<open>GetMount().GetMountFlags()\<close>.\<close>

fun GetMount :: "volume_capability \<Rightarrow> string list option" where
  "GetMount c = (case cap_type c of MountVolume fs \<Rightarrow> Some fs | _ \<Rightarrow> None)"

fun GetMountFlags :: "volume_capability \<Rightarrow> string list" where
  "GetMountFlags c = (case GetMount c of Some fs \<Rightarrow> fs | None \<Rightarrow> [])"

record create_volume_request =
  cv_name :: string
  cv_capabilities :: "volume_capability list"
  cv_required_bytes :: int
  cv_parameters :: "string gomap"

record csi_volume =
  vol_id :: string
  vol_capacity :: int
  vol_context :: "string gomap"

record validate_request =
  vv_volume_id :: string
  vv_capabilities :: "volume_capability list"
  vv_context :: "string gomap"
  vv_parameters :: "string gomap"

text \<open>The answer to ValidateVolumeCapabilities: confirmed with what was asked, or a message.\<close>

datatype validate_response =
    Confirmed "string gomap" "volume_capability list" "string gomap"
  | NotConfirmed string

record stage_request =
  ns_volume_id :: string
  ns_staging_path :: string
  ns_capability :: "volume_capability option"
  ns_context :: "string gomap"

record unstage_request =
  nu_volume_id :: string
  nu_staging_path :: string

record publish_request =
  np_volume_id :: string
  np_staging_path :: string
  np_target_path :: string
  np_capability :: "volume_capability option"
  np_readonly :: bool
  np_context :: "string gomap"
  np_secrets :: "string gomap"

record unpublish_request =
  nup_volume_id :: string
  nup_target_path :: string

text \<open>The parts of a PersistentVolumeClaim the controller reads.\<close>

record pvc =
  pvc_labels :: "string gomap"
  pvc_annotations :: "string gomap"

end
