(* ===== verification/Controller.thy ===== *)
theory Controller
  imports Go_Strings Csi_Types
begin

text \<open>
  The controller, \<^verbatim>\<open>pkg/rclone/controller.go\<close>: provisioning of a volume is the expansion of
  the StorageClass's path pattern with the metadata of the claim, under the checks that keep
  claims of different namespaces apart. The Kubernetes API is a parameter: a client, or the
  error of making one, that answers a request for a claim.
\<close>

section \<open>Path patterns\<close>

record pvcMetadata =
  meta_data :: "string gomap"
  meta_labels :: "string gomap"
  meta_annotations :: "string gomap"

text \<open>
  A match of \<^verbatim>\<open>\${\.PVC\.((labels|annotations)\.(.*?)|.*?)}\<close> with its submatches \<^verbatim>\<open>r[0]\<close> to
  \<^verbatim>\<open>r[3]\<close>. The lazy repetition takes the text up to the first closing brace, \<^verbatim>\<open>.\<close> does not
  match a line feed, and the first alternative is preferred where it applies.
\<close>

record submatch =
  sub0 :: string
  sub1 :: string
  sub2 :: string
  sub3 :: string

definition placeholder_open :: string where
  "placeholder_open = ''${.PVC.''"

definition match_here :: "string \<Rightarrow> submatch option" where
  "match_here s =
     (if \<not> prefix placeholder_open s then None
      else let rest = drop (length placeholder_open) s;
               body = takeWhile (\<lambda>c. c \<noteq> CHR ''}'' \<and> c \<noteq> CHR 0x0A) rest
           in if \<not> prefix ''}'' (drop (length body) rest) then None
              else let whole = placeholder_open @ body @ ''}''
                   in Some (if prefix ''labels.'' body
                            then \<lparr>sub0 = whole, sub1 = body, sub2 = ''labels'', sub3 = drop 7 body\<rparr>
                            else if prefix ''annotations.'' body
                            then \<lparr>sub0 = whole, sub1 = body, sub2 = ''annotations'', sub3 = drop 12 body\<rparr>
                            else \<lparr>sub0 = whole, sub1 = body, sub2 = [], sub3 = []\<rparr>))"

text \<open>\<^verbatim>\<open>FindAllStringSubmatch(str, -1)\<close>: leftmost matches that do not overlap.\<close>

function find_all :: "string \<Rightarrow> submatch list" where
  "find_all [] = []"
| "find_all (c # cs) =
     (case match_here (c # cs) of
        None \<Rightarrow> find_all cs
      | Some r \<Rightarrow> r # find_all (drop (length (sub0 r) - 1) cs))"
  by pat_completeness auto
termination
  by (relation "measure length") auto

definition expand_one :: "pvcMetadata \<Rightarrow> string \<Rightarrow> submatch \<Rightarrow> string" where
  "expand_one meta str r =
     (if sub2 r = ''labels'' then ReplaceAll str (sub0 r) (gget (meta_labels meta) (sub3 r))
      else if sub2 r = ''annotations'' then ReplaceAll str (sub0 r) (gget (meta_annotations meta) (sub3 r))
      else ReplaceAll str (sub0 r) (gget (meta_data meta) (sub1 r)))"

definition stringParser :: "pvcMetadata \<Rightarrow> string \<Rightarrow> string" where
  "stringParser meta str = foldl (expand_one meta) str (find_all str)"

definition namespacePlaceholder :: string where
  "namespacePlaceholder = ''${.PVC.namespace}''"

definition validatePathPatternIsolation :: "unicode \<Rightarrow> string \<Rightarrow> go_error option" where
  "validatePathPatternIsolation U pathPattern =
     (let i = Index pathPattern namespacePlaceholder;
          pre = (case i of Some n \<Rightarrow> take n pathPattern | None \<Rightarrow> []);
          rest = (case i of Some n \<Rightarrow> drop (n + length namespacePlaceholder) pathPattern | None \<Rightarrow> [])
      in if i = None \<or> Contains pre ''${'' \<or> (pre \<noteq> [] \<and> \<not> HasSuffix pre ''/'')
            \<or> (rest \<noteq> [] \<and> \<not> HasPrefix rest ''/'')
         then Some (Status InvalidArgument
                (''pathPattern '' @ Quote U pathPattern @ '' must contain '' @ namespacePlaceholder
                 @ '' as a whole path segment with only fixed text before it; set sharedRemote: ''
                 @ [CHR 0x22] @ ''true'' @ [CHR 0x22] @ '' to share the remote path between namespaces''))
         else None)"

definition validateRemotePathSuffix :: "unicode \<Rightarrow> string \<Rightarrow> go_error option" where
  "validateRemotePathSuffix U sfx =
     first_err (\<lambda>segment.
         if segment = ''.'' \<or> segment = ''..''
         then Some (Status InvalidArgument
                (''pathPattern expands to '' @ Quote U sfx @ '', which contains a ''
                 @ Quote U segment @ '' segment''))
         else None)
       (Split sfx (CHR ''/''))"

section \<open>The Kubernetes client\<close>

text \<open>
  \<^verbatim>\<open>GetK8sClient\<close> of \<^verbatim>\<open>pkg/rclone/k8sClient.go\<close> with its cached client: the in-cluster
  configuration and the constructor of client-go are parameters. The second component is the
  cache after the call.
\<close>

definition GetK8sClient ::
  "(go_error + 'cfg) \<Rightarrow> ('cfg \<Rightarrow> go_error + 'c) \<Rightarrow> 'c option \<Rightarrow> (go_error + 'c) \<times> 'c option" where
  "GetK8sClient InClusterConfig NewForConfig clientset =
     (case clientset of
        Some c \<Rightarrow> (Inr c, Some c)
      | None \<Rightarrow>
          (case InClusterConfig of
             Inl e \<Rightarrow> (Inl e, None)
           | Inr config \<Rightarrow>
               (case NewForConfig config of
                  Inl e \<Rightarrow> (Inl e, None)
                | Inr c \<Rightarrow> (Inr c, Some c))))"

text \<open>A client answers a Get for a claim, namespace first.\<close>

type_synonym pvc_client = "string \<Rightarrow> string \<Rightarrow> go_error + pvc"

definition getPVC :: "(go_error + pvc_client) \<Rightarrow> string \<Rightarrow> string \<Rightarrow> go_error + pvc" where
  "getPVC client name namespace =
     (case client of
        Inl e \<Rightarrow> Inl (Status Internal (''can not create kubernetes client: '' @ Error e))
      | Inr clientset \<Rightarrow> clientset namespace name)"

section \<open>The controller service\<close>

definition validateCapabilities :: "string \<Rightarrow> volume_capability list \<Rightarrow> go_error option" where
  "validateCapabilities vid caps =
     (if vid = [] \<or> caps = []
      then Some (Status InvalidArgument ''volume name or ID and volume capabilities are required'')
      else None)"

text \<open>The suffix of a non-empty expansion starts with a slash.\<close>

definition suffix_context :: "unicode \<Rightarrow> pvcMetadata \<Rightarrow> string gomap \<Rightarrow> go_error + string gomap" where
  "suffix_context U metadata parameters =
     (case map_of parameters ''pathPattern'' of
        None \<Rightarrow> Inr []
      | Some pathPattern \<Rightarrow>
          if pathPattern = [] then Inr []
          else let remotePathSuffix = stringParser metadata pathPattern
               in if remotePathSuffix = [] then Inr []
                  else (case validateRemotePathSuffix U remotePathSuffix of
                          Some e \<Rightarrow> Inl e
                        | None \<Rightarrow>
                            Inr (gset [] ''remotePathSuffix''
                                  (if HasPrefix remotePathSuffix ''/'' then remotePathSuffix
                                   else CHR ''/'' # remotePathSuffix))))"

fun annotation_context ::
  "unicode \<Rightarrow> string gomap \<Rightarrow> string gomap \<Rightarrow> go_error + string gomap" where
  "annotation_context U ctxt [] = Inr ctxt"
| "annotation_context U ctxt ((key, val) # kvs) =
     (if HasPrefix key ''csi-rclone/'' \<and> TrimPrefix key ''csi-rclone/'' = ''umask''
      then (case ParseUint_8_32 val of
              None \<Rightarrow> Inl (Status InvalidArgument
                (''annotation csi-rclone/umask '' @ Quote U val @ '' is not an octal number''))
            | Some _ \<Rightarrow> annotation_context U (gset ctxt ''umask'' val) kvs)
      else annotation_context U ctxt kvs)"

definition CreateVolume ::
  "unicode \<Rightarrow> (go_error + pvc_client) \<Rightarrow> create_volume_request \<Rightarrow> go_error + csi_volume" where
  "CreateVolume U client req =
     (case validateCapabilities (cv_name req) (cv_capabilities req) of
        Some e \<Rightarrow> Inl e
      | None \<Rightarrow>
     (let parameters = cv_parameters req;
          pvcName = gget parameters ''csi.storage.k8s.io/pvc/name'';
          pvcNamespace = gget parameters ''csi.storage.k8s.io/pvc/namespace'';
          isolation = (if gget parameters ''sharedRemote'' \<noteq> ''true''
                       then (case validatePathPatternIsolation U (gget parameters ''pathPattern'') of
                               Some e \<Rightarrow> Some e
                             | None \<Rightarrow> if pvcName = [] \<or> pvcNamespace = []
                                       then Some (Status InvalidArgument
                                         ''PVC name and namespace missing, run csi-provisioner with --extra-create-metadata'')
                                       else None)
                       else None);
          volume = (\<lambda>ctxt. \<lparr>vol_id = cv_name req, vol_capacity = cv_required_bytes req, vol_context = ctxt\<rparr>)
      in case isolation of
           Some e \<Rightarrow> Inl e
         | None \<Rightarrow>
             if pvcName = [] then Inr (volume [])
             else (case getPVC client pvcName pvcNamespace of
                     Inl e \<Rightarrow> Inl e
                   | Inr claim \<Rightarrow>
                       let metadata = \<lparr>meta_data = [(''name'', pvcName), (''namespace'', pvcNamespace)],
                                       meta_labels = pvc_labels claim, meta_annotations = pvc_annotations claim\<rparr>
                       in (case suffix_context U metadata parameters of
                             Inl e \<Rightarrow> Inl e
                           | Inr ctxt \<Rightarrow>
                               (case annotation_context U ctxt (meta_annotations metadata) of
                                  Inl e \<Rightarrow> Inl e
                                | Inr ctxt' \<Rightarrow> Inr (volume ctxt'))))))"

definition DeleteVolume :: "string \<Rightarrow> go_error option" where
  "DeleteVolume volumeId =
     (if volumeId = [] then Some (Status InvalidArgument ''volume ID is required'') else None)"

definition ValidateVolumeCapabilities :: "validate_request \<Rightarrow> go_error + validate_response" where
  "ValidateVolumeCapabilities req =
     (case validateCapabilities (vv_volume_id req) (vv_capabilities req) of
        Some e \<Rightarrow> Inl e
      | None \<Rightarrow>
          if list_ex (\<lambda>c. GetMount c = None) (vv_capabilities req)
          then Inr (NotConfirmed ''only filesystem volumes are supported'')
          else Inr (Confirmed (vv_context req) (vv_capabilities req) (vv_parameters req)))"

datatype controller_capability = CREATE_DELETE_VOLUME

definition ControllerGetCapabilities :: "controller_capability list" where
  "ControllerGetCapabilities = [CREATE_DELETE_VOLUME]"

section \<open>Expansion keeps the fixed part of a pattern\<close>

text \<open>
  Text in which no placeholder can start, whatever follows it: every dollar sign in it is
  followed by a byte of its own that is not an opening brace.
\<close>

fun no_open :: "string \<Rightarrow> bool" where
  "no_open [] = True"
| "no_open (c # cs) = ((c = CHR ''$'' \<longrightarrow> cs \<noteq> [] \<and> hd cs \<noteq> CHR ''{'') \<and> no_open cs)"

lemma no_open_append: "no_open a \<Longrightarrow> no_open b \<Longrightarrow> no_open (a @ b)"
  by (induction a) (auto simp: hd_append)

lemma no_open_no_dollar: "CHR ''$'' \<notin> set a \<Longrightarrow> no_open a"
  by (induction a) auto

lemma no_open_fixed: "\<not> Contains a ''${'' \<Longrightarrow> a = [] \<or> last a \<noteq> CHR ''$'' \<Longrightarrow> no_open a"
proof (induction a)
  case Nil
  show ?case by simp
next
  case (Cons c cs)
  have nc: "\<not> Contains cs ''${''"
    using Cons.prems(1) unfolding Contains_iff by (metis append_Cons)
  have "hd cs \<noteq> CHR ''{''" if "c = CHR ''$''" "cs \<noteq> []"
    using Cons.prems(1) that unfolding Contains_iff
    by (metis append_Cons append_Nil list.collapse)
  moreover have "no_open cs"
    by (rule Cons.IH [OF nc]) (use Cons.prems(2) in auto)
  ultimately show ?case using Cons.prems(2) by (cases "cs = []") auto
qed

lemma no_open_head: "no_open (c # cs) \<Longrightarrow> \<not> prefix (CHR ''$'' # CHR ''{'' # p) (c # cs @ b)"
  by (cases cs) auto

lemma ReplaceAll_no_open:
  assumes "no_open a" and "old = CHR ''$'' # CHR ''{'' # p"
  shows "ReplaceAll (a @ b) old new = a @ ReplaceAll b old new"
  using assms(1)
proof (induction a)
  case Nil
  show ?case by simp
next
  case (Cons c cs)
  from no_open_head [OF Cons.prems] assms(2) have "\<not> prefix old (c # cs @ b)" by simp
  with Cons show ?case by simp
qed

lemma placeholder_open_cons: "placeholder_open = CHR ''$'' # CHR ''{'' # ''.PVC.''"
  by (simp add: placeholder_open_def)

lemma match_here_sub0: "match_here s = Some r \<Longrightarrow> \<exists>p. sub0 r = CHR ''$'' # CHR ''{'' # p"
  by (auto simp: match_here_def Let_def placeholder_open_cons split: if_splits)

lemma find_all_no_open: "no_open a \<Longrightarrow> find_all (a @ b) = find_all b"
proof (induction a)
  case Nil
  show ?case by simp
next
  case (Cons c cs)
  from no_open_head [OF Cons.prems] have "match_here (c # cs @ b) = None"
    by (simp add: match_here_def placeholder_open_cons)
  with Cons show ?case by simp
qed

lemma find_all_sub0: "r \<in> set (find_all s) \<Longrightarrow> \<exists>p. sub0 r = CHR ''$'' # CHR ''{'' # p"
  by (induction s rule: find_all.induct) (auto split: option.splits dest: match_here_sub0)

lemma expand_one_no_open:
  assumes "no_open a" and "\<exists>p. sub0 r = CHR ''$'' # CHR ''{'' # p"
  shows "expand_one meta (a @ b) r = a @ expand_one meta b r"
  using assms by (auto simp: expand_one_def ReplaceAll_no_open)

lemma expand_all_no_open:
  assumes "no_open a" and "\<And>r. r \<in> set rs \<Longrightarrow> \<exists>p. sub0 r = CHR ''$'' # CHR ''{'' # p"
  shows "foldl (expand_one meta) (a @ b) rs = a @ foldl (expand_one meta) b rs"
  using assms(2)
proof (induction rs arbitrary: b)
  case Nil
  show ?case by simp
next
  case (Cons r rs)
  then show ?case by (simp add: expand_one_no_open [OF assms(1)])
qed

lemma find_all_namespace:
  "find_all (namespacePlaceholder @ rest) =
     \<lparr>sub0 = namespacePlaceholder, sub1 = ''namespace'', sub2 = [], sub3 = []\<rparr> # find_all rest"
  by (simp add: namespacePlaceholder_def match_here_def placeholder_open_def)

lemma ReplaceAll_namespace:
  "ReplaceAll (namespacePlaceholder @ rest) namespacePlaceholder ns =
     ns @ ReplaceAll rest namespacePlaceholder ns"
  by (simp add: namespacePlaceholder_def)

lemma foldl_expand_Nil:
  "foldl (expand_one meta) [] rs = []"
  by (induction rs) (simp_all add: expand_one_def)

lemma expansion_tail:
  assumes "rest = [] \<or> prefix ''/'' rest"
    and rs: "\<And>r. r \<in> set rs \<Longrightarrow> \<exists>p. sub0 r = CHR ''$'' # CHR ''{'' # p"
  shows "foldl (expand_one meta) rest rs = [] \<or> prefix ''/'' (foldl (expand_one meta) rest rs)"
proof (cases rest)
  case Nil
  then show ?thesis by (simp add: foldl_expand_Nil)
next
  case (Cons c cs)
  with assms(1) have "rest = ''/'' @ cs" by simp
  moreover have "foldl (expand_one meta) (''/'' @ cs) rs = ''/'' @ foldl (expand_one meta) cs rs"
    by (rule expand_all_no_open [OF _ rs]) simp_all
  ultimately show ?thesis by simp
qed

text \<open>
  What a pattern with a whole namespace segment after fixed text expands to, whatever labels
  and annotations the claim has.
\<close>

lemma stringParser_namespace_segment:
  assumes pat: "pat = pre @ namespacePlaceholder @ rest"
    and pre: "no_open pre" and rest: "rest = [] \<or> prefix ''/'' rest"
    and ns: "gget (meta_data meta) ''namespace'' = ns" "CHR ''$'' \<notin> set ns"
  shows "\<exists>t. stringParser meta pat = pre @ ns @ t \<and> (t = [] \<or> prefix ''/'' t)"
proof -
  let ?m = "\<lparr>sub0 = namespacePlaceholder, sub1 = ''namespace'', sub2 = [], sub3 = []\<rparr> :: submatch"
  let ?np = "namespacePlaceholder"
  let ?t = "foldl (expand_one meta) (expand_one meta rest ?m) (find_all rest)"
  have np: "\<exists>p. ?np = CHR ''$'' # CHR ''{'' # p" by (simp add: namespacePlaceholder_def)
  have rs: "\<exists>p. sub0 r = CHR ''$'' # CHR ''{'' # p" if "r \<in> set (find_all rest)" for r
    using that by (rule find_all_sub0)
  have "expand_one meta pat ?m = pre @ expand_one meta (?np @ rest) ?m"
    using expand_one_no_open [OF pre, of ?m] np pat by simp
  also have "expand_one meta (?np @ rest) ?m = ns @ expand_one meta rest ?m"
    using ns(1) by (simp add: expand_one_def ReplaceAll_namespace)
  finally have one: "expand_one meta pat ?m = (pre @ ns) @ expand_one meta rest ?m" by simp
  have "stringParser meta pat = foldl (expand_one meta) (expand_one meta pat ?m) (find_all rest)"
    using pat by (simp add: stringParser_def find_all_no_open [OF pre] find_all_namespace)
  also have "\<dots> = (pre @ ns) @ ?t"
    unfolding one
    by (rule expand_all_no_open [OF no_open_append [OF pre no_open_no_dollar [OF ns(2)]] rs])
  finally have "stringParser meta pat = pre @ ns @ ?t" by simp
  moreover have "?t = [] \<or> prefix ''/'' ?t"
    using expansion_tail [of rest "?m # find_all rest" meta] rest rs np by fastforce
  ultimately show ?thesis by blast
qed

section \<open>Provisioned volumes\<close>

lemma validatePathPatternIsolation_None:
  "validatePathPatternIsolation U pat = None \<Longrightarrow>
     \<exists>pre rest. pat = pre @ namespacePlaceholder @ rest \<and> Index pat namespacePlaceholder = Some (length pre)
       \<and> \<not> Contains pre ''${'' \<and> (pre = [] \<or> HasSuffix pre ''/'') \<and> (rest = [] \<or> HasPrefix rest ''/'')"
proof -
  assume ok: "validatePathPatternIsolation U pat = None"
  then obtain i where i: "Index pat namespacePlaceholder = Some i"
    by (cases "Index pat namespacePlaceholder") (simp_all add: validatePathPatternIsolation_def)
  let ?pre = "take i pat" and ?rest = "drop (i + length namespacePlaceholder) pat"
  from Index_SomeD [OF i] have "pat = ?pre @ namespacePlaceholder @ ?rest" .
  moreover have "length ?pre = i" using Index_Some_length [OF i] by simp
  moreover have "\<not> Contains ?pre ''${'' \<and> (?pre = [] \<or> HasSuffix ?pre ''/'') \<and> (?rest = [] \<or> HasPrefix ?rest ''/'')"
    using ok i by (auto simp: validatePathPatternIsolation_def Let_def split: if_splits)
  ultimately show ?thesis using i by metis
qed

lemma fixed_prefix_no_open:
  assumes "\<not> Contains pre ''${''" and "pre = [] \<or> HasSuffix pre ''/''"
  shows "no_open pre"
  using assms by (intro no_open_fixed) (auto simp: HasSuffix_iff)

lemma path_segments_prefix_slash:
  assumes "pre = [] \<or> HasSuffix pre ''/''"
  shows "path_segments (pre @ s) = path_segments pre @ path_segments s"
  using assms by (auto simp: HasSuffix_iff)

text \<open>The key of the isolation argument: the segment at a fixed place is the namespace.\<close>

lemma expansion_segments:
  assumes ok: "validatePathPatternIsolation U pat = None"
    and i: "Index pat namespacePlaceholder = Some i"
    and ns: "gget (meta_data meta) ''namespace'' = ns" "CHR ''$'' \<notin> set ns" "CHR ''/'' \<notin> set ns" "ns \<noteq> []"
  shows "\<exists>t. path_segments (stringParser meta pat) = path_segments (take i pat) @ ns # t"
proof -
  from validatePathPatternIsolation_None [OF ok] i obtain pre rest where
    pat: "pat = pre @ namespacePlaceholder @ rest" and pre: "\<not> Contains pre ''${''" "pre = [] \<or> HasSuffix pre ''/''"
    and rest: "rest = [] \<or> prefix ''/'' rest" and len: "length pre = i"
    by (auto simp: HasPrefix_def)
  from stringParser_namespace_segment [OF pat fixed_prefix_no_open [OF pre] rest ns(1,2)]
  obtain t where t: "stringParser meta pat = pre @ ns @ t" "t = [] \<or> prefix ''/'' t" by blast
  have "path_segments (stringParser meta pat) = path_segments pre @ ns # path_segments t"
    using t ns by (simp add: path_segments_prefix_slash [OF pre(2)] path_segments_cons)
  moreover have "take i pat = pre" using pat len by simp
  ultimately show ?thesis by blast
qed

definition no_dot_segments :: "string \<Rightarrow> bool" where
  "no_dot_segments p \<longleftrightarrow> ''.'' \<notin> set (path_segments p) \<and> ''..'' \<notin> set (path_segments p)"

lemma suffix_context_Inr:
  assumes "suffix_context U meta ps = Inr ctxt" and "gget ps ''pathPattern'' = pat"
    and "stringParser meta pat \<noteq> []"
  shows "\<exists>s. ctxt = [(''remotePathSuffix'', s)] \<and> prefix ''/'' s
           \<and> path_segments s = path_segments (stringParser meta pat)
           \<and> no_dot_segments s"
proof -
  let ?x = "stringParser meta pat"
  have "pat \<noteq> []" using assms(3) by (auto simp: stringParser_def)
  with assms(2) have p: "map_of ps ''pathPattern'' = Some pat"
    by (auto simp: gget_def split: option.splits)
  let ?s = "if HasPrefix ?x ''/'' then ?x else CHR ''/'' # ?x"
  from assms(1) p \<open>pat \<noteq> []\<close> assms(3) have v: "validateRemotePathSuffix U ?x = None"
    and c: "ctxt = gset [] ''remotePathSuffix'' ?s"
    by (auto simp: suffix_context_def Let_def split: option.splits if_splits)
  from v have "no_dot_segments ?x"
    by (auto simp: validateRemotePathSuffix_def no_dot_segments_def path_segments_def split: if_splits)
  moreover have "ctxt = [(''remotePathSuffix'', ?s)]" using c by (simp add: gset_def)
  moreover have "prefix ''/'' ?s" by (auto simp: HasPrefix_def)
  moreover have "path_segments ?s = path_segments ?x" by simp
  ultimately show ?thesis unfolding no_dot_segments_def by metis
qed

lemma HasPrefix_TrimPrefix_eq: "HasPrefix k p \<and> TrimPrefix k p = s \<longleftrightarrow> k = p @ s"
  by (auto simp: HasPrefix_def TrimPrefix_def prefix_def)

text \<open>The loop over the annotations only looks at one of them, so the order does not matter.\<close>

lemma annotation_context_eq:
  assumes "gomap_ok m"
  shows "annotation_context U ctxt m =
    (case map_of m ''csi-rclone/umask'' of
       None \<Rightarrow> Inr ctxt
     | Some v \<Rightarrow> if ParseUint_8_32 v = None
                 then Inl (Status InvalidArgument
                   (''annotation csi-rclone/umask '' @ Quote U v @ '' is not an octal number''))
                 else Inr (gset ctxt ''umask'' v))"
  using assms
proof (induction m arbitrary: ctxt)
  case Nil
  show ?case by simp
next
  case (Cons kv m)
  obtain k v where kv: "kv = (k, v)" by (cases kv)
  have key: "HasPrefix k ''csi-rclone/'' \<and> TrimPrefix k ''csi-rclone/'' = ''umask'' \<longleftrightarrow> k = ''csi-rclone/umask''"
    by (simp add: HasPrefix_TrimPrefix_eq)
  show ?case
  proof (cases "k = ''csi-rclone/umask''")
    case True
    with Cons.prems kv have "map_of m ''csi-rclone/umask'' = None"
      by (auto simp: map_of_eq_None_iff)
    with True kv key Cons show ?thesis by (auto split: option.splits)
  next
    case False
    with kv key Cons show ?thesis by auto
  qed
qed

lemma annotation_context_keeps:
  "annotation_context U ctxt m = Inr ctxt' \<Longrightarrow> map_of ctxt' ''remotePathSuffix'' = map_of ctxt ''remotePathSuffix''"
  by (induction U ctxt m rule: annotation_context.induct)
    (auto simp: gomap_simps split: if_splits option.splits)

lemma parse_octal_bound: "parse_octal n s = Some m \<Longrightarrow> n \<le> 2 ^ 32 - 1 \<Longrightarrow> m \<le> 2 ^ 32 - 1"
  by (induction n s rule: parse_octal.induct) (auto simp: Let_def split: if_splits)

lemma CreateVolume_Inr:
  assumes "CreateVolume U client req = Inr v" and "gget (cv_parameters req) ''sharedRemote'' \<noteq> ''true''"
  shows "validatePathPatternIsolation U (gget (cv_parameters req) ''pathPattern'') = None
    \<and> gget (cv_parameters req) ''csi.storage.k8s.io/pvc/name'' \<noteq> []
    \<and> gget (cv_parameters req) ''csi.storage.k8s.io/pvc/namespace'' \<noteq> []
    \<and> (\<exists>(claim :: pvc) ctxt.
         suffix_context U
           \<lparr>meta_data = [(''name'', gget (cv_parameters req) ''csi.storage.k8s.io/pvc/name''),
                         (''namespace'', gget (cv_parameters req) ''csi.storage.k8s.io/pvc/namespace'')],
            meta_labels = pvc_labels claim, meta_annotations = pvc_annotations claim\<rparr>
           (cv_parameters req) = Inr ctxt
         \<and> annotation_context U ctxt (pvc_annotations claim) = Inr (vol_context v))"
proof -
  let ?name = "gget (cv_parameters req) ''csi.storage.k8s.io/pvc/name''"
  let ?ns = "gget (cv_parameters req) ''csi.storage.k8s.io/pvc/namespace''"
  note unfold = CreateVolume_def Let_def
  have caps: "validateCapabilities (cv_name req) (cv_capabilities req) = None"
    and iso: "validatePathPatternIsolation U (gget (cv_parameters req) ''pathPattern'') = None"
    and names: "?name \<noteq> []" "?ns \<noteq> []"
    using assms by (auto simp: unfold split: option.splits if_splits)
  obtain claim where claim: "getPVC client ?name ?ns = Inr claim"
    using assms caps iso names by (cases "getPVC client ?name ?ns") (simp_all add: unfold)
  let ?meta = "\<lparr>meta_data = [(''name'', ?name), (''namespace'', ?ns)],
    meta_labels = pvc_labels claim, meta_annotations = pvc_annotations claim\<rparr> :: pvcMetadata"
  obtain ctxt where ctxt: "suffix_context U ?meta (cv_parameters req) = Inr ctxt"
    using assms caps iso names claim
    by (cases "suffix_context U ?meta (cv_parameters req)") (simp_all add: unfold)
  have "annotation_context U ctxt (pvc_annotations claim) = Inr (vol_context v)"
    using assms caps iso names claim ctxt by (auto simp: unfold split: sum.splits)
  with iso names ctxt show ?thesis by blast
qed

lemma suffix_context_shape:
  assumes "suffix_context U meta ps = Inr ctxt"
  shows "ctxt = [] \<or> (\<exists>s. ctxt = [(''remotePathSuffix'', s)] \<and> prefix ''/'' s \<and> no_dot_segments s)"
proof -
  let ?x = "stringParser meta (gget ps ''pathPattern'')"
  have "ctxt = [] \<or> ?x \<noteq> []"
    using assms by (auto simp: suffix_context_def gget_def Let_def split: option.splits if_splits)
  then show ?thesis using suffix_context_Inr [OF assms refl] by blast
qed

text \<open>What the annotation loop adds to a context that has the two keys only.\<close>

definition context_ok :: "string gomap \<Rightarrow> bool" where
  "context_ok ctxt \<longleftrightarrow> fst ` set ctxt \<subseteq> {''remotePathSuffix'', ''umask''}
    \<and> (case map_of ctxt ''remotePathSuffix'' of None \<Rightarrow> True
         | Some s \<Rightarrow> prefix ''/'' s \<and> no_dot_segments s)
    \<and> (case map_of ctxt ''umask'' of None \<Rightarrow> True
         | Some m \<Rightarrow> \<exists>n. ParseUint_8_32 m = Some n \<and> n < 2 ^ 32)"

lemma ParseUint_bound: "ParseUint_8_32 s = Some n \<Longrightarrow> n < 2 ^ 32"
  using parse_octal_bound [of 0 s n] by (auto simp: ParseUint_8_32_def split: if_splits)

lemma context_ok_umask:
  assumes "context_ok ctxt" and "ParseUint_8_32 v = Some n"
  shows "context_ok (gset ctxt ''umask'' v)"
  using assms ParseUint_bound [OF assms(2)]
  by (auto simp: context_ok_def gomap_simps dom_map_of_conv_image_fst [symmetric])

lemma annotation_context_shape:
  "annotation_context U ctxt m = Inr ctxt' \<Longrightarrow> context_ok ctxt \<Longrightarrow> context_ok ctxt'"
  by (induction U ctxt m rule: annotation_context.induct)
    (auto intro: context_ok_umask split: if_splits option.splits)

section \<open>Properties\<close>

text \<open>A Kubernetes namespace is a DNS label: lower case letters, digits and dashes.\<close>

definition label_chars :: string where
  "label_chars = ''abcdefghijklmnopqrstuvwxyz0123456789-''"

definition dns_label :: "string \<Rightarrow> bool" where
  "dns_label s \<longleftrightarrow> s \<noteq> [] \<and> list_all (\<lambda>c. c \<in> set label_chars) s"

lemma dns_labelD: "dns_label s \<Longrightarrow> s \<noteq> [] \<and> CHR ''$'' \<notin> set s \<and> CHR ''/'' \<notin> set s"
proof -
  have "CHR ''$'' \<notin> set label_chars" "CHR ''/'' \<notin> set label_chars"
    by (simp_all add: label_chars_def)
  then show "dns_label s \<Longrightarrow> ?thesis" by (auto simp: dns_label_def list_all_iff)
qed

text \<open>The suffix of a volume that an unshared StorageClass provisions.\<close>

lemma CreateVolume_suffix:
  assumes ok: "CreateVolume U client req = Inr v"
    and unshared: "gget (cv_parameters req) ''sharedRemote'' \<noteq> ''true''"
    and pat: "gget (cv_parameters req) ''pathPattern'' = pat"
    and ns: "gget (cv_parameters req) ''csi.storage.k8s.io/pvc/namespace'' = ns" "dns_label ns"
  shows "\<exists>i s t. Index pat namespacePlaceholder = Some i
    \<and> map_of (vol_context v) ''remotePathSuffix'' = Some s \<and> prefix ''/'' s
    \<and> path_segments s = path_segments (take i pat) @ ns # t
    \<and> no_dot_segments s"
proof -
  let ?name = "gget (cv_parameters req) ''csi.storage.k8s.io/pvc/name''"
  from CreateVolume_Inr [OF ok unshared] pat ns(1) obtain claim :: pvc and ctxt where
    iso: "validatePathPatternIsolation U pat = None" and
    sc: "suffix_context U \<lparr>meta_data = [(''name'', ?name), (''namespace'', ns)],
           meta_labels = pvc_labels claim, meta_annotations = pvc_annotations claim\<rparr>
           (cv_parameters req) = Inr ctxt" (is "suffix_context U ?meta _ = _") and
    ac: "annotation_context U ctxt (pvc_annotations claim) = Inr (vol_context v)"
    by blast
  from validatePathPatternIsolation_None [OF iso] obtain i where i: "Index pat namespacePlaceholder = Some i"
    by blast
  from expansion_segments [OF iso i, of ?meta ns] dns_labelD [OF ns(2)] obtain t where
    t: "path_segments (stringParser ?meta pat) = path_segments (take i pat) @ ns # t"
    by (auto simp: gget_def)
  then have "stringParser ?meta pat \<noteq> []" by auto
  from suffix_context_Inr [OF sc pat this] obtain s where s: "ctxt = [(''remotePathSuffix'', s)]"
    "prefix ''/'' s" "path_segments s = path_segments (stringParser ?meta pat)"
    "no_dot_segments s" by blast
  have "map_of (vol_context v) ''remotePathSuffix'' = Some s"
    using annotation_context_keeps [OF ac] s(1) by simp
  with i s t show ?thesis by metis
qed

text \<open>
  Claim C1. Two volumes that a StorageClass provisions without sharing the remote, for claims in
  different namespaces, never get the same remote path or one inside the other, whatever
  their names, labels and annotations: the segments of neither suffix begin the other's, and
  neither has a segment \<open>.\<close> or \<open>..\<close> that could lead out of it.
\<close>

theorem CreateVolume_namespaces_disjoint:
  assumes "CreateVolume U client1 req1 = Inr v1" and "CreateVolume U client2 req2 = Inr v2"
    and "gget (cv_parameters req1) ''pathPattern'' = gget (cv_parameters req2) ''pathPattern''"
    and "gget (cv_parameters req1) ''sharedRemote'' \<noteq> ''true''"
    and "gget (cv_parameters req2) ''sharedRemote'' \<noteq> ''true''"
    and "gget (cv_parameters req1) ''csi.storage.k8s.io/pvc/namespace'' = ns1"
    and "gget (cv_parameters req2) ''csi.storage.k8s.io/pvc/namespace'' = ns2"
    and "dns_label ns1" "dns_label ns2" "ns1 \<noteq> ns2"
  shows "\<exists>s1 s2. map_of (vol_context v1) ''remotePathSuffix'' = Some s1
    \<and> map_of (vol_context v2) ''remotePathSuffix'' = Some s2
    \<and> \<not> prefix (path_segments s1) (path_segments s2) \<and> \<not> prefix (path_segments s2) (path_segments s1)
    \<and> no_dot_segments s1 \<and> no_dot_segments s2"
proof -
  from CreateVolume_suffix [OF assms(1,4) refl assms(6,8)] obtain i s1 t1 where 1:
    "Index (gget (cv_parameters req1) ''pathPattern'') namespacePlaceholder = Some i"
    "map_of (vol_context v1) ''remotePathSuffix'' = Some s1"
    "path_segments s1 = path_segments (take i (gget (cv_parameters req1) ''pathPattern'')) @ ns1 # t1"
    "no_dot_segments s1" by metis
  from CreateVolume_suffix [OF assms(2,5) assms(3) [symmetric] assms(7,9)] 1(1) obtain s2 t2 where 2:
    "map_of (vol_context v2) ''remotePathSuffix'' = Some s2"
    "path_segments s2 = path_segments (take i (gget (cv_parameters req1) ''pathPattern'')) @ ns2 # t2"
    "no_dot_segments s2" by auto
  have "\<not> prefix (path_segments s1) (path_segments s2)" "\<not> prefix (path_segments s2) (path_segments s1)"
    using 1(3) 2(2) assms(10) by simp_all
  with 1(2,4) 2(1,3) show ?thesis by metis
qed

definition example_request :: "string \<Rightarrow> create_volume_request" where
  "example_request ns = \<lparr>cv_name = ''pvc-1'',
     cv_capabilities = [\<lparr>cap_mode = MULTI_NODE_MULTI_WRITER, cap_type = MountVolume []\<rparr>],
     cv_required_bytes = 0,
     cv_parameters = [(''pathPattern'', ''k8s/${.PVC.namespace}/${.PVC.annotations.csi-rclone/storage-path}''),
       (''csi.storage.k8s.io/pvc/name'', ''data''), (''csi.storage.k8s.io/pvc/namespace'', ns)]\<rparr>"

definition example_client :: pvc_client where
  "example_client ns name = Inr \<lparr>pvc_labels = [],
     pvc_annotations = [(''csi-rclone/storage-path'', ''tenant-b''), (''csi-rclone/umask'', ''022'')]\<rparr>"

lemma CreateVolume_example:
  "CreateVolume plain_unicode (Inr example_client) (example_request ''tenant-a'') =
     Inr \<lparr>vol_id = ''pvc-1'', vol_capacity = 0,
          vol_context = [(''remotePathSuffix'', ''/k8s/tenant-a/tenant-b''), (''umask'', ''022'')]\<rparr>"
  by code_simp

theorem CreateVolume_namespaces_disjoint_witness:
  "\<exists>v1 v2 s1 s2. CreateVolume plain_unicode (Inr example_client) (example_request ''tenant-a'') = Inr v1
    \<and> CreateVolume plain_unicode (Inr example_client) (example_request ''tenant-b'') = Inr v2
    \<and> map_of (vol_context v1) ''remotePathSuffix'' = Some s1
    \<and> map_of (vol_context v2) ''remotePathSuffix'' = Some s2
    \<and> \<not> prefix (path_segments s1) (path_segments s2) \<and> \<not> prefix (path_segments s2) (path_segments s1)"
proof -
  let ?v = "\<lparr>vol_id = ''pvc-1'', vol_capacity = 0,
    vol_context = [(''remotePathSuffix'', ''/k8s/tenant-b/tenant-b''), (''umask'', ''022'')]\<rparr>"
  have b: "CreateVolume plain_unicode (Inr example_client) (example_request ''tenant-b'') = Inr ?v"
    by code_simp
  have "gget (cv_parameters (example_request ''tenant-a'')) ''pathPattern'' =
          gget (cv_parameters (example_request ''tenant-b'')) ''pathPattern''"
    by (simp add: example_request_def gget_def)
  moreover have "gget (cv_parameters (example_request ns)) ''sharedRemote'' \<noteq> ''true''"
    and "gget (cv_parameters (example_request ns)) ''csi.storage.k8s.io/pvc/namespace'' = ns" for ns
    by (simp_all add: example_request_def gget_def)
  moreover have "dns_label ''tenant-a''" "dns_label ''tenant-b''" by code_simp+
  ultimately show ?thesis
    using CreateVolume_namespaces_disjoint [OF CreateVolume_example b] CreateVolume_example b by fastforce
qed

lemma Index_no_open: "no_open a \<Longrightarrow> Index (a @ namespacePlaceholder @ r) namespacePlaceholder = Some (length a)"
proof (induction a)
  case Nil
  show ?case by (simp add: namespacePlaceholder_def)
next
  case (Cons c cs)
  from no_open_head [OF Cons.prems] have "\<not> prefix namespacePlaceholder (c # cs @ namespacePlaceholder @ r)"
    by (simp add: namespacePlaceholder_def)
  with Cons show ?case by simp
qed

text \<open>
  Claim C24. The check of a path pattern accepts exactly the patterns that have the namespace
  placeholder as a whole path segment with only fixed text before it.
\<close>

theorem validatePathPatternIsolation_accepts:
  "validatePathPatternIsolation U pat = None \<longleftrightarrow>
     (\<exists>pre rest. pat = pre @ namespacePlaceholder @ rest \<and> \<not> Contains pre ''${''
        \<and> (pre = [] \<or> HasSuffix pre ''/'') \<and> (rest = [] \<or> HasPrefix rest ''/''))"
    (is "_ \<longleftrightarrow> ?shape")
proof
  assume "validatePathPatternIsolation U pat = None"
  then show ?shape using validatePathPatternIsolation_None by blast
next
  assume ?shape
  then obtain pre rest where pat: "pat = pre @ namespacePlaceholder @ rest"
    and *: "\<not> Contains pre ''${''" "pre = [] \<or> HasSuffix pre ''/''" "rest = [] \<or> HasPrefix rest ''/''"
    by blast
  have "Index pat namespacePlaceholder = Some (length pre)"
    unfolding pat by (rule Index_no_open [OF fixed_prefix_no_open [OF *(1,2)]])
  with pat * show "validatePathPatternIsolation U pat = None"
    by (auto simp: validatePathPatternIsolation_def)
qed

text \<open>
  Claim C25. Whatever the claim's owner puts into labels and annotations, the context of a
  provisioned volume has no other keys than the suffix and the umask; the suffix starts with
  a slash and has no dot segments, and the umask is an octal number of 32 bits. No other
  rclone option can be set through a claim.
\<close>

theorem CreateVolume_context:
  assumes "CreateVolume U client req = Inr v"
  shows "context_ok (vol_context v)"
proof (cases "vol_context v = []")
  case True
  then show ?thesis by (simp add: context_ok_def)
next
  case False
  with assms obtain meta ctxt m where sc: "suffix_context U meta (cv_parameters req) = Inr ctxt"
    and ac: "annotation_context U ctxt m = Inr (vol_context v)"
    by (auto simp: CreateVolume_def Let_def split: option.splits if_splits sum.splits)
  from suffix_context_shape [OF sc] have "context_ok ctxt" by (auto simp: context_ok_def)
  then show ?thesis by (rule annotation_context_shape [OF ac])
qed

theorem CreateVolume_context_witness:
  "\<exists>v. CreateVolume plain_unicode (Inr example_client) (example_request ''tenant-a'') = Inr v
     \<and> context_ok (vol_context v) \<and> map_of (vol_context v) ''umask'' = Some ''022''"
  using CreateVolume_context [OF CreateVolume_example] CreateVolume_example by simp

text \<open>Two claims with the same labels and annotations, which a loop may visit in another order.\<close>

definition same_claim :: "pvc \<Rightarrow> pvc \<Rightarrow> bool" where
  "same_claim c d \<longleftrightarrow> gomap_ok (pvc_annotations c) \<and> gomap_ok (pvc_annotations d)
     \<and> map_of (pvc_labels c) = map_of (pvc_labels d)
     \<and> map_of (pvc_annotations c) = map_of (pvc_annotations d)"

lemma stringParser_same_claim:
  assumes "same_claim c d"
  shows "stringParser \<lparr>meta_data = dat, meta_labels = pvc_labels c, meta_annotations = pvc_annotations c\<rparr> =
         stringParser \<lparr>meta_data = dat, meta_labels = pvc_labels d, meta_annotations = pvc_annotations d\<rparr>"
proof -
  let ?m = "\<lambda>c :: pvc. \<lparr>meta_data = dat, meta_labels = pvc_labels c, meta_annotations = pvc_annotations c\<rparr>"
  have "expand_one (?m c) = expand_one (?m d)"
    using assms by (simp add: fun_eq_iff expand_one_def gget_def same_claim_def)
  then show ?thesis by (intro ext) (simp add: stringParser_def)
qed

text \<open>
  Claim C29. The answer to CreateVolume, error or volume, does not depend on the order in which
  Go's loop visits the claim's annotations.
\<close>

theorem CreateVolume_order_independent:
  assumes "\<And>ns name. rel_sum (=) same_claim (client1 ns name) (client2 ns name)"
  shows "CreateVolume U (Inr client1) req = CreateVolume U (Inr client2) req"
proof -
  let ?ns = "gget (cv_parameters req) ''csi.storage.k8s.io/pvc/namespace''"
  let ?name = "gget (cv_parameters req) ''csi.storage.k8s.io/pvc/name''"
  show ?thesis
  proof (cases "client1 ?ns ?name")
    case (Inl e)
    with assms [of ?ns ?name] have "client2 ?ns ?name = Inl e" by (auto elim: rel_sum.cases)
    with Inl show ?thesis by (simp add: CreateVolume_def getPVC_def Let_def split: option.split)
  next
    case (Inr c)
    with assms [of ?ns ?name] obtain d where d: "client2 ?ns ?name = Inr d" "same_claim c d"
      by (auto elim: rel_sum.cases)
    have "annotation_context U ctxt (pvc_annotations c) = annotation_context U ctxt (pvc_annotations d)" for ctxt
      using d(2) by (simp add: annotation_context_eq same_claim_def)
    with Inr d(1) show ?thesis
      by (simp add: CreateVolume_def getPVC_def suffix_context_def Let_def stringParser_same_claim [OF d(2)]
        split: option.split)
  qed
qed

theorem CreateVolume_order_independent_witness:
  "CreateVolume plain_unicode (Inr example_client) (example_request ''tenant-a'') =
   CreateVolume plain_unicode
     (Inr (\<lambda>ns name. Inr \<lparr>pvc_labels = [],
        pvc_annotations = [(''csi-rclone/umask'', ''022''), (''csi-rclone/storage-path'', ''tenant-b'')]\<rparr>))
     (example_request ''tenant-a'')"
  by (rule CreateVolume_order_independent) (simp add: example_client_def same_claim_def fun_eq_iff)

text \<open>
  Claim C30. A StorageClass that neither shares its remote nor separates namespaces provisions
  nothing: the request fails with InvalidArgument, and the API server is not asked.
\<close>

theorem CreateVolume_unseparated_refused:
  assumes "cv_name req \<noteq> []" and "cv_capabilities req \<noteq> []"
    and "gget (cv_parameters req) ''sharedRemote'' \<noteq> ''true''"
    and "\<nexists>pre rest. gget (cv_parameters req) ''pathPattern'' = pre @ namespacePlaceholder @ rest
           \<and> \<not> Contains pre ''${'' \<and> (pre = [] \<or> HasSuffix pre ''/'') \<and> (rest = [] \<or> HasPrefix rest ''/'')"
  shows "\<exists>m. \<forall>client. CreateVolume U client req = Inl (Status InvalidArgument m)"
proof -
  let ?pat = "gget (cv_parameters req) ''pathPattern''"
  have "validatePathPatternIsolation U ?pat \<noteq> None"
    using assms(4) validatePathPatternIsolation_None by blast
  then obtain m where "validatePathPatternIsolation U ?pat = Some (Status InvalidArgument m)"
    by (auto simp: validatePathPatternIsolation_def Let_def split: if_splits)
  with assms(1-3) show ?thesis
    by (intro exI [of _ m]) (simp add: CreateVolume_def validateCapabilities_def Let_def)
qed

theorem CreateVolume_unseparated_refused_witness:
  "\<exists>m. \<forall>client. CreateVolume plain_unicode client
     \<lparr>cv_name = ''pvc-1'', cv_capabilities = [\<lparr>cap_mode = MULTI_NODE_MULTI_WRITER, cap_type = MountVolume []\<rparr>],
      cv_required_bytes = 0, cv_parameters = [(''pathPattern'', ''${.PVC.name}'')]\<rparr> = Inl (Status InvalidArgument m)"
proof (rule CreateVolume_unseparated_refused)
  have "\<not> Contains ''${.PVC.name}'' namespacePlaceholder" by code_simp
  then show "\<nexists>pre rest. gget (cv_parameters
      \<lparr>cv_name = ''pvc-1'', cv_capabilities = [\<lparr>cap_mode = MULTI_NODE_MULTI_WRITER, cap_type = MountVolume []\<rparr>],
      cv_required_bytes = 0, cv_parameters = [(''pathPattern'', ''${.PVC.name}'')]\<rparr>) ''pathPattern'' =
        pre @ namespacePlaceholder @ rest
      \<and> \<not> Contains pre ''${'' \<and> (pre = [] \<or> HasSuffix pre ''/'') \<and> (rest = [] \<or> HasPrefix rest ''/'')"
    by (auto simp: gget_def Contains_iff)
qed (simp_all add: gget_def)

end
