(* ===== verification/Config.thy ===== *)
theory Config
  imports Go_Strings "HOL-Library.Word"
begin

text \<open>
  The package variables that the command line sets before the driver starts
  (\<^verbatim>\<open>cmd/csi-rclone-plugin/main.go\<close>), as one record that the operations take as their first
  argument, together with the parts of Go's library that are parameters: the Unicode tables
  and the parse of IP literals in URLs.
\<close>

record config =
  UnrestrictedOptions :: bool
  AllowedBackends :: "string list"
  AllowedEndpoints :: "string list"
  ReuseMounts :: bool
  StateDir :: string
  DaemonLifetime :: string
  ScopeMemoryMax :: "64 word"
  ScopeTasksMax :: "64 word"
  go_unicode :: unicode
  go_ip_host :: "string \<Rightarrow> string option"

text \<open>The values the variables have when no flag is given.\<close>

definition default_config :: "unicode \<Rightarrow> (string \<Rightarrow> string option) \<Rightarrow> config" where
  "default_config U ip = \<lparr>UnrestrictedOptions = False, AllowedBackends = [], AllowedEndpoints = [],
     ReuseMounts = True, StateDir = ''/var/lib/csi-rclone'', DaemonLifetime = ''auto'', ScopeMemoryMax = 0, ScopeTasksMax = 0,
     go_unicode = U, go_ip_host = ip\<rparr>"

text \<open>The settings of the examples.\<close>

definition plain_config :: config where
  "plain_config = default_config plain_unicode (\<lambda>_. None)"

end
