(* ===== verification/Go_Net.thy ===== *)
theory Go_Net
  imports Go_Strings
begin

text \<open>
  \<^verbatim>\<open>url.Parse\<close>, as far as the host of a URL and the success of the parse go, \<^verbatim>\<open>URL.Hostname\<close> and
  \<^verbatim>\<open>net.SplitHostPort\<close>. A host that is an IP literal in brackets, or that has several colons, is
  treated differently by different Go releases: its parse is a parameter \<open>ip\<close>, which gives
  the host or \<open>None\<close> for an error.
\<close>

fun last_index :: "string \<Rightarrow> char \<Rightarrow> nat option" where
  "last_index [] d = None"
| "last_index (c # cs) d =
     (case last_index cs d of Some i \<Rightarrow> Some (Suc i) | None \<Rightarrow> if c = d then Some 0 else None)"

section \<open>net.SplitHostPort\<close>

text \<open>The host of an address with a port, \<open>None\<close> for an error.\<close>

definition SplitHostPort :: "string \<Rightarrow> string option" where
  "SplitHostPort hostport =
     (case last_index hostport (CHR '':'') of
        None \<Rightarrow> None
      | Some i \<Rightarrow>
          if prefix ''['' hostport
          then (case Index hostport '']'' of
                  None \<Rightarrow> None
                | Some e \<Rightarrow>
                    if Suc e \<noteq> i \<or> CHR ''['' \<in> set (drop 1 hostport) \<or> CHR '']'' \<in> set (drop (Suc e) hostport)
                    then None
                    else Some (take (e - 1) (drop 1 hostport)))
          else if CHR '':'' \<in> set (take i hostport) \<or> CHR ''['' \<in> set hostport \<or> CHR '']'' \<in> set hostport
          then None
          else Some (take i hostport))"

section \<open>url.Parse\<close>

definition in_range :: "char \<Rightarrow> char \<Rightarrow> char \<Rightarrow> bool" where
  "in_range lo hi c \<longleftrightarrow> code_of lo \<le> code_of c \<and> code_of c \<le> code_of hi"

definition is_letter :: "char \<Rightarrow> bool" where
  "is_letter c \<longleftrightarrow> in_range (CHR ''a'') (CHR ''z'') c \<or> in_range (CHR ''A'') (CHR ''Z'') c"

definition is_digit :: "char \<Rightarrow> bool" where
  "is_digit c \<longleftrightarrow> in_range (CHR ''0'') (CHR ''9'') c"

definition is_hex :: "char \<Rightarrow> bool" where
  "is_hex c \<longleftrightarrow> is_digit c \<or> in_range (CHR ''a'') (CHR ''f'') c \<or> in_range (CHR ''A'') (CHR ''F'') c"

definition hex_value :: "char \<Rightarrow> nat" where
  "hex_value c = (if is_digit c then code_of c - 48
                  else if in_range (CHR ''a'') (CHR ''f'') c then code_of c - 87 else code_of c - 55)"

text \<open>
  The scheme and what follows it. \<open>seen\<close> is the text before the current byte; a byte that
  cannot be in a scheme, or a scheme that would start with a digit or sign, means that there
  is none. A colon at the start is an error.
\<close>

fun get_scheme :: "string \<Rightarrow> string \<Rightarrow> string \<Rightarrow> (string \<times> string) option" where
  "get_scheme raw seen [] = Some ([], raw)"
| "get_scheme raw seen (c # cs) =
     (if is_letter c then get_scheme raw (seen @ [c]) cs
      else if is_digit c \<or> c \<in> set ''+-.''
      then (if seen = [] then Some ([], raw) else get_scheme raw (seen @ [c]) cs)
      else if c = CHR '':'' then (if seen = [] then None else Some (seen, cs))
      else Some ([], raw))"

text \<open>Every percent sign starts an escape of two hexadecimal digits.\<close>

fun escapes_ok :: "string \<Rightarrow> bool" where
  "escapes_ok (c # cs) =
     (if c = CHR ''%''
      then (case cs of a # b # rest \<Rightarrow> is_hex a \<and> is_hex b \<and> escapes_ok rest | _ \<Rightarrow> False)
      else escapes_ok cs)"
| "escapes_ok [] = True"

definition host_byte_ok :: "char \<Rightarrow> bool" where
  "host_byte_ok c \<longleftrightarrow> code_of c \<ge> 128 \<or> is_letter c \<or> is_digit c
     \<or> c \<in> set ''-_.~!$&()*+,;=:[]<>'' \<or> code_of c = 39 \<or> code_of c = 34"

text \<open>\<^verbatim>\<open>unescape(host, encodeHost)\<close>: only the percent sign itself and bytes beyond ASCII may be escaped.\<close>

fun unescape_host :: "string \<Rightarrow> string option" where
  "unescape_host (c # cs) =
     (if c = CHR ''%''
      then (case cs of
              a # b # rest \<Rightarrow>
                if is_hex a \<and> is_hex b \<and> (hex_value a \<ge> 8 \<or> (a = CHR ''2'' \<and> b = CHR ''5''))
                then map_option (Cons (char_of (16 * hex_value a + hex_value b))) (unescape_host rest)
                else None
            | _ \<Rightarrow> None)
      else if host_byte_ok c then map_option (Cons c) (unescape_host cs) else None)"
| "unescape_host [] = Some []"

definition userinfo_ok :: "string \<Rightarrow> bool" where
  "userinfo_ok s \<longleftrightarrow>
     list_all (\<lambda>c. is_letter c \<or> is_digit c \<or> c \<in> set ''-._:~!$&()*+,;=%@'' \<or> code_of c = 39) s \<and> escapes_ok s"

definition parse_host :: "(string \<Rightarrow> string option) \<Rightarrow> string \<Rightarrow> string option" where
  "parse_host ip host =
     (if CHR ''['' \<in> set host \<or> count_list host (CHR '':'') > 1 then ip host
      else (case last_index host (CHR '':'') of
              Some i \<Rightarrow> if list_all is_digit (drop (Suc i) host) then unescape_host host else None
            | None \<Rightarrow> unescape_host host))"

definition parse_authority :: "(string \<Rightarrow> string option) \<Rightarrow> string \<Rightarrow> string option" where
  "parse_authority ip authority =
     (case last_index authority (CHR ''@'') of
        None \<Rightarrow> parse_host ip authority
      | Some i \<Rightarrow>
          (case parse_host ip (drop (Suc i) authority) of
             None \<Rightarrow> None
           | Some host \<Rightarrow> if userinfo_ok (take i authority) then Some host else None))"

text \<open>The field \<^verbatim>\<open>Host\<close> of the parsed URL, \<open>None\<close> for an error.\<close>

definition url_Parse :: "(string \<Rightarrow> string option) \<Rightarrow> string \<Rightarrow> string option" where
  "url_Parse ip rawURL =
     (let (u, frag, _) = Cut rawURL ''#''
      in if list_ex (\<lambda>c. code_of c < 32 \<or> code_of c = 127) u then None
         else if \<not> escapes_ok frag then None
         else if u = ''*'' then Some []
         else (case get_scheme u [] u of
                 None \<Rightarrow> None
               | Some (scheme, rest0) \<Rightarrow>
                   let rest = fst (Cut rest0 ''?'')
                   in if \<not> HasPrefix rest ''/'' \<and> scheme \<noteq> [] then Some []
                      else if \<not> HasPrefix rest ''/'' \<and> Contains (fst (Cut rest ''/'')) '':'' then None
                      else if (scheme \<noteq> [] \<or> \<not> HasPrefix rest ''///'') \<and> HasPrefix rest ''//''
                      then let rest2 = drop 2 rest;
                               i = (case Index rest2 ''/'' of Some i \<Rightarrow> i | None \<Rightarrow> length rest2)
                           in (case parse_authority ip (take i rest2) of
                                 None \<Rightarrow> None
                               | Some host \<Rightarrow> if escapes_ok (drop i rest2) then Some host else None)
                      else if escapes_ok rest then Some [] else None))"

text \<open>\<^verbatim>\<open>URL.Hostname\<close>: the host without a port and without brackets.\<close>

definition url_Hostname :: "string \<Rightarrow> string" where
  "url_Hostname hostPort =
     (let host = (case last_index hostPort (CHR '':'') of
                    Some i \<Rightarrow> if list_all is_digit (drop (Suc i) hostPort) then take i hostPort else hostPort
                  | None \<Rightarrow> hostPort)
      in if HasPrefix host ''['' \<and> HasSuffix host '']'' then take (length host - 2) (drop 1 host) else host)"

end
