(* ===== verification/Options_Table.thy ===== *)
theory Options_Table
  imports Prelude
begin

text \<open>
  The options of each backend that volumes may set: \<^verbatim>\<open>pkg/rclone/options_gen.go\<close>, which
  \<^verbatim>\<open>hack/gen-options\<close> writes from the output of rclone. A schema is the prefix of the backend's
  flags and its set of options, here as the list the source has.
\<close>

record backendSchema =
  bs_prefix :: string
  bs_options :: "string list"

definition schema_s3 :: backendSchema where
  "schema_s3 = \<lparr>bs_prefix = ''s3'', bs_options =
    [''access_key_id'', ''acl'', ''bucket_acl'', ''bucket_object_lock_enabled'',
     ''bypass_governance_retention'', ''chunk_size'', ''copy_cutoff'', ''decompress'',
     ''description'', ''directory_bucket'', ''directory_markers'', ''disable_checksum'',
     ''disable_http2'', ''download_url'', ''encoding'', ''endpoint'', ''force_path_style'',
     ''ibm_api_key'', ''ibm_resource_instance_id'', ''leave_parts_on_error'', ''list_chunk'',
     ''list_url_encode'', ''list_version'', ''list_versions_oldest_first'',
     ''location_constraint'', ''max_upload_parts'', ''memory_pool_flush_time'',
     ''memory_pool_use_mmap'', ''might_gzip'', ''no_check_bucket'', ''no_head'',
     ''no_head_object'', ''no_system_metadata'', ''object_lock_legal_hold_status'',
     ''object_lock_mode'', ''object_lock_retain_until_date'',
     ''object_lock_set_after_upload'', ''object_lock_supported'', ''provider'', ''region'',
     ''requester_pays'', ''secret_access_key'', ''server_side_encryption'', ''session_token'',
     ''sign_accept_encoding'', ''sse_customer_algorithm'', ''sse_customer_key'',
     ''sse_customer_key_base64'', ''sse_customer_key_md5'', ''sse_kms_key_id'',
     ''storage_class'', ''upload_concurrency'', ''upload_cutoff'',
     ''use_accelerate_endpoint'', ''use_accept_encoding_gzip'', ''use_already_exists'',
     ''use_arn_region'', ''use_data_integrity_protections'', ''use_dual_stack'',
     ''use_multipart_etag'', ''use_multipart_uploads'', ''use_presigned_request'',
     ''use_unsigned_payload'', ''use_x_id'', ''v2_auth'', ''version_at'', ''version_deleted'',
     ''versions'']\<rparr>"

definition schema_gcs :: backendSchema where
  "schema_gcs = \<lparr>bs_prefix = ''gcs'', bs_options =
    [''access_token'', ''anonymous'', ''bucket_acl'', ''bucket_policy_only'',
     ''client_credentials'', ''client_id'', ''client_secret'', ''decompress'',
     ''description'', ''directory_markers'', ''encoding'', ''endpoint'', ''location'',
     ''no_check_bucket'', ''object_acl'', ''project_number'', ''service_account_credentials'',
     ''storage_class'', ''token'', ''user_project'']\<rparr>"

definition schema_azureblob :: backendSchema where
  "schema_azureblob = \<lparr>bs_prefix = ''azureblob'', bs_options =
    [''access_tier'', ''account'', ''archive_tier_delete'', ''chunk_size'',
     ''client_certificate_password'', ''client_id'', ''client_secret'',
     ''client_send_certificate_chain'', ''copy_concurrency'', ''copy_cutoff'',
     ''copy_total_concurrency'', ''decompress'', ''delete_snapshots'', ''description'',
     ''directory_markers'', ''disable_checksum'', ''disable_instance_discovery'',
     ''encoding'', ''endpoint'', ''key'', ''list_chunk'', ''list_parallelism'',
     ''memory_pool_flush_time'', ''memory_pool_use_mmap'', ''no_check_container'',
     ''no_head_object'', ''password'', ''public_access'', ''sas_url'', ''tenant'',
     ''upload_concurrency'', ''upload_cutoff'', ''use_arrow_list'', ''use_copy_blob'',
     ''username'']\<rparr>"

definition schema_b2 :: backendSchema where
  "schema_b2 = \<lparr>bs_prefix = ''b2'', bs_options =
    [''account'', ''chunk_size'', ''copy_cutoff'', ''description'', ''disable_checksum'',
     ''download_auth_duration'', ''download_url'', ''encoding'', ''endpoint'',
     ''hard_delete'', ''key'', ''lifecycle'', ''memory_pool_flush_time'',
     ''memory_pool_use_mmap'', ''sse_customer_algorithm'', ''sse_customer_key'',
     ''sse_customer_key_base64'', ''sse_customer_key_md5'', ''test_mode'',
     ''upload_concurrency'', ''upload_cutoff'', ''version_at'', ''versions'']\<rparr>"

definition schema_swift :: backendSchema where
  "schema_swift = \<lparr>bs_prefix = ''swift'', bs_options =
    [''application_credential_id'', ''application_credential_name'',
     ''application_credential_secret'', ''auth'', ''auth_token'', ''auth_version'',
     ''chunk_size'', ''description'', ''domain'', ''encoding'', ''endpoint_type'',
     ''fetch_until_empty_page'', ''key'', ''leave_parts_on_error'', ''no_chunk'',
     ''no_large_objects'', ''partial_page_fetch_threshold'', ''region'', ''storage_policy'',
     ''storage_url'', ''tenant'', ''tenant_domain'', ''tenant_id'',
     ''use_segments_container'', ''user'', ''user_id'']\<rparr>"

definition schema_webdav :: backendSchema where
  "schema_webdav = \<lparr>bs_prefix = ''webdav'', bs_options =
    [''auth_redirect'', ''bearer_token'', ''description'', ''encoding'', ''headers'',
     ''nextcloud_chunk_size'', ''owncloud_exclude_mounts'', ''owncloud_exclude_shares'',
     ''pacer_min_sleep'', ''pass'', ''url'', ''user'', ''vendor'']\<rparr>"

definition schema_sftp :: backendSchema where
  "schema_sftp = \<lparr>bs_prefix = ''sftp'', bs_options =
    [''ask_password'', ''chunk_size'', ''ciphers'', ''concurrency'', ''connections'',
     ''description'', ''disable_concurrent_reads'', ''disable_concurrent_writes'',
     ''disable_hashcheck'', ''encoding'', ''hashes'', ''host'', ''host_key_algorithms'',
     ''host_keys'', ''idle_timeout'', ''key_exchange'', ''key_file_pass'', ''key_pem'',
     ''macs'', ''pass'', ''pin_host_key'', ''port'', ''pubkey'', ''set_modtime'',
     ''shell_type'', ''skip_links'', ''subsystem'', ''use_fstat'', ''use_insecure_cipher'',
     ''user'']\<rparr>"

definition schema_ftp :: backendSchema where
  "schema_ftp = \<lparr>bs_prefix = ''ftp'', bs_options =
    [''allow_insecure_tls_ciphers'', ''ask_password'', ''close_timeout'', ''concurrency'',
     ''description'', ''disable_epsv'', ''disable_mlsd'', ''disable_tls13'', ''disable_utf8'',
     ''encoding'', ''explicit_tls'', ''force_list_hidden'', ''host'', ''idle_timeout'',
     ''no_check_certificate'', ''no_check_upload'', ''pass'', ''port'', ''shut_timeout'',
     ''tls'', ''tls_cache_size'', ''user'', ''writing_mdtm'']\<rparr>"

definition schema_drive :: backendSchema where
  "schema_drive = \<lparr>bs_prefix = ''drive'', bs_options =
    [''acknowledge_abuse'', ''allow_import_name_change'', ''alternate_export'',
     ''auth_owner_only'', ''chunk_size'', ''client_credentials'', ''client_id'',
     ''client_secret'', ''copy_shortcut_content'', ''description'', ''disable_http2'',
     ''encoding'', ''export_formats'', ''fast_list_bug_fix'', ''formats'', ''impersonate'',
     ''import_formats'', ''keep_revision_forever'', ''list_chunk'',
     ''metadata_enforce_expansive_access'', ''metadata_labels'', ''metadata_owner'',
     ''metadata_permissions'', ''pacer_burst'', ''pacer_min_sleep'', ''resource_key'',
     ''root_folder_id'', ''scope'', ''server_side_across_configs'',
     ''service_account_credentials'', ''shared_with_me'', ''show_all_gdocs'',
     ''size_as_quota'', ''skip_checksum_gphotos'', ''skip_dangling_shortcuts'',
     ''skip_gdocs'', ''skip_shortcuts'', ''starred_only'', ''stop_on_download_limit'',
     ''stop_on_upload_limit'', ''team_drive'', ''token'', ''trashed_only'', ''upload_cutoff'',
     ''use_created_date'', ''use_shared_date'', ''use_trash'', ''v2_download_min_size'']\<rparr>"

definition schema_onedrive :: backendSchema where
  "schema_onedrive = \<lparr>bs_prefix = ''onedrive'', bs_options =
    [''access_scopes'', ''av_override'', ''chunk_size'', ''client_credentials'',
     ''client_id'', ''client_secret'', ''delta'', ''description'',
     ''disable_site_permission'', ''drive_id'', ''drive_type'', ''encoding'',
     ''expose_onenote_files'', ''hard_delete'', ''hash_type'', ''link_password'',
     ''link_scope'', ''link_type'', ''list_chunk'', ''metadata_permissions'', ''no_versions'',
     ''region'', ''root_folder_id'', ''server_side_across_configs'', ''tenant'',
     ''tenant_url'', ''token'', ''upload_cutoff'']\<rparr>"

definition schema_dropbox :: backendSchema where
  "schema_dropbox = \<lparr>bs_prefix = ''dropbox'', bs_options =
    [''batch_commit_timeout'', ''batch_mode'', ''batch_size'', ''batch_timeout'',
     ''chunk_size'', ''client_credentials'', ''client_id'', ''client_secret'',
     ''description'', ''encoding'', ''export_formats'', ''impersonate'',
     ''impersonate_admin'', ''pacer_min_sleep'', ''root_namespace'', ''shared_files'',
     ''shared_folders'', ''show_all_exports'', ''skip_exports'', ''skip_shared_folders'',
     ''skip_unowned_folders'', ''token'']\<rparr>"

definition schema_crypt :: backendSchema where
  "schema_crypt = \<lparr>bs_prefix = ''crypt'', bs_options =
    [''description'', ''directory_name_encryption'', ''filename_encoding'',
     ''filename_encryption'', ''no_data_encryption'', ''pass_bad_blocks'', ''password'',
     ''password2'', ''remote'', ''server_side_across_configs'', ''show_mapping'',
     ''strict_names'', ''suffix'']\<rparr>"

definition backendSchemas :: "backendSchema gomap" where
  "backendSchemas =
    [(''s3'', schema_s3),
     (''google cloud storage'', schema_gcs),
     (''azureblob'', schema_azureblob),
     (''b2'', schema_b2),
     (''swift'', schema_swift),
     (''webdav'', schema_webdav),
     (''sftp'', schema_sftp),
     (''ftp'', schema_ftp),
     (''drive'', schema_drive),
     (''onedrive'', schema_onedrive),
     (''dropbox'', schema_dropbox),
     (''crypt'', schema_crypt)]"

end
