(* ===== verification/Options.thy ===== *)
theory Options
  imports Config Go_Net Options_Table "HOL-Library.Multiset"
begin

text \<open>
  The allow-list of rclone options, \<^verbatim>\<open>pkg/rclone/options.go\<close>: the parser of \<^verbatim>\<open>configData\<close> and the
  checks of its sections and of the flags of a volume. Go's sets are lists here, and a loop
  over the table of backends takes it in the order of the list; the lemmas on order show that
  no other order gives another result.
\<close>

section \<open>Sets of strings\<close>

text \<open>
  \<^verbatim>\<open>set\<close>: a Go set of strings is a map to \<^verbatim>\<open>true\<close>, and reading a missing key gives \<^verbatim>\<open>false\<close>. What a
  lookup gives is membership in the list of values, so the tables below are lists of values.
\<close>

definition go_set :: "string list \<Rightarrow> bool gomap" where
  "go_set vals = foldl (\<lambda>m v. gset m v True) [] vals"

lemma go_set_lookup: "map_of (go_set vals) v = Some True \<longleftrightarrow> v \<in> set vals"
proof -
  have "map_of (foldl (\<lambda>m v. gset m v True) m vals) v = Some True \<longleftrightarrow> v \<in> set vals \<or> map_of m v = Some True" for m
    by (induction vals arbitrary: m) (auto simp: gset_look)
  then show ?thesis by (simp add: go_set_def)
qed

section \<open>The tables\<close>

definition mountFlags :: "string list" where
  "mountFlags =
    [''allow-non-empty'', ''allow-other'', ''async-read'', ''attr-timeout'',
     ''default-permissions'', ''dir-cache-time'', ''dir-perms'', ''direct-io'',
     ''file-perms'', ''link-perms'', ''gid'', ''uid'', ''umask'', ''max-read-ahead'',
     ''mount-case-insensitive'', ''no-checksum'', ''no-modtime'', ''no-seek'',
     ''noappledouble'', ''noapplexattr'', ''poll-interval'', ''read-only'', ''volname'',
     ''write-back-cache'', ''vfs-block-norm-dupes'', ''vfs-cache-max-age'',
     ''vfs-cache-max-size'', ''vfs-cache-min-free-space'', ''vfs-cache-mode'',
     ''vfs-cache-poll-interval'', ''vfs-case-insensitive'', ''vfs-disk-space-total-size'',
     ''vfs-fast-fingerprint'', ''vfs-handle-caching'', ''vfs-links'',
     ''vfs-metadata-extension'', ''vfs-read-ahead'', ''vfs-read-chunk-size'',
     ''vfs-read-chunk-size-limit'', ''vfs-read-chunk-streams'', ''vfs-read-wait'',
     ''vfs-refresh'', ''vfs-used-is-size'', ''vfs-write-back'', ''vfs-write-wait'',
     ''exclude'', ''include'', ''filter'', ''ignore-case'', ''max-age'', ''min-age'',
     ''max-size'', ''min-size'', ''max-depth'', ''buffer-size'', ''bwlimit'',
     ''bwlimit-file'', ''checkers'', ''transfers'', ''contimeout'', ''timeout'',
     ''expect-continue-timeout'', ''low-level-retries'', ''retries'', ''retries-sleep'',
     ''tpslimit'', ''tpslimit-burst'', ''use-server-modtime'', ''fast-list'', ''user-agent'',
     ''no-check-certificate'', ''disable-http2'', ''multi-thread-streams'',
     ''multi-thread-cutoff'', ''use-mmap'', ''log-level'', ''stats'', ''stats-log-level'',
     ''cache-info-age'', ''cache-chunk-clean-interval'']"

definition endpointOptions :: "string list" where
  "endpointOptions = [''endpoint'', ''url'', ''host'', ''auth'', ''storage_url'', ''download_url'',
     ''sas_url'', ''tenant_url'']"

definition wrapperOptions :: "string list" where
  "wrapperOptions = [''remote'']"

text \<open>\<^verbatim>\<open>^[\w.+@-][\w.+@ -]*$\<close>; the class \<^verbatim>\<open>\w\<close> is ASCII letters, digits and the underscore.\<close>

definition remote_byte :: "char \<Rightarrow> bool" where
  "remote_byte c \<longleftrightarrow> is_letter c \<or> is_digit c \<or> c \<in> set ''_.+@-''"

fun remoteName :: "string \<Rightarrow> bool" where
  "remoteName [] = False"
| "remoteName (c # cs) = (remote_byte c \<and> list_all (\<lambda>d. remote_byte d \<or> d = CHR '' '') cs)"

section \<open>Backends\<close>

text \<open>\<^verbatim>\<open>backendOf\<close> with the table in the order in which its loop visits it.\<close>

fun backendOf_in :: "config \<Rightarrow> backendSchema gomap \<Rightarrow> string \<Rightarrow> go_error + backendSchema" where
  "backendOf_in C [] backend = Inl (Errorf (''backend '' @ Quote (go_unicode C) backend @ '' is not allowed''))"
| "backendOf_in C ((name, schema) # rest) backend =
     (if backend \<noteq> name \<and> backend \<noteq> bs_prefix schema then backendOf_in C rest backend
      else if AllowedBackends C = [] then Inr schema
      else if list_ex (\<lambda>allowed. allowed = name \<or> allowed = bs_prefix schema) (AllowedBackends C) then Inr schema
      else backendOf_in C rest backend)"

definition backendOf :: "config \<Rightarrow> string \<Rightarrow> go_error + backendSchema" where
  "backendOf C backend = backendOf_in C backendSchemas backend"

section \<open>Option values\<close>

definition endpoint_host :: "config \<Rightarrow> string \<Rightarrow> string" where
  "endpoint_host C val =
     ToLower (go_unicode C)
       (case url_Parse (go_ip_host C) val of
          Some (h # hs) \<Rightarrow> url_Hostname (h # hs)
        | _ \<Rightarrow> (case SplitHostPort val of Some h \<Rightarrow> h | None \<Rightarrow> val))"

definition validateEndpoint :: "config \<Rightarrow> string \<Rightarrow> string \<Rightarrow> go_error option" where
  "validateEndpoint C opt val =
     (if AllowedEndpoints C = [] then None
      else let host = endpoint_host C val
           in if list_ex (\<lambda>allowed. host = allowed \<or> (HasPrefix allowed ''.'' \<and> HasSuffix host allowed))
                   (AllowedEndpoints C)
              then None
              else Some (Errorf (opt @ '' host '' @ Quote (go_unicode C) host @ '' is not in --allowed-endpoints'')))"

type_synonym sections = "string gomap gomap"

definition validateWrappedRemote :: "config \<Rightarrow> string \<Rightarrow> sections \<Rightarrow> go_error option" where
  "validateWrappedRemote C val sections =
     (let (name, _, ok) = Cut (TrimPrefix val '':'') '':'';
          q = Quote (go_unicode C) val
      in if \<not> ok \<or> \<not> remoteName name
         then Some (Errorf (''remote '' @ q @ '' must be a configData remote or :type: followed by a path''))
         else let backend = (if HasPrefix val '':'' then Some name
                             else (case map_of sections name of
                                     None \<Rightarrow> None
                                   | Some section \<Rightarrow> Some (gget section ''type'')))
              in (case backend of
                    None \<Rightarrow> Some (Errorf (''remote '' @ q @ '' refers to '' @ Quote (go_unicode C) name
                                           @ '', which is not in configData''))
                  | Some b \<Rightarrow>
                      (case backendOf C b of
                         Inl e \<Rightarrow> Some (Errorf (''remote '' @ q @ '': '' @ Error e))
                       | Inr schema \<Rightarrow>
                           if list_ex (\<lambda>opt. opt \<in> set (bs_options schema)) wrapperOptions
                           then Some (Errorf (''remote '' @ q @ '' wraps another wrapping remote''))
                           else None)))"

definition validateOption :: "config \<Rightarrow> backendSchema \<Rightarrow> string \<Rightarrow> string \<Rightarrow> sections \<Rightarrow> go_error option" where
  "validateOption C schema opt val sections =
     (if opt \<notin> set (bs_options schema)
      then Some (Errorf (''option '' @ Quote (go_unicode C) opt @ '' is not allowed''))
      else if opt \<in> set wrapperOptions then validateWrappedRemote C val sections
      else if opt \<in> set endpointOptions then validateEndpoint C opt val
      else None)"

section \<open>Flags\<close>

definition flag_name :: "config \<Rightarrow> string \<Rightarrow> string" where
  "flag_name C key = ToLower (go_unicode C) (ReplaceAll (TrimPrefix key ''--'') ''_'' ''-'')"

definition flag_option :: "backendSchema \<Rightarrow> string \<Rightarrow> string" where
  "flag_option schema name = ReplaceAll (TrimPrefix name (bs_prefix schema @ ''-'')) ''-'' ''_''"

fun backend_flag ::
  "config \<Rightarrow> backendSchema gomap \<Rightarrow> string \<Rightarrow> string \<Rightarrow> string \<Rightarrow> sections \<Rightarrow> go_error option" where
  "backend_flag C [] name key val sections =
     Some (Errorf (''rclone option '' @ Quote (go_unicode C) key @ '' is not allowed''))"
| "backend_flag C ((backend, _) # rest) name key val sections =
     (case backendOf C backend of
        Inl _ \<Rightarrow> backend_flag C rest name key val sections
      | Inr schema \<Rightarrow>
          if \<not> HasPrefix name (bs_prefix schema @ ''-'') then backend_flag C rest name key val sections
          else if flag_option schema name \<in> set (bs_options schema)
          then validateOption C schema (flag_option schema name) val sections
          else backend_flag C rest name key val sections)"

definition validateFlag :: "config \<Rightarrow> string \<Rightarrow> string \<Rightarrow> sections \<Rightarrow> go_error option" where
  "validateFlag C key val sections =
     (if flag_name C key \<in> set mountFlags then None
      else backend_flag C backendSchemas (flag_name C key) key val sections)"

section \<open>The rclone configuration file\<close>

text \<open>
  The loop of \<^verbatim>\<open>parseConfig\<close>: \<open>n\<close> is the number of the line, \<open>current\<close> the section whose map
  the source's variable of that name points to.
\<close>

fun parse_lines ::
  "config \<Rightarrow> nat \<Rightarrow> sections \<Rightarrow> string option \<Rightarrow> string list \<Rightarrow> go_error + sections" where
  "parse_lines C n sections current [] = Inr sections"
| "parse_lines C n sections current (raw # rest) =
     (if MaxScanTokenSize \<le> length raw then Inl err_too_long
      else let line = TrimSpace (drop_CR raw); U = go_unicode C
      in if line = [] \<or> HasPrefix line ''#'' \<or> HasPrefix line '';''
      then parse_lines C (Suc n) sections current rest
      else if HasPrefix line ''['' \<and> HasSuffix line '']''
      then let name = TrimSpace (butlast (tl line))
           in if \<not> remoteName name
              then Inl (Status InvalidArgument
                     (''configData line '' @ show_nat n @ '': invalid remote name '' @ Quote U name))
              else if ghas sections name
              then Inl (Status InvalidArgument
                     (''configData line '' @ show_nat n @ '': duplicate remote ['' @ name @ '']''))
              else parse_lines C (Suc n) (gset sections name []) (Some name) rest
      else let (key, val, ok) = Cut line ''=''
           in (case (ok, current) of
                 (True, Some cur) \<Rightarrow>
                   let section = (case map_of sections cur of Some m \<Rightarrow> m | None \<Rightarrow> []);
                       section' = gset section (ToLower U (TrimSpace key)) (TrimSpace val)
                   in parse_lines C (Suc n) (gset sections cur section') current rest
               | _ \<Rightarrow> Inl (Status InvalidArgument
                       (''configData line '' @ show_nat n @ '': expected [remote] or key = value''))))"

definition parseConfig :: "config \<Rightarrow> string \<Rightarrow> go_error + sections" where
  "parseConfig C configData = parse_lines C 1 [] None (raw_lines configData)"

section \<open>All options of a volume\<close>

definition validateSection :: "config \<Rightarrow> sections \<Rightarrow> string \<times> string gomap \<Rightarrow> go_error option" where
  "validateSection C sections ns =
     (let (name, section) = ns
      in case backendOf C (gget section ''type'') of
           Inl e \<Rightarrow> Some (Status InvalidArgument (''configData remote ['' @ name @ '']: '' @ Error e))
         | Inr schema \<Rightarrow>
             first_err (\<lambda>(key, val).
                 if key = ''type'' \<or> key = ''description'' then None
                 else (case validateOption C schema (ReplaceAll key ''-'' ''_'') val sections of
                         Some e \<Rightarrow> Some (Status InvalidArgument
                           (''configData remote ['' @ name @ '']: '' @ Error e))
                       | None \<Rightarrow> None))
               section)"

definition validateOptions :: "config \<Rightarrow> string \<Rightarrow> string \<Rightarrow> string gomap \<Rightarrow> go_error option" where
  "validateOptions C remote configData flags =
     (if UnrestrictedOptions C then None
      else (case parseConfig C configData of
              Inl e \<Rightarrow> Some e
            | Inr sections \<Rightarrow>
                (case first_err (validateSection C sections) sections of
                   Some e \<Rightarrow> Some e
                 | None \<Rightarrow>
                     if \<not> remoteName remote
                     then Some (Status InvalidArgument (''invalid remote '' @ Quote (go_unicode C) remote))
                     else (case (if ghas sections remote then None
                                 else (case backendOf C remote of Inl e \<Rightarrow> Some e | Inr _ \<Rightarrow> None)) of
                             Some e \<Rightarrow> Some (Status InvalidArgument
                               (''remote '' @ Quote (go_unicode C) remote @ '': '' @ Error e))
                           | None \<Rightarrow>
                               first_err (\<lambda>(key, val).
                                   (case validateFlag C key val sections of
                                      Some e \<Rightarrow> Some (Status InvalidArgument (Error e))
                                    | None \<Rightarrow> None))
                                 flags))))"

section \<open>The table of backends\<close>

text \<open>
  A backend is asked for by its name or by the prefix of its flags. No two entries answer to
  the same word, and no prefix has a dash, so a flag belongs to one backend at most.
\<close>

definition names_of :: "string \<times> backendSchema \<Rightarrow> string list" where
  "names_of e = remdups [fst e, bs_prefix (snd e)]"

definition table_ok :: "backendSchema gomap \<Rightarrow> bool" where
  "table_ok S \<longleftrightarrow> distinct (concat (map names_of S))
     \<and> list_all (\<lambda>e. CHR ''-'' \<notin> set (bs_prefix (snd e))) S"

lemma table_ok_backendSchemas: "table_ok backendSchemas"
  by code_simp

definition backend_allowed :: "config \<Rightarrow> string \<times> backendSchema \<Rightarrow> bool" where
  "backend_allowed C e \<longleftrightarrow>
     AllowedBackends C = [] \<or> (\<exists>a\<in>set (AllowedBackends C). a \<in> set (names_of e))"

lemma in_names_of [simp]: "b \<in> set (names_of e) \<longleftrightarrow> b = fst e \<or> b = bs_prefix (snd e)"
  by (auto simp: names_of_def)

lemma table_ok_unique:
  assumes "table_ok S" "e \<in> set S" "e' \<in> set S" "b \<in> set (names_of e)" "b \<in> set (names_of e')"
  shows "e = e'"
proof -
  from assms(1) have "distinct (concat (map names_of S))" by (simp add: table_ok_def)
  then show ?thesis using assms(2-5)
  proof (induction S)
    case Nil
    then show ?case by simp
  next
    case (Cons x S)
    have "names_of x \<noteq> []" for x by (simp add: names_of_def)
    with Cons show ?case by (auto simp del: in_names_of)
  qed
qed

lemma table_ok_mset: "mset S = mset T \<Longrightarrow> table_ok S \<Longrightarrow> table_ok T"
proof -
  assume eq: "mset S = mset T" and ok: "table_ok S"
  from eq have st: "set S = set T" by (rule mset_eq_setD)
  have "mset (concat (map names_of S)) = mset (concat (map names_of T))"
    using eq by (metis mset_concat mset_map sum_mset_sum_list)
  then have "distinct (concat (map names_of T))"
    using ok by (metis mset_eq_imp_distinct_iff table_ok_def)
  with ok st show "table_ok T" by (simp add: table_ok_def list_all_iff)
qed

lemma backendOf_in_Inr:
  assumes "table_ok S"
  shows "backendOf_in C S b = Inr s \<longleftrightarrow>
    (\<exists>n. (n, s) \<in> set S \<and> b \<in> set (names_of (n, s)) \<and> backend_allowed C (n, s))"
proof -
  have sound: "backendOf_in C S b = Inr s \<Longrightarrow>
      \<exists>n. (n, s) \<in> set S \<and> b \<in> set (names_of (n, s)) \<and> backend_allowed C (n, s)"
    by (induction C S b rule: backendOf_in.induct)
      (auto simp: backend_allowed_def list_ex_iff split: if_splits)
  have "backendOf_in C S b = Inr s" if "(n, s) \<in> set S" "b \<in> set (names_of (n, s))"
    "backend_allowed C (n, s)" "\<And>e. e \<in> set S \<Longrightarrow> b \<in> set (names_of e) \<Longrightarrow> e = (n, s)" for n
    using that
  proof (induction S)
    case Nil
    then show ?case by simp
  next
    case (Cons x S)
    obtain n' s' where x: "x = (n', s')" by (cases x)
    show ?case
    proof (cases "b \<in> set (names_of x)")
      case True
      with Cons.prems(4) have "x = (n, s)" by simp
      with True Cons.prems(3) show ?thesis by (auto simp: backend_allowed_def list_ex_iff)
    next
      case False
      with Cons.prems(1,2) have "(n, s) \<in> set S" by auto
      then have "backendOf_in C S b = Inr s"
        using Cons.prems(2,3) by (rule Cons.IH) (rule Cons.prems(4), simp_all)
      with False x show ?thesis by simp
    qed
  qed
  with sound table_ok_unique [OF assms] show ?thesis by blast
qed

lemma backendOf_in_Inl: "backendOf_in C S b = Inl e \<Longrightarrow>
    e = Errorf (''backend '' @ Quote (go_unicode C) b @ '' is not allowed'')"
  by (induction C S b rule: backendOf_in.induct) (auto split: if_splits)

lemmas backendOf_Inr = backendOf_in_Inr [OF table_ok_backendSchemas, folded backendOf_def]

text \<open>The loop over the table gives the same answer whatever order it takes.\<close>

lemma backendOf_in_order:
  assumes "mset S = mset backendSchemas"
  shows "backendOf_in C S b = backendOf C b"
proof -
  have ok: "table_ok S" using assms table_ok_backendSchemas table_ok_mset by metis
  have st: "set S = set backendSchemas" using assms by (rule mset_eq_setD)
  have iff: "backendOf_in C S b = Inr s \<longleftrightarrow> backendOf C b = Inr s" for s
    unfolding backendOf_def
    by (simp add: backendOf_in_Inr [OF ok] backendOf_in_Inr [OF table_ok_backendSchemas] st)
  show ?thesis
  proof (cases "backendOf C b")
    case (Inr s)
    with iff show ?thesis by simp
  next
    case (Inl e)
    with iff obtain e' where "backendOf_in C S b = Inl e'" by (metis sum.exhaust sum.distinct(1))
    with Inl show ?thesis by (auto simp: backendOf_def dest!: backendOf_in_Inl)
  qed
qed

section \<open>The policy the checks implement\<close>

text \<open>
  The allow-list as a policy on sets of sections and flags, with no loops and no order: what
  a backend, an endpoint, a wrapped remote, an option and a flag must satisfy.
\<close>

definition backend_ok :: "config \<Rightarrow> string \<Rightarrow> backendSchema \<Rightarrow> bool" where
  "backend_ok C b s \<longleftrightarrow>
     (\<exists>n. (n, s) \<in> set backendSchemas \<and> b \<in> set (names_of (n, s)) \<and> backend_allowed C (n, s))"

definition endpoint_ok :: "config \<Rightarrow> string \<Rightarrow> bool" where
  "endpoint_ok C val \<longleftrightarrow> AllowedEndpoints C = []
     \<or> (\<exists>a\<in>set (AllowedEndpoints C). endpoint_host C val = a
          \<or> (\<exists>h t. a = CHR ''.'' # t \<and> endpoint_host C val = h @ a))"

definition wrapped_ok :: "config \<Rightarrow> sections \<Rightarrow> string \<Rightarrow> bool" where
  "wrapped_ok C sections val \<longleftrightarrow>
     (\<exists>name path b s. remoteName name
        \<and> (val = CHR '':'' # name @ CHR '':'' # path \<and> b = name
           \<or> val = name @ CHR '':'' # path \<and> (\<exists>sec. map_of sections name = Some sec \<and> b = gget sec ''type''))
        \<and> backend_ok C b s \<and> ''remote'' \<notin> set (bs_options s))"

definition option_ok :: "config \<Rightarrow> sections \<Rightarrow> backendSchema \<Rightarrow> string \<Rightarrow> string \<Rightarrow> bool" where
  "option_ok C sections s opt val \<longleftrightarrow> opt \<in> set (bs_options s)
     \<and> (opt = ''remote'' \<longrightarrow> wrapped_ok C sections val)
     \<and> (opt \<in> set endpointOptions \<longrightarrow> endpoint_ok C val)"

definition flag_ok :: "config \<Rightarrow> sections \<Rightarrow> string \<Rightarrow> string \<Rightarrow> bool" where
  "flag_ok C sections key val \<longleftrightarrow> flag_name C key \<in> set mountFlags
     \<or> (\<exists>n s. (n, s) \<in> set backendSchemas \<and> backend_allowed C (n, s)
          \<and> HasPrefix (flag_name C key) (bs_prefix s @ ''-'')
          \<and> option_ok C sections s (flag_option s (flag_name C key)) val)"

definition section_ok :: "config \<Rightarrow> sections \<Rightarrow> string gomap \<Rightarrow> bool" where
  "section_ok C sections section \<longleftrightarrow>
     (\<exists>s. backend_ok C (gget section ''type'') s
        \<and> (\<forall>(key, val)\<in>set section. key = ''type'' \<or> key = ''description''
             \<or> option_ok C sections s (ReplaceAll key ''-'' ''_'') val))"

definition options_ok :: "config \<Rightarrow> string \<Rightarrow> sections \<Rightarrow> string gomap \<Rightarrow> bool" where
  "options_ok C remote sections flags \<longleftrightarrow>
     (\<forall>(name, section)\<in>set sections. section_ok C sections section)
     \<and> remoteName remote
     \<and> (map_of sections remote \<noteq> None \<or> (\<exists>s. backend_ok C remote s))
     \<and> (\<forall>(key, val)\<in>set flags. flag_ok C sections key val)"

lemma backendOf_ok: "backendOf C b = Inr s \<longleftrightarrow> backend_ok C b s"
  by (simp only: backendOf_Inr backend_ok_def)

lemma backend_ok_unique: "backend_ok C b s \<Longrightarrow> backend_ok C b t \<Longrightarrow> s = t"
  by (metis backendOf_ok sum.inject(2))

lemma backendOf_Inl: "(\<exists>e. backendOf C b = Inl e) \<longleftrightarrow> (\<nexists>s. backend_ok C b s)"
  by (metis backendOf_ok sum.exhaust sum.distinct(1))

lemma validateEndpoint_ok: "validateEndpoint C opt val = None \<longleftrightarrow> endpoint_ok C val"
  by (auto simp: validateEndpoint_def endpoint_ok_def Let_def list_ex_iff HasPrefix_iff HasSuffix_iff)

lemma remoteName_no_colon: "remoteName name \<Longrightarrow> CHR '':'' \<notin> set name"
proof -
  have "\<not> remote_byte (CHR '':'')" by code_simp
  then show "remoteName name \<Longrightarrow> ?thesis"
    by (cases name) (auto simp: list_all_iff)
qed

lemma Cut_char:
  assumes "c \<notin> set a"
  shows "Cut (a @ c # b) [c] = (a, b, True)"
proof -
  have "Index (a @ c # b) [c] = Some (length a)" using assms by (induction a) auto
  then show ?thesis by (simp add: Cut_def)
qed

text \<open>The two ways in which the parts of a wrapped remote are found.\<close>

lemma wrapped_split:
  "(case Cut (TrimPrefix val '':'') '':'' of (name, path, ok) \<Rightarrow> ok \<and> remoteName name \<and> P name)
   \<longleftrightarrow> (\<exists>name path. remoteName name \<and> P name
        \<and> (val = CHR '':'' # name @ CHR '':'' # path \<or> val = name @ CHR '':'' # path))"
    (is "?L \<longleftrightarrow> ?R")
proof
  assume ?L
  then obtain name path where cut: "Cut (TrimPrefix val '':'') '':'' = (name, path, True)"
    and n: "remoteName name" "P name" by (auto split: prod.splits)
  from Cut_charD [OF cut] have "TrimPrefix val '':'' = name @ CHR '':'' # path" .
  then have "val = CHR '':'' # name @ CHR '':'' # path \<or> val = name @ CHR '':'' # path"
    by (auto simp: TrimPrefix_def prefix_def split: if_splits)
  with n show ?R by blast
next
  assume ?R
  then obtain name path where n: "remoteName name" "P name"
    and val: "val = CHR '':'' # name @ CHR '':'' # path \<or> val = name @ CHR '':'' # path" by blast
  have nc: "CHR '':'' \<notin> set name" by (rule remoteName_no_colon [OF n(1)])
  then have "name \<noteq> []" using n(1) by auto
  with val nc have "TrimPrefix val '':'' = name @ CHR '':'' # path"
    by (cases name) (auto simp: TrimPrefix_def)
  with Cut_char [OF nc] n show ?L by simp
qed

lemma wrapped_cons:
  assumes "remoteName name"
  shows "HasPrefix (name @ CHR '':'' # path) '':'' \<longleftrightarrow> False"
  using assms remoteName_no_colon [OF assms] by (cases name) (auto simp: HasPrefix_def)

lemma wrapper_options: "list_ex (\<lambda>opt. opt \<in> set os) wrapperOptions \<longleftrightarrow> ''remote'' \<in> set os"
  by (simp add: wrapperOptions_def)

lemma ex_reshape:
  assumes "\<And>x y b. N x \<Longrightarrow> K x b \<and> A x y \<longleftrightarrow> M x y b"
  shows "(\<exists>x y. N x \<and> (\<exists>b s. K x b \<and> Q b s) \<and> A x y) \<longleftrightarrow> (\<exists>x y b s. N x \<and> M x y b \<and> Q b s)"
  using assms by meson

text \<open>The backend that a wrapped remote names, on the fly or by a section.\<close>

definition wrapped_backend :: "sections \<Rightarrow> string \<Rightarrow> string \<Rightarrow> string option" where
  "wrapped_backend sections val name =
     (if HasPrefix val '':'' then Some name
      else (case map_of sections name of None \<Rightarrow> None | Some section \<Rightarrow> Some (gget section ''type'')))"

lemma validateWrappedRemote_None:
  "validateWrappedRemote C val sections = None \<longleftrightarrow>
     (case Cut (TrimPrefix val '':'') '':'' of (name, path, ok) \<Rightarrow> ok \<and> remoteName name
        \<and> (\<exists>b s. wrapped_backend sections val name = Some b \<and> backend_ok C b s \<and> ''remote'' \<notin> set (bs_options s)))"
proof -
  obtain name path ok where cut: "Cut (TrimPrefix val '':'') '':'' = (name, path, ok)"
    by (cases "Cut (TrimPrefix val '':'') '':''")
  note unfold = validateWrappedRemote_def cut Let_def prod.case wrapped_backend_def
  show ?thesis
  proof (cases "ok \<and> remoteName name")
    case False
    then show ?thesis by (auto simp: unfold)
  next
    case True
    show ?thesis
    proof (cases "wrapped_backend sections val name")
      case None
      with True show ?thesis by (simp only: unfold) simp
    next
      case (Some b)
      have "backendOf C b = Inr s \<Longrightarrow> backend_ok C b t \<longleftrightarrow> t = s" for s t
        using backendOf_ok backend_ok_unique by metis
      moreover have "backendOf C b = Inl e \<Longrightarrow> \<not> backend_ok C b t" for e t
        using backendOf_Inl by blast
      ultimately show ?thesis
        using True Some by (cases "backendOf C b") (simp_all only: unfold, simp_all add: wrapper_options)
    qed
  qed
qed

lemma wrapped_spelling:
  assumes "remoteName name"
  shows "wrapped_backend sections val name = Some b \<and> (val = CHR '':'' # name @ CHR '':'' # path \<or> val = name @ CHR '':'' # path)
    \<longleftrightarrow> val = CHR '':'' # name @ CHR '':'' # path \<and> b = name
      \<or> val = name @ CHR '':'' # path \<and> (\<exists>sec. map_of sections name = Some sec \<and> b = gget sec ''type'')"
proof (cases "HasPrefix val '':''")
  case True
  with wrapped_cons [OF assms] have "val \<noteq> name @ CHR '':'' # path" by blast
  with True show ?thesis by (auto simp: wrapped_backend_def)
next
  case False
  then have "val \<noteq> CHR '':'' # name @ CHR '':'' # path" by (auto simp: HasPrefix_def)
  with False show ?thesis by (auto simp: wrapped_backend_def split: option.splits)
qed

lemma validateWrappedRemote_ok: "validateWrappedRemote C val sections = None \<longleftrightarrow> wrapped_ok C sections val"
  unfolding validateWrappedRemote_None wrapped_split wrapped_ok_def
  by (rule ex_reshape [where K = "\<lambda>name b. wrapped_backend sections val name = Some b"
        and Q = "\<lambda>b s. backend_ok C b s \<and> ''remote'' \<notin> set (bs_options s)"]) (rule wrapped_spelling)

lemma remote_not_endpoint: "''remote'' \<notin> set endpointOptions"
  by (simp add: endpointOptions_def)

lemma validateOption_ok: "validateOption C s opt val sections = None \<longleftrightarrow> option_ok C sections s opt val"
  using remote_not_endpoint
  by (auto simp: validateOption_def option_ok_def wrapperOptions_def validateWrappedRemote_ok validateEndpoint_ok)

subsection \<open>Flags\<close>

definition flag_hit :: "config \<Rightarrow> string \<Rightarrow> string \<times> backendSchema \<Rightarrow> bool" where
  "flag_hit C name e \<longleftrightarrow> backend_allowed C e \<and> HasPrefix name (bs_prefix (snd e) @ ''-'')
     \<and> flag_option (snd e) name \<in> set (bs_options (snd e))"

lemma dash_prefix_unique:
  assumes "HasPrefix name (p @ ''-'')" "HasPrefix name (q @ ''-'')" "CHR ''-'' \<notin> set p" "CHR ''-'' \<notin> set q"
  shows "p = q"
proof -
  have first: "takeWhile (\<lambda>c. c \<noteq> CHR ''-'') name = r"
    if "HasPrefix name (r @ ''-'')" "CHR ''-'' \<notin> set r" for r
  proof -
    from that(1) obtain a where "name = r @ CHR ''-'' # a" by (auto simp: HasPrefix_iff)
    with that(2) show ?thesis by (subst \<open>name = _\<close>, subst takeWhile_append2) auto
  qed
  from first [OF assms(1,3)] first [OF assms(2,4)] show ?thesis by simp
qed

lemma flag_hit_unique:
  assumes "e \<in> set backendSchemas" "e' \<in> set backendSchemas" "flag_hit C name e" "flag_hit C name e'"
  shows "e = e'"
proof -
  have "CHR ''-'' \<notin> set (bs_prefix (snd x))" if "x \<in> set backendSchemas" for x
    using table_ok_backendSchemas that unfolding table_ok_def list_all_iff by blast
  note nd = this [OF assms(1)] this [OF assms(2)]
  have "bs_prefix (snd e) = bs_prefix (snd e')"
    by (rule dash_prefix_unique [OF _ _ nd, of name]) (use assms(3,4) in \<open>simp_all add: flag_hit_def\<close>)
  then show ?thesis
    using table_ok_unique [OF table_ok_backendSchemas assms(1,2), of "bs_prefix (snd e)"] by simp
qed

lemma backendOf_entry:
  assumes "(n, s) \<in> set backendSchemas"
  shows "backendOf C n = Inr t \<longleftrightarrow> t = s \<and> backend_allowed C (n, s)"
proof -
  have uniq: "n' = n \<and> t = s" if "(n', t) \<in> set backendSchemas" "n \<in> set (names_of (n', t))" for n' t
    using table_ok_unique [OF table_ok_backendSchemas that(1) assms that(2)] by simp
  show ?thesis
    unfolding backendOf_Inr using uniq assms by (metis in_names_of fst_conv)
qed

lemma backend_flag_step:
  assumes "(n, s) \<in> set backendSchemas"
  shows "backend_flag C ((n, x) # S) name key val sections =
    (if flag_hit C name (n, s) then validateOption C s (flag_option s name) val sections
     else backend_flag C S name key val sections)"
proof (cases "backendOf C n")
  case (Inl e)
  with backendOf_entry [OF assms] have "\<not> backend_allowed C (n, s)" by (metis sum.distinct(1))
  with Inl show ?thesis by (simp add: flag_hit_def)
next
  case (Inr t)
  with backendOf_entry [OF assms] have "t = s" "backend_allowed C (n, s)" by auto
  with Inr show ?thesis by (simp add: flag_hit_def)
qed

lemma backend_flag_ok:
  assumes "set S \<subseteq> set backendSchemas"
  shows "backend_flag C S name key val sections = None \<longleftrightarrow>
    (\<exists>e\<in>set S. flag_hit C name e \<and> option_ok C sections (snd e) (flag_option (snd e) name) val)"
  using assms
proof (induction S)
  case Nil
  show ?case by simp
next
  case (Cons e S)
  obtain n s where e: "e = (n, s)" by (cases e)
  with Cons.prems have ns: "(n, s) \<in> set backendSchemas" and S: "set S \<subseteq> set backendSchemas" by auto
  show ?case
  proof (cases "flag_hit C name (n, s)")
    case True
    have "e' = (n, s)" if "e' \<in> set S" "flag_hit C name e'" for e'
      using flag_hit_unique [OF _ ns that(2) True] that(1) S by blast
    with True show ?thesis unfolding e backend_flag_step [OF ns]
      by (auto simp: validateOption_ok)
  next
    case False
    then show ?thesis unfolding e backend_flag_step [OF ns] using Cons.IH [OF S] by auto
  qed
qed

lemma validateFlag_ok: "validateFlag C key val sections = None \<longleftrightarrow> flag_ok C sections key val"
proof -
  have "(\<exists>e\<in>set backendSchemas. flag_hit C name e \<and> option_ok C sections (snd e) (flag_option (snd e) name) val)
    \<longleftrightarrow> (\<exists>n s. (n, s) \<in> set backendSchemas \<and> backend_allowed C (n, s)
          \<and> HasPrefix name (bs_prefix s @ ''-'') \<and> option_ok C sections s (flag_option s name) val)" for name
    by (force simp: flag_hit_def option_ok_def)
  then show ?thesis
    by (simp add: validateFlag_def flag_ok_def backend_flag_ok)
qed

lemma validateSection_ok:
  "validateSection C sections (name, section) = None \<longleftrightarrow> section_ok C sections section"
proof (cases "backendOf C (gget section ''type'')")
  case (Inl e)
  then have "\<nexists>s. backend_ok C (gget section ''type'') s" using backendOf_Inl by blast
  with Inl show ?thesis by (simp add: validateSection_def section_ok_def)
next
  case (Inr s)
  then have "backend_ok C (gget section ''type'') t \<longleftrightarrow> t = s" for t
    using backendOf_ok backend_ok_unique by metis
  with Inr show ?thesis
    by (simp add: validateSection_def section_ok_def validateOption_ok split_beta) blast
qed

lemma validateOptions_ok:
  "validateOptions C remote configData flags = None \<longleftrightarrow>
     UnrestrictedOptions C
     \<or> (\<exists>sections. parseConfig C configData = Inr sections \<and> options_ok C remote sections flags)"
proof (cases "parseConfig C configData")
  case (Inl e)
  then show ?thesis by (simp add: validateOptions_def)
next
  case (Inr sections)
  let ?remote = "if ghas sections remote then None
    else (case backendOf C remote of Inl e \<Rightarrow> Some e | Inr _ \<Rightarrow> None)"
  have secs: "first_err (validateSection C sections) sections = None
      \<longleftrightarrow> (\<forall>(name, section)\<in>set sections. section_ok C sections section)"
    by (simp add: split_beta) (metis prod.collapse validateSection_ok)
  have rem: "?remote = None \<longleftrightarrow> map_of sections remote \<noteq> None \<or> (\<exists>s. backend_ok C remote s)"
    using backendOf_Inl [of C remote] backendOf_ok [of C remote]
    by (cases "backendOf C remote") (auto simp: ghas_def)
  have flgs: "first_err (\<lambda>(key, val). (case validateFlag C key val sections of
        Some e \<Rightarrow> Some (Status InvalidArgument (Error e)) | None \<Rightarrow> None)) flags = None
      \<longleftrightarrow> (\<forall>(key, val)\<in>set flags. flag_ok C sections key val)"
    by (simp add: split_beta validateFlag_ok)
  have ok: "options_ok C remote sections flags \<longleftrightarrow>
      first_err (validateSection C sections) sections = None \<and> remoteName remote \<and> ?remote = None
      \<and> first_err (\<lambda>(key, val). (case validateFlag C key val sections of
          Some e \<Rightarrow> Some (Status InvalidArgument (Error e)) | None \<Rightarrow> None)) flags = None"
    by (simp only: options_ok_def secs rem flgs)
  show ?thesis
    using Inr ok by (cases "first_err (validateSection C sections) sections"; cases ?remote)
      (simp_all add: validateOptions_def del: first_err_None)
qed

text \<open>
  Claim C2. The checks accept the options of a volume exactly when the configuration file parses
  and the policy holds of its sections, the remote and the flags: every section and the remote
  name an allowed backend, every option and flag is one of the allow-list, an endpoint
  points at an allowed host, and a wrapped remote is an allowed backend that wraps nothing.
  The policy does not mention an order, so no order of Go's loops changes the verdict.
\<close>

theorem validateOptions_policy:
  "validateOptions C remote configData flags = None \<longleftrightarrow>
     UnrestrictedOptions C
     \<or> (\<exists>sections. parseConfig C configData = Inr sections \<and> options_ok C remote sections flags)"
  by (rule validateOptions_ok)

section \<open>Properties of the allow-list\<close>

lemma backend_flag_cases:
  assumes "set S \<subseteq> set backendSchemas"
  shows "backend_flag C S name key val sections =
      Some (Errorf (''rclone option '' @ Quote (go_unicode C) key @ '' is not allowed''))
      \<and> (\<forall>e\<in>set S. \<not> flag_hit C name e)
    \<or> (\<exists>e\<in>set S. flag_hit C name e
         \<and> backend_flag C S name key val sections =
             validateOption C (snd e) (flag_option (snd e) name) val sections)"
  using assms
proof (induction S)
  case Nil
  show ?case by simp
next
  case (Cons e S)
  obtain n s where e: "e = (n, s)" by (cases e)
  with Cons.prems have ns: "(n, s) \<in> set backendSchemas" and S: "set S \<subseteq> set backendSchemas" by auto
  show ?case
    using Cons.IH [OF S] unfolding e backend_flag_step [OF ns] by (cases "flag_hit C name (n, s)") auto
qed

lemma backend_flag_order:
  assumes "mset S = mset backendSchemas"
  shows "backend_flag C S name key val sections = backend_flag C backendSchemas name key val sections"
proof -
  from assms have st: "set S = set backendSchemas" by (rule mset_eq_setD)
  from backend_flag_cases [of S C name key val sections]
    backend_flag_cases [of backendSchemas C name key val sections]
    flag_hit_unique [of _ _ C name] st
  show ?thesis by (metis subset_refl)
qed

text \<open>
  Go visits the table of backends in a random order on each call; the backend found for a name and the verdict on a flag, the text of the error included, are the same for
  every order.
\<close>

theorem backend_table_order_irrelevant:
  assumes "mset S = mset backendSchemas"
  shows "backendOf_in C S b = backendOf C b
    \<and> backend_flag C S name key val sections = backend_flag C backendSchemas name key val sections"
  using backendOf_in_order [OF assms] backend_flag_order [OF assms] by blast

theorem backend_table_order_irrelevant_witness:
  "backendOf_in plain_config (rev backendSchemas) ''gcs'' = Inr schema_gcs"
proof -
  have "mset (rev backendSchemas) = mset backendSchemas" by simp
  from backend_table_order_irrelevant [OF this]
  have "backendOf_in C (rev backendSchemas) ''gcs'' = backendOf C ''gcs''" for C by blast
  moreover have "backendOf plain_config ''gcs'' = Inr schema_gcs"
    by (simp add: backendOf_def backendSchemas_def plain_config_def default_config_def schema_s3_def schema_gcs_def)
  ultimately show ?thesis by simp
qed

definition sections_wf :: "sections \<Rightarrow> bool" where
  "sections_wf sections \<longleftrightarrow> gomap_ok sections
     \<and> (\<forall>(name, section)\<in>set sections. remoteName name \<and> gomap_ok section)"

lemma set_gset: "set (gset m k v) \<subseteq> insert (k, v) (set m)"
  by (induction m) (auto simp: gset_def)

lemma sections_wf_gset:
  assumes wf: "sections_wf secs" and name: "remoteName name" and sec: "gomap_ok sec"
  shows "sections_wf (gset secs name sec)"
proof -
  have "remoteName n \<and> gomap_ok x" if "(n, x) \<in> set (gset secs name sec)" for n x
    using that set_gset [of secs name sec] wf name sec by (auto simp: sections_wf_def)
  with wf show ?thesis by (auto simp: sections_wf_def)
qed

lemma map_of_section_ok:
  "sections_wf sections \<Longrightarrow> map_of sections name = Some section \<Longrightarrow> remoteName name \<and> gomap_ok section"
  by (auto simp: sections_wf_def dest: map_of_SomeD)

text \<open>What a line that is accepted does: nothing, start a section, or set a key of the current one.\<close>

definition line_step :: "sections \<Rightarrow> string option \<Rightarrow> sections \<Rightarrow> string option \<Rightarrow> bool" where
  "line_step sections current sections' current' \<longleftrightarrow>
     sections' = sections \<and> current' = current
     \<or> (\<exists>name. remoteName name \<and> \<not> ghas sections name \<and> sections' = gset sections name [] \<and> current' = Some name)
     \<or> (\<exists>cur key val. current = Some cur \<and> current' = current
          \<and> sections' = gset sections cur (gset (case map_of sections cur of Some m \<Rightarrow> m | None \<Rightarrow> []) key val))"

lemma line_stepI:
  "line_step sections current sections current"
  "remoteName name \<Longrightarrow> \<not> ghas sections name \<Longrightarrow> line_step sections current (gset sections name []) (Some name)"
  "line_step sections (Some cur) (gset sections cur (gset (case map_of sections cur of Some m \<Rightarrow> m | None \<Rightarrow> []) key val)) (Some cur)"
  unfolding line_step_def by blast+

lemma parse_line:
  assumes "parse_lines C n sections current (raw # rest) = Inr sections'"
  shows "\<exists>s c. line_step sections current s c \<and> parse_lines C (Suc n) s c rest = Inr sections'"
proof -
  let ?line = "TrimSpace (drop_CR raw)"
  let ?skip = "?line = [] \<or> HasPrefix ?line ''#'' \<or> HasPrefix ?line '';''"
  let ?header = "HasPrefix ?line ''['' \<and> HasSuffix ?line '']''" and ?name = "TrimSpace (butlast (tl ?line))"
  have short: "\<not> MaxScanTokenSize \<le> length raw" using assms by (auto split: if_splits)
  consider "?skip" | "\<not> ?skip" "?header" | "\<not> ?skip" "\<not> ?header" by blast
  then show ?thesis
  proof cases
    case 1
    then show ?thesis using assms short line_stepI(1) by (intro exI conjI) (assumption | simp add: Let_def)+
  next
    case 2
    then have "remoteName ?name" "\<not> ghas sections ?name" "parse_lines C (Suc n) (gset sections ?name []) (Some ?name) rest = Inr sections'"
      using assms short by (auto simp: Let_def split: if_splits)
    then show ?thesis using line_stepI(2) by blast
  next
    case 3
    obtain key val ok where cut: "Cut ?line ''='' = (key, val, ok)" by (cases "Cut ?line ''=''")
    then obtain cur where "ok" "current = Some cur" using assms short 3 by (cases ok; cases current) (auto simp: Let_def)
    then show ?thesis using assms short 3 cut line_stepI(3) by (simp add: Let_def) blast
  qed
qed

lemma line_step_wf:
  assumes "line_step sections current s c" "sections_wf sections" "\<forall>cur. current = Some cur \<longrightarrow> map_of sections cur \<noteq> None"
  shows "sections_wf s" "\<forall>cur. c = Some cur \<longrightarrow> map_of s cur \<noteq> None"
proof -
  show "sections_wf s"
    using assms map_of_section_ok [OF assms(2)] unfolding line_step_def by (auto intro!: sections_wf_gset)
  show "\<forall>cur. c = Some cur \<longrightarrow> map_of s cur \<noteq> None"
    using assms(1,3) unfolding line_step_def by (auto simp: gset_look)
qed

lemma parse_lines_wf:
  "parse_lines C n sections current ls = Inr sections' \<Longrightarrow> sections_wf sections \<Longrightarrow>
   \<forall>cur. current = Some cur \<longrightarrow> map_of sections cur \<noteq> None \<Longrightarrow> sections_wf sections'"
proof (induction ls arbitrary: n sections current)
  case (Cons raw rest)
  obtain s c where "line_step sections current s c" "parse_lines C (Suc n) s c rest = Inr sections'"
    using parse_line [OF Cons.prems(1)] by blast
  with Cons.IH line_step_wf Cons.prems(2,3) show ?case by blast
qed simp

text \<open>
  A parsed configuration has each section once, under a valid remote name, and each key of a
  section once, so a section or key that a later line repeats cannot hide from the checks.
\<close>

theorem parseConfig_wf:
  assumes "parseConfig C configData = Inr sections"
  shows "sections_wf sections"
  using parse_lines_wf [OF assms [unfolded parseConfig_def]] by (simp add: sections_wf_def)

definition example_conf_file :: string where
  "example_conf_file = ''[store]'' @ [CHR 0x0A] @ ''type = s3'' @ [CHR 0x0A] @ ''[secret]'' @ [CHR 0x0A]
     @ ''type = crypt'' @ [CHR 0x0A] @ ''Remote = store:bucket'' @ [CHR 0x0A]"

lemma parseConfig_example:
  "parseConfig plain_config example_conf_file =
     Inr [(''store'', [(''type'', ''s3'')]), (''secret'', [(''type'', ''crypt''), (''remote'', ''store:bucket'')])]"
  by code_simp

theorem parseConfig_wf_witness:
  "\<exists>sections. parseConfig plain_config example_conf_file = Inr sections \<and> sections_wf sections"
  using parseConfig_wf [OF parseConfig_example] parseConfig_example by blast

end
