(* ===== verification/Go_Json.thy ===== *)
theory Go_Json
  imports Go_Strings "HOL-Library.List_Lexorder" "HOL-Library.Char_ord"
begin

text \<open>
  \<^verbatim>\<open>json.Marshal\<close> of strings, of a \<^verbatim>\<open>map[string]string\<close> and of the list that names a shared mount,
  and the decoding of the replies of rclone's remote control into the two structs the driver
  reads. Marshalling a string escapes the quote, the backslash, control characters, the
  characters special to HTML and the two line separators of Unicode; bytes that are not UTF-8
  become the replacement character.
\<close>

section \<open>UTF-8\<close>

definition cont :: "char \<Rightarrow> bool" where
  "cont c \<longleftrightarrow> 0x80 \<le> code_of c \<and> code_of c \<le> 0xBF"

definition between :: "nat \<Rightarrow> nat \<Rightarrow> char \<Rightarrow> bool" where
  "between lo hi c \<longleftrightarrow> lo \<le> code_of c \<and> code_of c \<le> hi"

text \<open>
  The number of bytes after the first one of the rune that a string starts with, for a rune
  of more than one byte; \<open>None\<close> where the bytes are not the encoding of a rune.
\<close>

definition rune_tail :: "string \<Rightarrow> nat option" where
  "rune_tail s =
     (case s of
        a # b # rest \<Rightarrow>
          if between 0xC2 0xDF a \<and> cont b then Some 1
          else (case rest of
                  [] \<Rightarrow> None
                | c # rest' \<Rightarrow>
                    if (between 0xE0 0xE0 a \<and> between 0xA0 0xBF b
                        \<or> (between 0xE1 0xEC a \<or> between 0xEE 0xEF a) \<and> cont b
                        \<or> between 0xED 0xED a \<and> between 0x80 0x9F b) \<and> cont c then Some 2
                    else (case rest' of
                            [] \<Rightarrow> None
                          | d # _ \<Rightarrow>
                              if (between 0xF0 0xF0 a \<and> between 0x90 0xBF b
                                  \<or> between 0xF1 0xF3 a \<and> cont b
                                  \<or> between 0xF4 0xF4 a \<and> between 0x80 0x8F b) \<and> cont c \<and> cont d
                              then Some 3 else None))
      | _ \<Rightarrow> None)"

fun valid_utf8 :: "string \<Rightarrow> bool" where
  "valid_utf8 [] = True"
| "valid_utf8 (c # cs) =
     (if code_of c < 128 then valid_utf8 cs
      else (case rune_tail (c # cs) of None \<Rightarrow> False | Some n \<Rightarrow> valid_utf8 (drop n cs)))"

section \<open>Marshalling\<close>

definition escape_ascii :: "char \<Rightarrow> string" where
  "escape_ascii c = (let n = code_of c in
     if n = 34 \<or> n = 92 then [CHR 0x5C, c]
     else if n = 8 then bytes [92, 98]
     else if n = 12 then bytes [92, 102]
     else if n = 10 then bytes [92, 110]
     else if n = 13 then bytes [92, 114]
     else if n = 9 then bytes [92, 116]
     else if n < 32 \<or> n = 60 \<or> n = 62 \<or> n = 38
     then bytes [92, 117, 48, 48] @ [hex_digit (n div 16), hex_digit n]
     else [c])"

definition line_sep :: string where
  "line_sep = bytes [0xE2, 0x80, 0xA8]"

definition par_sep :: string where
  "par_sep = bytes [0xE2, 0x80, 0xA9]"

fun escape_string :: "string \<Rightarrow> string" where
  "escape_string [] = []"
| "escape_string (c # cs) =
     (if code_of c < 128 then escape_ascii c @ escape_string cs
      else (case rune_tail (c # cs) of
              None \<Rightarrow> CHR 0x5C # ''ufffd'' @ escape_string cs
            | Some n \<Rightarrow>
                (let rune = c # take n cs
                 in (if rune = line_sep then CHR 0x5C # ''u2028''
                     else if rune = par_sep then CHR 0x5C # ''u2029''
                     else rune) @ escape_string (drop n cs))))"

definition marshal_string :: "string \<Rightarrow> string" where
  "marshal_string s = CHR 0x22 # escape_string s @ [CHR 0x22]"

text \<open>The keys of a map are sorted.\<close>

definition marshal_map :: "string gomap \<Rightarrow> string" where
  "marshal_map m =
     CHR 0x7B # join_with '','' (map (\<lambda>(k, v). marshal_string k @ '':'' @ marshal_string v) (sort_key fst m)) @ [CHR 0x7D]"

fun marshal_bool :: "bool \<Rightarrow> string" where
  "marshal_bool True = ''true''"
| "marshal_bool False = ''false''"

section \<open>Unmarshalling rclone's statistics\<close>

text \<open>
  A JSON value. The text of a reply is turned into a value, or refused as malformed, by the
  scanner of \<^verbatim>\<open>encoding/json\<close>, which is a parameter of the functions that read a reply. A number is
  an integer, or has a fraction or exponent; of the latter the value says whether it is in the range
  of a \<^verbatim>\<open>float64\<close>.
\<close>

datatype json = JNull | JBool bool | JInt int | JFraction bool | JString string
  | JArray "json list" | JObject "(string \<times> json) list"

text \<open>
  A field of a struct is set from the object's entries whose key equals its name, upper and
  lower case aside, one after the other; to Go the long s, U+017F, and the Kelvin sign, U+212A, are
  forms of s and k. The result is \<open>None\<close> where \<^verbatim>\<open>Unmarshal\<close> reports that a value does not fit
  the type of its field.
\<close>

fun fold_key :: "string \<Rightarrow> string" where
  "fold_key [] = []"
| "fold_key (c # cs) =
     (if prefix (bytes [0xC5, 0xBF]) (c # cs) then CHR ''s'' # fold_key (drop 1 cs)
      else if prefix (bytes [0xE2, 0x84, 0xAA]) (c # cs) then CHR ''k'' # fold_key (drop 2 cs)
      else lower_byte c # fold_key cs)"

definition key_is :: "string \<Rightarrow> string \<Rightarrow> bool" where
  "key_is name key \<longleftrightarrow> fold_key key = fold_key name"

text \<open>
  A value of type \<^verbatim>\<open>interface{}\<close>: every number in it is decoded as a \<^verbatim>\<open>float64\<close>, which is an error
  where it would be rounded to infinity.
\<close>

fun interface_ok :: "json \<Rightarrow> bool" where
  "interface_ok (JInt i) = (\<bar>i\<bar> < 2 ^ 1024 - 2 ^ 970)"
| "interface_ok (JFraction fits) = fits"
| "interface_ok (JArray vs) = list_all interface_ok vs"
| "interface_ok (JObject kvs) = list_all (\<lambda>(k, v). interface_ok v) kvs"
| "interface_ok _ = True"

text \<open>
  \<^verbatim>\<open>rcCoreStatsResponse\<close>: the number of entries of the map \<^verbatim>\<open>Transferring\<close>. An object adds its
  keys to the map, null makes it nil, and every other value is an error, as are numbers out of range.
\<close>

fun transferring_keys :: "string list \<Rightarrow> (string \<times> json) list \<Rightarrow> string list option" where
  "transferring_keys ks [] = Some ks"
| "transferring_keys ks ((k, v) # kvs) =
     (if key_is ''transferring'' k
      then (case v of
              JNull \<Rightarrow> transferring_keys [] kvs
            | JObject entries \<Rightarrow>
                if list_all (\<lambda>(k, v). interface_ok v) entries then transferring_keys (ks @ map fst entries) kvs else None
            | _ \<Rightarrow> None)
      else transferring_keys ks kvs)"

definition unmarshal_core_stats :: "json \<Rightarrow> string list option" where
  "unmarshal_core_stats v =
     (case v of JNull \<Rightarrow> Some [] | JObject kvs \<Rightarrow> transferring_keys [] kvs | _ \<Rightarrow> None)"

text \<open>\<^verbatim>\<open>rcVfsStatsResponse\<close>: the two counters of \<^verbatim>\<open>DiskCache\<close>, 64-bit integers.\<close>

definition int64_ok :: "int \<Rightarrow> bool" where
  "int64_ok i \<longleftrightarrow> - (2 ^ 63) \<le> i \<and> i < 2 ^ 63"

fun disk_cache_fields :: "int \<times> int \<Rightarrow> (string \<times> json) list \<Rightarrow> (int \<times> int) option" where
  "disk_cache_fields (p, q) [] = Some (p, q)"
| "disk_cache_fields (p, q) ((k, v) # kvs) =
     (if key_is ''uploadsInProgress'' k
      then (case v of JNull \<Rightarrow> disk_cache_fields (p, q) kvs
            | JInt i \<Rightarrow> if int64_ok i then disk_cache_fields (i, q) kvs else None
            | _ \<Rightarrow> None)
      else if key_is ''uploadsQueued'' k
      then (case v of JNull \<Rightarrow> disk_cache_fields (p, q) kvs
            | JInt i \<Rightarrow> if int64_ok i then disk_cache_fields (p, i) kvs else None
            | _ \<Rightarrow> None)
      else disk_cache_fields (p, q) kvs)"

fun vfs_stats_fields :: "int \<times> int \<Rightarrow> (string \<times> json) list \<Rightarrow> (int \<times> int) option" where
  "vfs_stats_fields c [] = Some c"
| "vfs_stats_fields c ((k, v) # kvs) =
     (if key_is ''diskCache'' k
      then (case v of
              JNull \<Rightarrow> vfs_stats_fields c kvs
            | JObject entries \<Rightarrow>
                (case disk_cache_fields c entries of None \<Rightarrow> None | Some c' \<Rightarrow> vfs_stats_fields c' kvs)
            | _ \<Rightarrow> None)
      else vfs_stats_fields c kvs)"

definition unmarshal_vfs_stats :: "json \<Rightarrow> (int \<times> int) option" where
  "unmarshal_vfs_stats v =
     (case v of JNull \<Rightarrow> Some (0, 0) | JObject kvs \<Rightarrow> vfs_stats_fields (0, 0) kvs | _ \<Rightarrow> None)"

end
