(* ===== verification/Go_Hash.thy ===== *)
theory Go_Hash
  imports Go_Strings "HOL-Library.Word"
begin

text \<open>
  \<^verbatim>\<open>crypto/sha256\<close> and \<^verbatim>\<open>encoding/hex\<close>: the state directories, scopes and shared mounts of the
  driver are named by digests. The algorithm is that of FIPS 180-4 on 32-bit words; the
  theorems of the other theories use it as a function only, never a value of it.
\<close>

unbundle bit_operations_syntax

type_synonym w32 = "32 word"

definition rotr32 :: "nat \<Rightarrow> w32 \<Rightarrow> w32" where
  "rotr32 n x = drop_bit n x OR push_bit (32 - n) x"

text \<open>
  The constants are the first 32 bits of the fractional parts of the cube roots of the first
  64 primes and of the square roots of the first eight. An integer root is found bit by bit.
\<close>

fun root_bits :: "nat \<Rightarrow> nat \<Rightarrow> nat \<Rightarrow> nat \<Rightarrow> nat" where
  "root_bits k n 0 r = r"
| "root_bits k n (Suc b) r = root_bits k n b (if (r + 2 ^ b) ^ k \<le> n then r + 2 ^ b else r)"

definition frac_root :: "nat \<Rightarrow> nat \<Rightarrow> w32" where
  "frac_root k p = of_nat (root_bits k (p * 2 ^ (32 * k)) 40 0)"

definition small_primes :: "nat list" where
  "small_primes = filter (\<lambda>n. list_all (\<lambda>d. n mod d \<noteq> 0) [2..<n]) [2..<312]"

definition sha_k :: "w32 list" where
  "sha_k = map (frac_root 3) small_primes"

definition sha_h0 :: "w32 list" where
  "sha_h0 = map (frac_root 2) (take 8 small_primes)"

text \<open>The bytes of a number, the most significant first.\<close>

fun be_bytes :: "nat \<Rightarrow> nat \<Rightarrow> nat list" where
  "be_bytes 0 n = []"
| "be_bytes (Suc k) n = be_bytes k (n div 256) @ [n mod 256]"

definition sha_pad :: "string \<Rightarrow> nat list" where
  "sha_pad s = map code_of s @ [128] @ replicate ((119 - length s mod 64) mod 64) 0 @ be_bytes 8 (8 * length s)"

fun be_words :: "nat list \<Rightarrow> w32 list" where
  "be_words (a # b # c # d # rest) = of_nat (((a * 256 + b) * 256 + c) * 256 + d) # be_words rest"
| "be_words _ = []"

text \<open>The message schedule, the last word first.\<close>

fun sha_extend :: "nat \<Rightarrow> w32 list \<Rightarrow> w32 list" where
  "sha_extend 0 ws = ws"
| "sha_extend (Suc n) ws =
     (let x = ws ! 1; y = ws ! 14;
          s1 = rotr32 17 x XOR rotr32 19 x XOR drop_bit 10 x;
          s0 = rotr32 7 y XOR rotr32 18 y XOR drop_bit 3 y
      in sha_extend n ((s1 + ws ! 6 + s0 + ws ! 15) # ws))"

definition sha_round :: "w32 \<times> w32 \<Rightarrow> w32 list \<Rightarrow> w32 list" where
  "sha_round kw hs =
     (let a = hs ! 0; b = hs ! 1; c = hs ! 2; d = hs ! 3; e = hs ! 4; f = hs ! 5; g = hs ! 6; h = hs ! 7;
          s1 = rotr32 6 e XOR rotr32 11 e XOR rotr32 25 e;
          ch = (e AND f) XOR (NOT e AND g);
          t1 = h + s1 + ch + fst kw + snd kw;
          s0 = rotr32 2 a XOR rotr32 13 a XOR rotr32 22 a;
          maj = (a AND b) XOR (a AND c) XOR (b AND c);
          t2 = s0 + maj
      in [t1 + t2, a, b, c, d + t1, e, f, g])"

definition sha_rounds :: "(w32 \<times> w32) list \<Rightarrow> w32 list \<Rightarrow> w32 list" where
  "sha_rounds kws hs = foldl (\<lambda>hs kw. sha_round kw hs) hs kws"

definition sha_block :: "w32 list \<Rightarrow> w32 list \<Rightarrow> w32 list" where
  "sha_block hs block = map2 (+) hs (sha_rounds (zip sha_k (rev (sha_extend 48 (rev block)))) hs)"

function sha_blocks :: "w32 list \<Rightarrow> w32 list \<Rightarrow> w32 list" where
  "sha_blocks hs ws = (if length ws < 16 then hs else sha_blocks (sha_block hs (take 16 ws)) (drop 16 ws))"
  by pat_completeness auto
termination
  by (relation "measure (\<lambda>(hs, ws). length ws)") auto

declare sha_blocks.simps [simp del]

definition Sum256 :: "string \<Rightarrow> nat list" where
  "Sum256 s = concat (map (be_bytes 4 \<circ> unat) (sha_blocks sha_h0 (be_words (sha_pad s))))"

definition EncodeToString :: "nat list \<Rightarrow> string" where
  "EncodeToString bs = concat (map (\<lambda>b. [hex_digit (b div 16), hex_digit b]) bs)"

lemma hex_digit_inj: "a < 16 \<Longrightarrow> b < 16 \<Longrightarrow> hex_digit a = hex_digit b \<Longrightarrow> a = b"
proof -
  have "distinct ''0123456789abcdef''" by simp
  then show "a < 16 \<Longrightarrow> b < 16 \<Longrightarrow> hex_digit a = hex_digit b \<Longrightarrow> a = b"
    by (simp add: hex_digit_def nth_eq_iff_index_eq)
qed

text \<open>Hexadecimal encoding loses nothing of a sequence of bytes.\<close>

lemma EncodeToString_inj:
  "list_all (\<lambda>b. b < 256) xs \<Longrightarrow> list_all (\<lambda>b. b < 256) ys \<Longrightarrow>
   EncodeToString xs = EncodeToString ys \<Longrightarrow> xs = ys"
proof (induction xs arbitrary: ys)
  case Nil
  then show ?case by (cases ys) (simp_all add: EncodeToString_def)
next
  case (Cons x xs)
  then obtain y ys' where ys: "ys = y # ys'" by (cases ys) (simp_all add: EncodeToString_def)
  with Cons.prems have "hex_digit (x div 16) = hex_digit (y div 16)" "hex_digit (x mod 16) = hex_digit (y mod 16)"
    by (auto simp: EncodeToString_def hex_digit_def)
  moreover have "x div 16 < 16" "y div 16 < 16" using Cons.prems ys by auto
  ultimately have "x div 16 = y div 16" "x mod 16 = y mod 16"
    by (auto intro: hex_digit_inj)
  then have "x = y" by (metis mod_div_mult_eq)
  with Cons ys show ?case by (auto simp: EncodeToString_def)
qed

lemma be_bytes_256: "list_all (\<lambda>b. b < 256) (be_bytes k n)"
  by (induction k n rule: be_bytes.induct) auto

lemma Sum256_bytes: "list_all (\<lambda>b. b < 256) (Sum256 s)"
  using be_bytes_256 by (auto simp: Sum256_def list_all_iff)

lemma length_EncodeToString [simp]: "length (EncodeToString bs) = 2 * length bs"
  by (induction bs) (simp_all add: EncodeToString_def)

end
