(* ===== verification/Volume_State.thy ===== *)
theory Volume_State
  imports Config Go_Hash
begin

text \<open>
  The state of a mount and where it is kept, \<^verbatim>\<open>pkg/rclone/rclone.go\<close>. Each rclone mount has a
  directory named by a digest of its ID, with the state file, the mount point, the socket of
  rclone's remote control and the cache.
\<close>

section \<open>Paths\<close>

definition volumeDirName :: "string \<Rightarrow> string" where
  "volumeDirName volumeID = EncodeToString (take 8 (Sum256 volumeID))"

definition volumeDir :: "config \<Rightarrow> string \<Rightarrow> string" where
  "volumeDir C volumeID = Join [StateDir C, volumeDirName volumeID]"

definition rcSocket :: "config \<Rightarrow> string \<Rightarrow> string" where
  "rcSocket C volumeID = Join [volumeDir C volumeID, ''rc.sock'']"

definition statePath :: "config \<Rightarrow> string \<Rightarrow> string" where
  "statePath C volumeID = Join [volumeDir C volumeID, ''state.json'']"

definition mountPath :: "config \<Rightarrow> string \<Rightarrow> string" where
  "mountPath C volumeID = Join [volumeDir C volumeID, ''mnt'']"

section \<open>The state of a mount\<close>

text \<open>
  The maps of users and targets may be nil, \<open>None\<close>: a state file of release 4.0.0 has no users,
  and an empty map is left out of the file.
\<close>

record volumeState =
  VolumeID :: string
  StagingPath :: string
  Args :: "string list"
  Env :: "string list"
  Users :: "unit gomap option"
  Targets :: "bool gomap option"
  Mounted :: bool

definition entries :: "'v gomap option \<Rightarrow> 'v gomap" where
  "entries m = (case m of None \<Rightarrow> [] | Some kvs \<Rightarrow> kvs)"

text \<open>Storing into a map that is made when it is nil, and deleting, which leaves nil alone.\<close>

definition store_in :: "'v gomap option \<Rightarrow> string \<Rightarrow> 'v \<Rightarrow> 'v gomap option" where
  "store_in m k v = Some (gset (entries m) k v)"

definition delete_from :: "'v gomap option \<Rightarrow> string \<Rightarrow> 'v gomap option" where
  "delete_from m k = map_option (\<lambda>kvs. gdel kvs k) m"

definition addLegacyUser :: "config \<Rightarrow> volumeState \<Rightarrow> volumeState" where
  "addLegacyUser C st =
     (if Users st = None \<and> StagingPath st \<noteq> mountPath C (VolumeID st)
      then st\<lparr>Users := Some [(StagingPath st, ())]\<rparr> else st)"

definition uses :: "volumeState \<Rightarrow> string \<Rightarrow> bool" where
  "uses st path \<longleftrightarrow> ghas (entries (Users st)) path \<or> ghas (entries (Targets st)) path"

text \<open>The store of state files, a value of the library type \<^verbatim>\<open>state.Store\<close>.\<close>

record state_store =
  store_path :: "string \<Rightarrow> string"
  store_glob :: string

definition stateStore :: "config \<Rightarrow> state_store" where
  "stateStore C = \<lparr>store_path = statePath C, store_glob = Join [StateDir C, ''*'', ''state.json'']\<rparr>"

section \<open>Lemmas on states\<close>

lemma entries_simps [simp]: "entries None = []" "entries (Some kvs) = kvs"
  by (simp_all add: entries_def)

lemma entries_store_in: "map_of (entries (store_in m k v)) = (map_of (entries m))(k \<mapsto> v)"
  by (simp add: store_in_def gset_look)

lemma entries_delete_from: "map_of (entries (delete_from m k)) = (map_of (entries m))(k := None)"
  by (cases m) (simp_all add: delete_from_def gdel_look)

lemma entries_empty_iff: "entries m = [] \<longleftrightarrow> map_of (entries m) = Map.empty"
  by simp

lemma files_differ: "rcSocket C i \<noteq> statePath C j" "mountPath C i \<noteq> statePath C j"
proof -
  have "file_name ''rc.sock''" "file_name ''state.json''" "file_name ''mnt''" by code_simp+
  then obtain p q r where "rcSocket C i = p @ ''rc.sock''" "statePath C j = q @ ''state.json''" "mountPath C i = r @ ''mnt''"
    unfolding rcSocket_def statePath_def mountPath_def using Join_file by metis
  then have "last (rcSocket C i) = CHR ''k''" "last (statePath C j) = CHR ''n''" "last (mountPath C i) = CHR ''t''" by simp_all
  then show "rcSocket C i \<noteq> statePath C j" "mountPath C i \<noteq> statePath C j" by auto
qed

end
