(* ===== verification/Volume_Args.thy ===== *)
theory Volume_Args
  imports Options Csi_Types Go_Json Volume_State
begin

text \<open>
  From a request to the arguments of rclone, the pure part of \<^verbatim>\<open>pkg/rclone/nodeserver.go\<close>: the
  merge of a secret and the volume's context into flags, their checks, the name of the mount
  and of an environment variable.
\<close>

section \<open>Read-only volumes\<close>

definition isReadOnly :: "volume_capability \<Rightarrow> bool" where
  "isReadOnly capability \<longleftrightarrow>
     cap_mode capability \<in> {SINGLE_NODE_READER_ONLY, MULTI_NODE_READER_ONLY}
     \<or> list_ex (\<lambda>flag. flag = ''ro'') (GetMountFlags capability)"

section \<open>Secrets\<close>

text \<open>
  The data of a secret is a map from names to bytes; no data and empty data are not told
  apart. The Kubernetes API is a parameter: a client, or the error of making one, that answers
  a Get, namespace first, and the namespace of the plugin.
\<close>

type_synonym secret = "string gomap"

record kube =
  kube_client :: "go_error + (string \<Rightarrow> string \<Rightarrow> go_error + secret)"
  kube_namespace :: "go_error + string"

definition getSecret :: "kube \<Rightarrow> string \<Rightarrow> go_error + secret" where
  "getSecret K secretName =
     (case kube_client K of
        Inl e \<Rightarrow> Inl (Status Internal (''can not create kubernetes client: '' @ Error e))
      | Inr clientset \<Rightarrow>
          (case kube_namespace K of
             Inl e \<Rightarrow> Inl (Status Internal
               (''can'' @ [CHR 0x27] @ ''t get current namespace for secret '' @ secretName @ '': '' @ Error e))
           | Inr namespace \<Rightarrow>
               (case clientset namespace secretName of
                  Inl e \<Rightarrow> Inl (Status Internal
                    (''can'' @ [CHR 0x27] @ ''t load csi-rclone settings from secret '' @ secretName @ '': '' @ Error e))
                | Inr s \<Rightarrow> Inr s)))"

section \<open>Flags\<close>

definition validateFlags :: "string gomap \<Rightarrow> go_error option" where
  "validateFlags flags =
     (if \<not> ghas flags ''remote'' then Some (Status InvalidArgument ''missing volume context value: remote'')
      else if \<not> ghas flags ''remotePath'' then Some (Status InvalidArgument ''missing volume context value: remotePath'')
      else None)"

text \<open>\<open>None\<close> is the nil secret.\<close>

definition merged_flags :: "string gomap \<Rightarrow> secret option \<Rightarrow> string gomap" where
  "merged_flags volumeContext sec =
     gputall (case sec of Some kvs \<Rightarrow> gputall [] kvs | None \<Rightarrow> [])
       (filter (\<lambda>(k, v). \<not> Contains k ''/'') volumeContext)"

record rcloneArgs =
  arg_remote :: string
  arg_remotePath :: string
  arg_configData :: string
  arg_flags :: "string gomap"
  arg_readOnly :: bool

definition extractFlags :: "config \<Rightarrow> string gomap \<Rightarrow> secret option \<Rightarrow>
    go_error + (string \<times> string \<times> string \<times> string gomap)" where
  "extractFlags C volumeContext sec =
     (let flags = merged_flags volumeContext sec
      in case validateFlags flags of
           Some e \<Rightarrow> Inl e
         | None \<Rightarrow>
             let remote = gget flags ''remote'';
                 remotePath = gget flags ''remotePath'' @ gget flags ''remotePathSuffix'';
                 configData = gget flags ''configData'';
                 flags' = gdel (gdel (gdel (gdel flags ''remotePathSuffix'') ''configData'') ''remote'') ''remotePath''
             in (case validateOptions C remote configData flags' of
                   Some e \<Rightarrow> Inl e
                 | None \<Rightarrow> Inr (remote, remotePath, configData, flags')))"

definition volume_args :: "config \<Rightarrow> volume_capability \<Rightarrow> string gomap \<Rightarrow> secret option \<Rightarrow> go_error + rcloneArgs" where
  "volume_args C capability volumeContext sec =
     (case extractFlags C volumeContext sec of
        Inl e \<Rightarrow> Inl e
      | Inr (remote, remotePath, configData, flags) \<Rightarrow>
          Inr \<lparr>arg_remote = remote, arg_remotePath = remotePath, arg_configData = configData,
               arg_flags = flags, arg_readOnly = isReadOnly capability\<rparr>)"

definition ephemeralArgs :: "config \<Rightarrow> volume_capability \<Rightarrow> publish_request \<Rightarrow> go_error + rcloneArgs" where
  "ephemeralArgs C capability req =
     volume_args C capability (np_context req)
       (if np_secrets req \<noteq> [] then Some (gputall [] (np_secrets req)) else None)"

section \<open>Names\<close>

definition marshal_args :: "rcloneArgs \<Rightarrow> string" where
  "marshal_args a = ''['' @ join_with '',''
     [marshal_string (arg_remote a), marshal_string (arg_remotePath a), marshal_string (arg_configData a),
      marshal_map (arg_flags a), marshal_bool (arg_readOnly a)] @ '']''"

definition mountID :: "config \<Rightarrow> string \<Rightarrow> rcloneArgs \<Rightarrow> string" where
  "mountID C volumeID a =
     (if \<not> ReuseMounts C then volumeID else EncodeToString (Sum256 (marshal_args a)))"

definition flagToEnvName :: "config \<Rightarrow> string \<Rightarrow> string" where
  "flagToEnvName C flag =
     ''RCLONE_'' @ ToUpper (go_unicode C) (ReplaceAll (TrimPrefix flag ''--'') ''-'' ''_'')"

end
