(* ===== verification/Node_World.thy ===== *)
theory Node_World
  imports Volume_State Go_Json
begin

text \<open>
  What surrounds the node plugin, as far as its code calls it: the store of state files, the
  mount table and its prober, systemd scopes and the supervisor of the rclone processes (the
  packages \<^verbatim>\<open>state\<close>, \<^verbatim>\<open>fusemount\<close>, \<^verbatim>\<open>scope\<close> and \<^verbatim>\<open>supervisor\<close> of go-csi-fuse-supervisor), the
  file system, the clock and rclone's remote control.

  None of this is code of the driver, so it is a parameter, an \<open>environment\<close>: for every call,
  a function from the history of all calls so far to the answer. Whatever such a system does,
  including what other goroutines and processes change in between, some environment gives the
  same answers, so a theorem about every environment is a theorem about all of them. A program
  is a value of the state monad whose state is the history and the clock.
\<close>

section \<open>Calls and their answers\<close>

datatype mount_state = Live | Dead | Other | Gone

text \<open>The calls that return an error only.\<close>

datatype err_call =
    Save state_store string volumeState
  | Unmount string
  | Bind string string bool
  | StopScope string
  | MkdirAll string nat
  | Remove string
  | WriteFile string string nat

text \<open>The calls that return nothing.\<close>

datatype unit_call = Forget string | Lock string | Unlock string | Close int

text \<open>
  The calls that return an error or an integer: the size of a file, a file handle, the size
  of an open file, the position after a seek, the number of the started process.
\<close>

datatype int_call =
    Stat string
  | Open string
  | FStat int
  | SeekStart int int
  | Start string "string list" "string list" string nat

text \<open>
  The history records each call with its answer. \<^verbatim>\<open>os.RemoveAll\<close> removes what it can before it
  reports an error, so besides its answer its event says whether the state file below the directory
  went all the same, which the code does not see.
\<close>

datatype event =
    ErrEv err_call "go_error option"
  | UnitEv unit_call
  | IntEv int_call "go_error + int"
  | LoadEv state_store string "go_error + volumeState"
  | LoadAllEv state_store "volumeState list" "go_error list"
  | ProbeEv string mount_state "go_error option"
  | StatusEv string mount_state
  | PidEv string int
  | EnvironEv "string list"
  | ReadEv int string
  | RemoveAllEv string bool "go_error option"
  | HttpEv string string string "go_error + (go_error + string)"
  | NowEv nat
  | SleepEv nat

record environment =
  ans_err :: "event list \<Rightarrow> err_call \<Rightarrow> go_error option"
  ans_int :: "event list \<Rightarrow> int_call \<Rightarrow> go_error + int"
  ans_load :: "event list \<Rightarrow> state_store \<Rightarrow> string \<Rightarrow> go_error + volumeState"
  ans_states :: "event list \<Rightarrow> state_store \<Rightarrow> volumeState list \<times> go_error list"
  ans_probe :: "event list \<Rightarrow> string \<Rightarrow> mount_state \<times> go_error option"
  ans_status :: "event list \<Rightarrow> string \<Rightarrow> mount_state"
  ans_pid :: "event list \<Rightarrow> string \<Rightarrow> int"
  ans_environ :: "event list \<Rightarrow> string list"
  ans_read :: "event list \<Rightarrow> int \<Rightarrow> string"
  ans_remove_all :: "event list \<Rightarrow> string \<Rightarrow> bool \<times> go_error option"
  ans_http :: "event list \<Rightarrow> string \<Rightarrow> string \<Rightarrow> string \<Rightarrow> go_error + (go_error + string)"
  ans_delay :: "event list \<Rightarrow> nat"
  new_request :: "string \<Rightarrow> string \<Rightarrow> go_error option"
  json_scan :: "string \<Rightarrow> json option"

text \<open>
  The clock counts nanoseconds. \<^verbatim>\<open>time.Now\<close> reads it some time, \<open>ans_delay\<close>, after the last
  reading or sleep; \<^verbatim>\<open>time.Sleep\<close> moves it on by the given duration.
\<close>

record node =
  history :: "event list"
  clock :: nat

type_synonym 'a node_op = "(node, 'a) state"

abbreviation ret :: "'a \<Rightarrow> 'a node_op" where
  "ret \<equiv> State_Monad.return"

definition emit :: "(event list \<Rightarrow> 'a) \<Rightarrow> ('a \<Rightarrow> event) \<Rightarrow> 'a node_op" where
  "emit answer ev = State (\<lambda>w. let x = answer (history w) in (x, w\<lparr>history := history w @ [ev x]\<rparr>))"

definition err_op :: "environment \<Rightarrow> err_call \<Rightarrow> go_error option node_op" where
  "err_op E c = emit (\<lambda>h. ans_err E h c) (ErrEv c)"

definition unit_op :: "unit_call \<Rightarrow> unit node_op" where
  "unit_op c = emit (\<lambda>_. ()) (\<lambda>_. UnitEv c)"

definition int_op :: "environment \<Rightarrow> int_call \<Rightarrow> (go_error + int) node_op" where
  "int_op E c = emit (\<lambda>h. ans_int E h c) (IntEv c)"

definition load_op :: "environment \<Rightarrow> state_store \<Rightarrow> string \<Rightarrow> (go_error + volumeState) node_op" where
  "load_op E s i = emit (\<lambda>h. ans_load E h s i) (LoadEv s i)"

definition load_all_op :: "environment \<Rightarrow> state_store \<Rightarrow> (volumeState list \<times> go_error list) node_op" where
  "load_all_op E s = emit (\<lambda>h. ans_states E h s) (\<lambda>(sts, errs). LoadAllEv s sts errs)"

definition probe_op :: "environment \<Rightarrow> string \<Rightarrow> (mount_state \<times> go_error option) node_op" where
  "probe_op E p = emit (\<lambda>h. ans_probe E h p) (\<lambda>(s, e). ProbeEv p s e)"

definition status_op :: "environment \<Rightarrow> string \<Rightarrow> mount_state node_op" where
  "status_op E p = emit (\<lambda>h. ans_status E h p) (StatusEv p)"

definition pid_op :: "environment \<Rightarrow> string \<Rightarrow> int node_op" where
  "pid_op E i = emit (\<lambda>h. ans_pid E h i) (PidEv i)"

definition environ_op :: "environment \<Rightarrow> string list node_op" where
  "environ_op E = emit (ans_environ E) EnvironEv"

definition read_op :: "environment \<Rightarrow> int \<Rightarrow> string node_op" where
  "read_op E fd = emit (\<lambda>h. ans_read E h fd) (ReadEv fd)"

definition remove_all_op :: "environment \<Rightarrow> string \<Rightarrow> go_error option node_op" where
  "remove_all_op E d = do {
     (gone, err) \<leftarrow> emit (\<lambda>h. ans_remove_all E h d) (\<lambda>(gone, r). RemoveAllEv d gone r);
     ret err }"

definition http_op :: "environment \<Rightarrow> string \<Rightarrow> string \<Rightarrow> string \<Rightarrow> (go_error + (go_error + string)) node_op" where
  "http_op E socket url body = emit (\<lambda>h. ans_http E h socket url body) (HttpEv socket url body)"

definition now_op :: "environment \<Rightarrow> nat node_op" where
  "now_op E = State (\<lambda>w. let t = clock w + ans_delay E (history w)
                         in (t, w\<lparr>history := history w @ [NowEv t], clock := t\<rparr>))"

definition sleep_op :: "nat \<Rightarrow> unit node_op" where
  "sleep_op d = State (\<lambda>w. ((), w\<lparr>history := history w @ [SleepEv d], clock := clock w + d\<rparr>))"

text \<open>\<^verbatim>\<open>if err := m(); err != nil { return h(err) }\<close>, followed by \<open>k\<close>.\<close>

definition check_err :: "go_error option node_op \<Rightarrow> (go_error \<Rightarrow> 'r) \<Rightarrow> 'r node_op \<Rightarrow> 'r node_op" where
  "check_err m h k = do {
     err \<leftarrow> m;
     case err of Some e \<Rightarrow> ret (h e) | None \<Rightarrow> k }"

section \<open>Reasoning about what a program does\<close>

text \<open>
  \<open>emits m P\<close>: from whatever history and clock, the program appends a sequence of events to
  the history that, with its result, satisfies \<open>P\<close>. The rules compute with it backwards from
  the end of a program.
\<close>

definition emits :: "'a node_op \<Rightarrow> ('a \<Rightarrow> event list \<Rightarrow> bool) \<Rightarrow> bool" where
  "emits m P \<longleftrightarrow> (\<forall>w. \<exists>tr. history (snd (run_state m w)) = history w @ tr \<and> P (fst (run_state m w)) tr)"

text \<open>The events of one run.\<close>

definition trace :: "'a node_op \<Rightarrow> node \<Rightarrow> event list" where
  "trace m w = drop (length (history w)) (history (snd (run_state m w)))"

definition result :: "'a node_op \<Rightarrow> node \<Rightarrow> 'a" where
  "result m w = fst (run_state m w)"

named_theorems emits_rules \<open>backwards rules for emits\<close>

lemma emitsD: "emits m P \<Longrightarrow> P (result m w) (trace m w)"
  unfolding emits_def trace_def result_def by (metis append_eq_conv_conj)

lemma emits_mono: "emits m P \<Longrightarrow> (\<And>x t. P x t \<Longrightarrow> Q x t) \<Longrightarrow> emits m Q"
  unfolding emits_def by metis

lemma emits_conj: "emits m P \<Longrightarrow> emits m Q \<Longrightarrow> emits m (\<lambda>x t. P x t \<and> Q x t)"
  unfolding emits_def by (metis same_append_eq)

lemma emits_emit: "(\<And>h. P (answer h) [ev (answer h)]) \<Longrightarrow> emits (emit answer ev) P"
  unfolding emits_def emit_def by (auto simp: Let_def)

lemma emits_return [emits_rules]: "P x [] \<Longrightarrow> emits (ret x) P"
  unfolding emits_def by simp

lemma emits_bind [emits_rules]:
  assumes "emits m (\<lambda>x t. emits (f x) (\<lambda>y u. P y (t @ u)))"
  shows "emits (State_Monad.bind m f) P"
  unfolding emits_def
proof
  fix w
  obtain x w' where m: "run_state m w = (x, w')" by fastforce
  with assms obtain t where t: "history w' = history w @ t" "emits (f x) (\<lambda>y u. P y (t @ u))"
    unfolding emits_def by (metis fst_conv snd_conv)
  then obtain u where "history (snd (run_state (f x) w')) = history w' @ u" "P (fst (run_state (f x) w')) (t @ u)"
    unfolding emits_def by metis
  with m t show "\<exists>tr. history (snd (run_state (m \<bind> f) w)) = history w @ tr \<and> P (fst (run_state (m \<bind> f) w)) tr"
    by (auto simp: run_bind)
qed

lemma emits_err [emits_rules]: "(\<And>r. P r [ErrEv c r]) \<Longrightarrow> emits (err_op E c) P"
  unfolding err_op_def by (rule emits_emit)

lemma emits_unit [emits_rules]: "P () [UnitEv u] \<Longrightarrow> emits (unit_op u) P"
  unfolding unit_op_def by (rule emits_emit)

lemma emits_int [emits_rules]: "(\<And>r. P r [IntEv c r]) \<Longrightarrow> emits (int_op E c) P"
  unfolding int_op_def by (rule emits_emit)

lemma emits_load [emits_rules]:
  "(\<And>r. (\<exists>h. ans_load E h s i = r) \<Longrightarrow> P r [LoadEv s i r]) \<Longrightarrow> emits (load_op E s i) P"
  unfolding load_op_def by (rule emits_emit) blast

lemma emits_load_all [emits_rules]:
  "(\<And>sts errs. P (sts, errs) [LoadAllEv s sts errs]) \<Longrightarrow> emits (load_all_op E s) P"
  unfolding load_all_op_def by (rule emits_emit) (simp split: prod.split)

lemma emits_probe [emits_rules]: "(\<And>s e. P (s, e) [ProbeEv p s e]) \<Longrightarrow> emits (probe_op E p) P"
  unfolding probe_op_def by (rule emits_emit) (simp split: prod.split)

lemma emits_status [emits_rules]: "(\<And>s. P s [StatusEv p s]) \<Longrightarrow> emits (status_op E p) P"
  unfolding status_op_def by (rule emits_emit)

lemma emits_pid [emits_rules]: "(\<And>n. P n [PidEv i n]) \<Longrightarrow> emits (pid_op E i) P"
  unfolding pid_op_def by (rule emits_emit)

lemma emits_environ [emits_rules]:
  "(\<And>vs. (\<exists>h. ans_environ E h = vs) \<Longrightarrow> P vs [EnvironEv vs]) \<Longrightarrow> emits (environ_op E) P"
  unfolding environ_op_def by (rule emits_emit) blast

lemma emits_read [emits_rules]: "(\<And>s. P s [ReadEv fd s]) \<Longrightarrow> emits (read_op E fd) P"
  unfolding read_op_def by (rule emits_emit)

lemma emits_remove_all [emits_rules]: "(\<And>g r. P r [RemoveAllEv d g r]) \<Longrightarrow> emits (remove_all_op E d) P"
  unfolding remove_all_op_def
  by (rule emits_bind, rule emits_emit) (auto intro: emits_return split: prod.splits)

lemma emits_http [emits_rules]: "(\<And>r. P r [HttpEv s u b r]) \<Longrightarrow> emits (http_op E s u b) P"
  unfolding http_op_def by (rule emits_emit)

lemma emits_now [emits_rules]: "(\<And>t. P t [NowEv t]) \<Longrightarrow> emits (now_op E) P"
  unfolding emits_def now_op_def by (simp add: Let_def)

lemma emits_sleep [emits_rules]: "P () [SleepEv d] \<Longrightarrow> emits (sleep_op d) P"
  unfolding emits_def sleep_op_def by simp

lemma emits_if [emits_rules]:
  "(b \<Longrightarrow> emits m P) \<Longrightarrow> (\<not> b \<Longrightarrow> emits n P) \<Longrightarrow> emits (if b then m else n) P"
  by simp

lemma emits_case_option [emits_rules]:
  "(r = None \<Longrightarrow> emits m P) \<Longrightarrow> (\<And>x. r = Some x \<Longrightarrow> emits (f x) P) \<Longrightarrow>
   emits (case r of None \<Rightarrow> m | Some x \<Rightarrow> f x) P"
  by (cases r) simp_all

lemma emits_case_sum [emits_rules]:
  "(\<And>e. r = Inl e \<Longrightarrow> emits (f e) P) \<Longrightarrow> (\<And>x. r = Inr x \<Longrightarrow> emits (g x) P) \<Longrightarrow>
   emits (case r of Inl e \<Rightarrow> f e | Inr x \<Rightarrow> g x) P"
  by (cases r) simp_all

lemma emits_case_prod [emits_rules]:
  "(\<And>x y. r = (x, y) \<Longrightarrow> emits (f x y) P) \<Longrightarrow> emits (case r of (x, y) \<Rightarrow> f x y) P"
  by (cases r) simp

lemma emits_case_mount_state [emits_rules]:
  "(s = Live \<Longrightarrow> emits a P) \<Longrightarrow> (s = Dead \<Longrightarrow> emits b P) \<Longrightarrow> (s = Other \<Longrightarrow> emits c P) \<Longrightarrow>
   (s = Gone \<Longrightarrow> emits d P) \<Longrightarrow>
   emits (case s of Live \<Rightarrow> a | Dead \<Rightarrow> b | Other \<Rightarrow> c | Gone \<Rightarrow> d) P"
  by (cases s) simp_all

lemma emits_check_err [emits_rules]:
  assumes "emits m (\<lambda>r t. (\<forall>e. r = Some e \<longrightarrow> P (h e) t) \<and> (r = None \<longrightarrow> emits k (\<lambda>y u. P y (t @ u))))"
  shows "emits (check_err m h k) P"
  unfolding check_err_def
  by (rule emits_bind, rule emits_mono [OF assms]) (auto intro!: emits_rules)

end
