(* ===== verification/Mounts.thy ===== *)
theory Mounts
  imports Volume_Args Node_World
begin

text \<open>
  The rclone mounts of a node: \<^verbatim>\<open>pkg/rclone/rclone.go\<close>, \<^verbatim>\<open>pkg/rclone/reconcile.go\<close> and the
  operations of \<^verbatim>\<open>mounts\<close> in \<^verbatim>\<open>pkg/rclone/nodeserver.go\<close>. Log lines are left out.
\<close>

section \<open>State files\<close>

definition saveState :: "config \<Rightarrow> environment \<Rightarrow> volumeState \<Rightarrow> go_error option node_op" where
  "saveState C E st = err_op E (Save (stateStore C) (VolumeID st) st)"

definition loadState :: "config \<Rightarrow> environment \<Rightarrow> string \<Rightarrow> (go_error + volumeState) node_op" where
  "loadState C E volumeID = do {
     r \<leftarrow> load_op E (stateStore C) volumeID;
     ret (case r of Inl e \<Rightarrow> Inl e | Inr st \<Rightarrow> Inr (addLegacyUser C st)) }"

definition loadStates :: "config \<Rightarrow> environment \<Rightarrow> volumeState list node_op" where
  "loadStates C E = do {
     r \<leftarrow> load_all_op E (stateStore C);
     ret (map (addLegacyUser C) (fst r)) }"

text \<open>The loop of \<^verbatim>\<open>lockMountOf\<close> over the states found.\<close>

fun lock_first_use :: "config \<Rightarrow> environment \<Rightarrow> string \<Rightarrow> volumeState list \<Rightarrow> volumeState option node_op" where
  "lock_first_use C E path [] = ret None"
| "lock_first_use C E path (found # rest) =
     (if \<not> uses found path then lock_first_use C E path rest
      else do {
        unit_op (Lock (VolumeID found));
        r \<leftarrow> loadState C E (VolumeID found);
        if (case r of Inr st \<Rightarrow> uses st path | Inl _ \<Rightarrow> False)
        then ret (case r of Inr st \<Rightarrow> Some st | Inl _ \<Rightarrow> None)
        else do {
          unit_op (Unlock (VolumeID found));
          lock_first_use C E path rest } })"

definition lockMountOf :: "config \<Rightarrow> environment \<Rightarrow> string \<Rightarrow> volumeState option node_op" where
  "lockMountOf C E path = do {
     states \<leftarrow> loadStates C E;
     lock_first_use C E path states }"

section \<open>Probing and unmounting\<close>

definition live :: "environment \<Rightarrow> string \<Rightarrow> bool node_op" where
  "live E path = do {
     r \<leftarrow> probe_op E path;
     ret (fst r = Live) }"

definition check :: "config \<Rightarrow> environment \<Rightarrow> volumeState \<Rightarrow> (go_error + mount_state) node_op" where
  "check C E st = do {
     r \<leftarrow> probe_op E (StagingPath st);
     if (case snd r of Some e \<Rightarrow> IsHung e | None \<Rightarrow> False)
     then ret (Inl (Errorf (''rclone for volume '' @ VolumeID st @ '' does not answer at '' @ StagingPath st)))
     else if fst r = Other \<and> Mounted st
     then do {
       pid \<leftarrow> pid_op E (VolumeID st);
       if pid \<noteq> 0
       then ret (Inl (Errorf (''rclone for volume '' @ VolumeID st @ '' runs, but '' @ StagingPath st @ '' is not mounted'')))
       else ret (Inr (fst r)) }
     else ret (Inr (fst r)) }"

definition detach :: "environment \<Rightarrow> string \<Rightarrow> go_error option node_op" where
  "detach E path = do {
     err \<leftarrow> err_op E (Unmount path);
     case err of
       None \<Rightarrow> do { unit_op (Forget path); ret None }
     | Some e \<Rightarrow>
         if IsEPERM e
         then do {
           s \<leftarrow> status_op E path;
           if s \<noteq> Live \<and> s \<noteq> Dead then ret None else ret (Some e) }
         else ret (Some e) }"

definition stopScope :: "environment \<Rightarrow> string \<Rightarrow> unit node_op" where
  "stopScope E volumeID = do {
     _ \<leftarrow> err_op E (StopScope volumeID);
     ret () }"

section \<open>Starting rclone\<close>

definition readLog :: "environment \<Rightarrow> string \<Rightarrow> int \<Rightarrow> string node_op" where
  "readLog E path offset = do {
     f \<leftarrow> int_op E (Open path);
     case f of
       Inl _ \<Rightarrow> ret []
     | Inr fd \<Rightarrow> do {
         fi \<leftarrow> int_op E (FStat fd);
         let offset' = (case fi of Inr n \<Rightarrow> if n - offset > 2048 then n - 2048 else offset | Inl _ \<Rightarrow> offset);
         pos \<leftarrow> int_op E (SeekStart fd offset');
         case pos of
           Inl _ \<Rightarrow> do { unit_op (Close fd); ret [] }
         | Inr _ \<Rightarrow> do {
             dat \<leftarrow> read_op E fd;
             unit_op (Close fd);
             ret (TrimSpace dat) } } }"

text \<open>One minute, in nanoseconds.\<close>

definition mountWaitTimeout :: nat where
  "mountWaitTimeout = 60 * 1000000000"

definition startRclone :: "config \<Rightarrow> environment \<Rightarrow> volumeState \<Rightarrow> go_error option node_op" where
  "startRclone C E st = do {
     let logFile = Join [volumeDir C (VolumeID st), ''rclone.log''];
     fi \<leftarrow> int_op E (Stat logFile);
     let logOffset = (case fi of Inr n \<Rightarrow> n | Inl _ \<Rightarrow> 0);
     _ \<leftarrow> err_op E (Remove (rcSocket C (VolumeID st)));
     environ \<leftarrow> environ_op E;
     d \<leftarrow> int_op E (Start (VolumeID st) (Args st) (environ @ Env st) (StagingPath st) mountWaitTimeout);
     case d of
       Inl e \<Rightarrow> do {
         log \<leftarrow> readLog E logFile logOffset;
         ret (Some (Errorf (''mounting failed: '' @ Error e @ '', rclone log: '' @ Quote (go_unicode C) log))) }
     | Inr _ \<Rightarrow> ret None }"

definition remount :: "config \<Rightarrow> environment \<Rightarrow> volumeState \<Rightarrow> go_error option node_op" where
  "remount C E st =
     check_err (detach E (StagingPath st)) Some (
     check_err (err_op E (StopScope (VolumeID st))) Some (
     startRclone C E st))"

text \<open>
  The flags that a volume's own flags override, with the cache below the mount's directory. Go puts
  those that are left into the environment in any order; each has a variable of its own, so the order
  does not matter to rclone, and no property depends on it.
\<close>

definition defaultFlags :: "string \<Rightarrow> string gomap" where
  "defaultFlags dir =
     [(''cache-info-age'', ''72h''), (''cache-chunk-clean-interval'', ''15m''), (''dir-cache-time'', ''5s''),
      (''vfs-cache-mode'', ''writes''), (''cache-dir'', Join [dir, ''cache'']),
      (''allow-non-empty'', ''true''), (''allow-other'', ''true'')]"

definition remoteWithPath :: "string \<Rightarrow> string \<Rightarrow> string \<Rightarrow> string" where
  "remoteWithPath remote remotePath configData =
     (if Contains configData (''['' @ remote @ '']'') then remote @ '':'' @ remotePath
      else '':'' @ remote @ '':'' @ remotePath)"

definition env_entry :: "config \<Rightarrow> string \<times> string \<Rightarrow> string" where
  "env_entry C kv = flagToEnvName C (fst kv) @ ''='' @ snd kv"

definition mount_args :: "config \<Rightarrow> string \<Rightarrow> rcloneArgs \<Rightarrow> string \<Rightarrow> string list" where
  "mount_args C volumeID a stagingPath =
     [''mount'', remoteWithPath (arg_remote a) (arg_remotePath a) (arg_configData a), stagingPath, ''--rc'',
      ''--rc-addr=unix://'' @ rcSocket C volumeID,
      ''--log-file='' @ Join [volumeDir C volumeID, ''rclone.log''],
      ''--log-file-max-size=10M'', ''--log-file-max-backups=1'']
     @ (if arg_readOnly a then [''--read-only''] else [])"

definition mount_env :: "config \<Rightarrow> string \<Rightarrow> string gomap \<Rightarrow> string list" where
  "mount_env C dir flags =
     map (env_entry C) (filter (\<lambda>(k, v). \<not> ghas flags k) (defaultFlags dir)) @ map (env_entry C) flags"

definition mount_state_of :: "config \<Rightarrow> string \<Rightarrow> rcloneArgs \<Rightarrow> string \<Rightarrow> volumeState" where
  "mount_state_of C volumeID a stagingPath =
     \<lparr>VolumeID = volumeID, StagingPath = stagingPath,
      Args = mount_args C volumeID a stagingPath @
        (if arg_configData a \<noteq> [] then [''--config'', Join [volumeDir C volumeID, ''rclone.conf'']] else [''--config='']),
      Env = mount_env C (volumeDir C volumeID) (arg_flags a),
      Users = None, Targets = None, Mounted = False\<rparr>"

definition mount :: "config \<Rightarrow> environment \<Rightarrow> string \<Rightarrow> rcloneArgs \<Rightarrow> string \<Rightarrow> go_error option node_op" where
  "mount C E volumeID a stagingPath =
     (let dir = volumeDir C volumeID;
          st = mount_state_of C volumeID a stagingPath
      in check_err (err_op E (MkdirAll dir 0x1C0)) Some (
         check_err (if arg_configData a \<noteq> [] then err_op E (WriteFile (Join [dir, ''rclone.conf'']) (arg_configData a) 0x180)
                    else ret None) Some (
         check_err (err_op E (MkdirAll stagingPath 0x1E8)) Some (
         check_err (saveState C E st) Some (do {
           err \<leftarrow> startRclone C E st;
           case err of
             Some e \<Rightarrow> do { _ \<leftarrow> err_op E (Remove (statePath C volumeID)); ret (Some e) }
           | None \<Rightarrow> saveState C E (st\<lparr>Mounted := True\<rparr>) })))))"

section \<open>Waiting for uploads\<close>

text \<open>
  A request is answered, with an error or a reply. The client of \<^verbatim>\<open>RcloneRPC\<close> sets no timeout, so a
  request to an rclone that accepts it and stays silent does not return, and the call with it. Such a
  run is a run of the model up to that request, so it does nothing that a monitor excludes; what is
  said of results and of the length of the wait presumes that every request returns.
\<close>

definition RcloneRPC :: "environment \<Rightarrow> string \<Rightarrow> string \<Rightarrow> string \<Rightarrow> (go_error + string) node_op" where
  "RcloneRPC E socket path input =
     (case new_request E ''POST'' (''http://rclone/'' @ path) of
        Some e \<Rightarrow> ret (Inl (Errorf (''cannot create HTTP request: '' @ Error e)))
      | None \<Rightarrow> do {
          resp \<leftarrow> http_op E socket (''http://rclone/'' @ path) input;
          ret (case resp of
                 Inl e \<Rightarrow> Inl (Errorf (''cannot send HTTP request: '' @ Error e))
               | Inr (Inl e) \<Rightarrow> Inl (Errorf (''cannot read HTTP response: '' @ Error e))
               | Inr (Inr body) \<Rightarrow> Inr body) })"

text \<open>Whether a reply says that there is something left to transfer.\<close>

definition core_busy :: "environment \<Rightarrow> string \<Rightarrow> bool" where
  "core_busy E out =
     (case json_scan E out of
        None \<Rightarrow> False
      | Some v \<Rightarrow> (case unmarshal_core_stats v of None \<Rightarrow> False | Some ks \<Rightarrow> ks \<noteq> []))"

definition vfs_busy :: "environment \<Rightarrow> string \<Rightarrow> bool" where
  "vfs_busy E out =
     (case json_scan E out of
        None \<Rightarrow> False
      | Some v \<Rightarrow> (case unmarshal_vfs_stats v of None \<Rightarrow> False | Some (progress, queued) \<Rightarrow> 0 < progress \<or> 0 < queued))"

text \<open>The body of the loop; the result tells whether the loop continues.\<close>

definition poll :: "environment \<Rightarrow> string \<Rightarrow> bool node_op" where
  "poll E socket = do {
     out \<leftarrow> RcloneRPC E socket ''core/stats'' ''{}'';
     if (case out of Inr body \<Rightarrow> core_busy E body | Inl _ \<Rightarrow> False) then ret True
     else do {
       out \<leftarrow> RcloneRPC E socket ''vfs/stats'' ''{}'';
       ret (case out of Inr body \<Rightarrow> vfs_busy E body | Inl _ \<Rightarrow> False) } }"

definition hour :: nat where
  "hour = 3600 * 1000000000"

definition poll_pause :: nat where
  "poll_pause = 5 * 1000000000"

lemma clock_op_simps [simp]:
  "clock (snd (run_state (emit a ev) w)) = clock w"
  "clock (snd (run_state (now_op E) w)) = fst (run_state (now_op E) w)"
  "clock w \<le> fst (run_state (now_op E) w)"
  "clock (snd (run_state (sleep_op d) w)) = clock w + d"
  by (simp_all add: emit_def now_op_def sleep_op_def Let_def)

lemma clock_poll [simp]: "clock (snd (run_state (poll E socket) w)) = clock w"
  by (simp add: poll_def RcloneRPC_def http_op_def emit_def run_simps Let_def split_beta split: option.split)

text \<open>
  The loop ends because the clock passes the deadline: every round that continues sleeps.
\<close>

function wait_loop :: "environment \<Rightarrow> string \<Rightarrow> nat \<Rightarrow> node \<Rightarrow> node" where
  "wait_loop E socket deadline w =
     (let now = run_state (now_op E) w
      in if fst now < deadline
         then let busy = run_state (poll E socket) (snd now)
              in if fst busy then wait_loop E socket deadline (snd (run_state (sleep_op poll_pause) (snd busy)))
                 else snd busy
         else snd now)"
  by pat_completeness auto
termination
proof (relation "measure (\<lambda>(E, socket, deadline, w). deadline - clock w)", goal_cases)
  case 1
  show ?case by simp
next
  case (2 E socket deadline w x xa)
  have "clock w \<le> fst x" by (simp add: 2(1))
  then have "clock w < deadline" using 2(2) by simp
  moreover have "clock (snd (run_state (sleep_op poll_pause) (snd xa))) = fst x + poll_pause"
    by (simp add: 2(1) 2(3))
  ultimately show ?case
    using \<open>clock w \<le> fst x\<close> by (simp add: poll_pause_def)
qed

declare wait_loop.simps [simp del]

definition waitForUploads :: "config \<Rightarrow> environment \<Rightarrow> string \<Rightarrow> unit node_op" where
  "waitForUploads C E volumeID = do {
     let socket = rcSocket C volumeID;
     fi \<leftarrow> int_op E (Stat socket);
     case fi of
       Inl _ \<Rightarrow> ret ()
     | Inr _ \<Rightarrow> do {
         t \<leftarrow> now_op E;
         State (\<lambda>w. ((), wait_loop E socket (t + hour) w)) } }"

section \<open>Taking and leaving a mount\<close>

definition unmount :: "config \<Rightarrow> environment \<Rightarrow> string \<Rightarrow> string \<Rightarrow> go_error option node_op" where
  "unmount C E i mountPoint = do {
     waitForUploads C E i;
     check_err (detach E mountPoint) Some (do {
       stopScope E i;
       check_err (if mountPoint = mountPath C i
                  then do {
                    err \<leftarrow> err_op E (Remove mountPoint);
                    ret (case err of Some e \<Rightarrow> if IsNotExist e then None else Some e | None \<Rightarrow> None) }
                  else ret None) Some (
       remove_all_op E (volumeDir C i)) }) }"

definition release :: "config \<Rightarrow> environment \<Rightarrow> volumeState \<Rightarrow> string \<Rightarrow> go_error option node_op" where
  "release C E st user =
     (let st' = st\<lparr>Users := delete_from (Users st) user\<rparr>
      in if entries (Users st') \<noteq> [] then saveState C E st'
         else unmount C E (VolumeID st') (StagingPath st'))"

definition mountRclone :: "config \<Rightarrow> environment \<Rightarrow> string \<Rightarrow> rcloneArgs \<Rightarrow> go_error option node_op" where
  "mountRclone C E i a =
     check_err (detach E (mountPath C i)) (\<lambda>e. Some (Status Internal (Error e))) (do {
       r \<leftarrow> mount C E i a (mountPath C i);
       ret (case r of
              None \<Rightarrow> None
            | Some e \<Rightarrow> Some (if IsPermission e then Status PermissionDenied (Error e)
                              else if Contains (Error e) ''invalid argument'' then Status InvalidArgument (Error e)
                              else Status Internal (Error e))) })"

text \<open>The last steps of \<^verbatim>\<open>acquire\<close>: the user is recorded.\<close>

definition add_user :: "config \<Rightarrow> environment \<Rightarrow> volumeState \<Rightarrow> string \<Rightarrow> (go_error + volumeState) node_op" where
  "add_user C E st user =
     (let st' = st\<lparr>Users := store_in (Users st) user ()\<rparr>
      in check_err (saveState C E st') (\<lambda>e. Inl (Status Internal (Error e))) (ret (Inr st')))"

text \<open>The two ways to take a mount: a new one is mounted, a known one is checked.\<close>

definition acquire_new :: "config \<Rightarrow> environment \<Rightarrow> string \<Rightarrow> rcloneArgs \<Rightarrow> string \<Rightarrow> (go_error + volumeState) node_op" where
  "acquire_new C E i a user =
     check_err (mountRclone C E i a) Inl (do {
       r \<leftarrow> loadState C E i;
       case r of
         Inl e \<Rightarrow> ret (Inl (Status Internal (Error e)))
       | Inr st \<Rightarrow> add_user C E st user })"

definition acquire_known :: "config \<Rightarrow> environment \<Rightarrow> volumeState \<Rightarrow> string \<Rightarrow> (go_error + volumeState) node_op" where
  "acquire_known C E st user = do {
     s \<leftarrow> check C E st;
     case s of
       Inl e \<Rightarrow> ret (Inl (Status Unavailable (Error e)))
     | Inr s \<Rightarrow>
         if s \<noteq> Live
         then check_err (remount C E st) (\<lambda>e. Inl (Status Internal (Error e)))
                (add_user C E (st\<lparr>Mounted := True\<rparr>) user)
         else add_user C E st user }"

definition acquire :: "config \<Rightarrow> environment \<Rightarrow> string \<Rightarrow> rcloneArgs \<Rightarrow> string \<Rightarrow> (go_error + volumeState) node_op" where
  "acquire C E i a user = do {
     r \<leftarrow> loadState C E i;
     case r of
       Inl e \<Rightarrow> if IsNotExist e then acquire_new C E i a user else ret (Inl (Status Internal (Error e)))
     | Inr st \<Rightarrow> acquire_known C E st user }"

section \<open>Reconciling\<close>

text \<open>
  The loops over targets and users; the result has the entries that stay, and whether one was
  deleted.
\<close>

fun rebind_targets :: "environment \<Rightarrow> string \<Rightarrow> bool gomap \<Rightarrow> (bool gomap \<times> bool) node_op" where
  "rebind_targets E stagingPath [] = ret ([], False)"
| "rebind_targets E stagingPath ((target, readOnly) # rest) = do {
     r \<leftarrow> probe_op E target;
     _ \<leftarrow> (if fst r = Dead
          then check_err (detach E target) (\<lambda>_. ())
                 (do { _ \<leftarrow> err_op E (Bind stagingPath target readOnly); ret () })
          else ret ());
     (kept, changed) \<leftarrow> rebind_targets E stagingPath rest;
     ret (if fst r = Gone then (kept, True) else ((target, readOnly) # kept, changed)) }"

fun drop_gone_users :: "environment \<Rightarrow> unit gomap \<Rightarrow> (unit gomap \<times> bool) node_op" where
  "drop_gone_users E [] = ret ([], False)"
| "drop_gone_users E (user # rest) = do {
     r \<leftarrow> probe_op E (fst user);
     (kept, changed) \<leftarrow> drop_gone_users E rest;
     ret (if fst r = Gone then (kept, True) else (user # kept, changed)) }"

text \<open>The part of \<^verbatim>\<open>reconcile\<close> after its switch.\<close>

definition reconcile_users :: "config \<Rightarrow> environment \<Rightarrow> string \<Rightarrow> volumeState \<Rightarrow> unit node_op" where
  "reconcile_users C E volumeID st = do {
     (targets, changed) \<leftarrow> rebind_targets E (StagingPath st) (entries (Targets st));
     (users, changed') \<leftarrow> drop_gone_users E (entries (Users st));
     if users = []
     then do { _ \<leftarrow> unmount C E volumeID (StagingPath st); ret () }
     else if changed \<or> changed'
     then do {
       _ \<leftarrow> saveState C E (st\<lparr>Targets := map_option (\<lambda>_. targets) (Targets st),
                              Users := map_option (\<lambda>_. users) (Users st)\<rparr>);
       ret () }
     else ret () }"

text \<open>The part after the state was read.\<close>

definition reconcile_known :: "config \<Rightarrow> environment \<Rightarrow> string \<Rightarrow> volumeState \<Rightarrow> unit node_op" where
  "reconcile_known C E volumeID st = do {
     s \<leftarrow> check C E st;
     case s of
       Inl _ \<Rightarrow> ret ()
     | Inr s \<Rightarrow>
         (if s = Live then reconcile_users C E volumeID st
          else if s = Gone then do {
            stopScope E volumeID;
            _ \<leftarrow> remove_all_op E (volumeDir C volumeID);
            ret () }
          else if s = Other \<and> \<not> Mounted st then ret ()
          else check_err (remount C E st) (\<lambda>_. ()) (reconcile_users C E volumeID st)) }"

definition reconcile :: "config \<Rightarrow> environment \<Rightarrow> string \<Rightarrow> unit node_op" where
  "reconcile C E volumeID = do {
     r \<leftarrow> loadState C E volumeID;
     case r of
       Inl _ \<Rightarrow> ret ()
     | Inr st \<Rightarrow> reconcile_known C E volumeID st }"

end
