(* ===== verification/Node_Server.thy ===== *)
theory Node_Server
  imports Mounts
begin

text \<open>
  The node service, \<^verbatim>\<open>pkg/rclone/nodeserver.go\<close>. A handler whose answer carries nothing returns an
  option, \<open>None\<close> for success.
\<close>

section \<open>The handlers\<close>

datatype node_capability = STAGE_UNSTAGE_VOLUME

definition NodeGetInfo :: "string \<Rightarrow> string" where
  "NodeGetInfo nodeID = nodeID"

definition NodeGetCapabilities :: "node_capability list" where
  "NodeGetCapabilities = [STAGE_UNSTAGE_VOLUME]"

text \<open>\<^verbatim>\<open>defer ns.sup.Unlock(id)\<close>, with what follows it in its function.\<close>

definition defer_unlock :: "string \<Rightarrow> 'r node_op \<Rightarrow> 'r node_op" where
  "defer_unlock i body = do {
     r \<leftarrow> body;
     unit_op (Unlock i);
     ret r }"

definition internal :: "go_error \<Rightarrow> go_error option" where
  "internal e = Some (Status Internal (Error e))"

definition NodeStageVolume :: "config \<Rightarrow> environment \<Rightarrow> kube \<Rightarrow> stage_request \<Rightarrow> go_error option node_op" where
  "NodeStageVolume C E K req =
     (let volumeID = ns_volume_id req; stagingPath = ns_staging_path req
      in case (if volumeID = [] \<or> stagingPath = [] then None else ns_capability req) of
           None \<Rightarrow> ret (Some (Status InvalidArgument
                     ''volume ID, staging target path and volume capability are required''))
         | Some capability \<Rightarrow> do {
             staged \<leftarrow> lockMountOf C E stagingPath;
             case staged of
               Some st \<Rightarrow> do { unit_op (Unlock (VolumeID st)); ret None }
             | None \<Rightarrow>
                 (case volume_args C capability (ns_context req)
                         (case getSecret K ''rclone-secret'' of Inr s \<Rightarrow> Some s | Inl _ \<Rightarrow> None) of
                    Inl e \<Rightarrow> ret (Some e)
                  | Inr a \<Rightarrow>
                      check_err (err_op E (MkdirAll stagingPath 0x1E8)) internal (do {
                        let i = mountID C volumeID a;
                        unit_op (Lock i);
                        defer_unlock i (do {
                          r \<leftarrow> acquire C E i a stagingPath;
                          ret (case r of Inl e \<Rightarrow> Some e | Inr _ \<Rightarrow> None) }) })) })"

definition NodeUnstageVolume :: "config \<Rightarrow> environment \<Rightarrow> unstage_request \<Rightarrow> go_error option node_op" where
  "NodeUnstageVolume C E req =
     (let stagingPath = nu_staging_path req
      in if nu_volume_id req = [] \<or> stagingPath = []
         then ret (Some (Status InvalidArgument ''volume ID and staging target path are required''))
         else do {
           found \<leftarrow> lockMountOf C E stagingPath;
           case found of
             None \<Rightarrow> ret None
           | Some st \<Rightarrow>
               defer_unlock (VolumeID st)
                 (check_err (release C E st stagingPath) internal (ret None)) })"

text \<open>The part of \<^verbatim>\<open>NodePublishVolume\<close> after the mount is found, under its lock.\<close>

definition publish :: "config \<Rightarrow> environment \<Rightarrow> volumeState \<Rightarrow> string \<Rightarrow> string \<Rightarrow> bool \<Rightarrow> go_error option node_op" where
  "publish C E st volumeID targetPath readOnly = do {
     up \<leftarrow> live E (StagingPath st);
     if \<not> up
     then ret (Some (Status FailedPrecondition
            (''volume '' @ volumeID @ '' is not mounted at '' @ StagingPath st @ '', or does not answer'')))
     else check_err (saveState C E (st\<lparr>Targets := store_in (Targets st) targetPath readOnly\<rparr>)) internal (do {
       bound \<leftarrow> live E targetPath;
       if bound then ret None
       else check_err (detach E targetPath) internal (
            check_err (err_op E (MkdirAll targetPath 0x1E8)) internal (
            check_err (err_op E (Bind (StagingPath st) targetPath readOnly)) internal (
            ret None))) }) }"

definition NodePublishVolume :: "config \<Rightarrow> environment \<Rightarrow> publish_request \<Rightarrow> go_error option node_op" where
  "NodePublishVolume C E req =
     (let volumeID = np_volume_id req; stagingPath = np_staging_path req; targetPath = np_target_path req
      in case (if volumeID = [] \<or> targetPath = [] then None else np_capability req) of
           None \<Rightarrow> ret (Some (Status InvalidArgument
                     ''volume ID, target path and volume capability are required''))
         | Some capability \<Rightarrow>
             let readOnly = (np_readonly req \<or> isReadOnly capability)
             in if stagingPath = []
                then if gget (np_context req) ''csi.storage.k8s.io/ephemeral'' \<noteq> ''true''
                     then ret (Some (Status InvalidArgument ''staging target path is required''))
                     else (case ephemeralArgs C capability req of
                             Inl e \<Rightarrow> ret (Some e)
                           | Inr a \<Rightarrow> do {
                               let i = mountID C volumeID a;
                               unit_op (Lock i);
                               defer_unlock i (do {
                                 r \<leftarrow> acquire C E i a targetPath;
                                 case r of
                                   Inl e \<Rightarrow> ret (Some e)
                                 | Inr st \<Rightarrow> publish C E st volumeID targetPath readOnly }) })
                else do {
                  found \<leftarrow> lockMountOf C E stagingPath;
                  case found of
                    None \<Rightarrow> ret (Some (Status FailedPrecondition
                              (''volume '' @ volumeID @ '' is not staged at '' @ stagingPath)))
                  | Some st \<Rightarrow>
                      defer_unlock (VolumeID st) (publish C E st volumeID targetPath readOnly) })"

text \<open>
  The part of \<^verbatim>\<open>NodeUnpublishVolume\<close> after the mount was looked for: the target is unmounted and
  removed, and leaves the state of the mount if there is one.
\<close>

definition unpublish :: "config \<Rightarrow> environment \<Rightarrow> volumeState option \<Rightarrow> string \<Rightarrow> go_error option node_op" where
  "unpublish C E found targetPath =
     check_err (detach E targetPath) internal (
     check_err (do {
         err \<leftarrow> err_op E (Remove targetPath);
         ret (case err of Some e \<Rightarrow> if IsNotExist e then None else Some e | None \<Rightarrow> None) }) internal (
     case found of
       None \<Rightarrow> ret None
     | Some st \<Rightarrow>
         (let st' = st\<lparr>Targets := delete_from (Targets st) targetPath\<rparr>
          in check_err (if ghas (entries (Users st')) targetPath then release C E st' targetPath
                        else saveState C E st') internal (ret None))))"

definition NodeUnpublishVolume :: "config \<Rightarrow> environment \<Rightarrow> unpublish_request \<Rightarrow> go_error option node_op" where
  "NodeUnpublishVolume C E req =
     (let targetPath = nup_target_path req
      in if nup_volume_id req = [] \<or> targetPath = []
         then ret (Some (Status InvalidArgument ''volume ID and target path are required''))
         else do {
           found \<leftarrow> lockMountOf C E targetPath;
           case found of
             None \<Rightarrow> unpublish C E None targetPath
           | Some st \<Rightarrow> defer_unlock (VolumeID st) (unpublish C E (Some st) targetPath) })"

end
