(* ===== verification/Node_Monitor.thy ===== *)
theory Node_Monitor
  imports Node_Server
begin

text \<open>
  Safety of the node plugin is stated with monitors: automata that read the events of a run
  and have no next state where an event is not permitted. A run is safe when the monitor
  reads all of it. This theory has the rules with which programs are run against a monitor, and
  the interface of a monitor that does not look at reading files, the clock and rclone's
  statistics, with what follows for the operations that do nothing else.
\<close>

section \<open>Running a program against a monitor\<close>

fun scan :: "('s \<Rightarrow> event \<Rightarrow> 's option) \<Rightarrow> 's \<Rightarrow> event list \<Rightarrow> 's option" where
  "scan step s [] = Some s"
| "scan step s (ev # evs) = (case step s ev of None \<Rightarrow> None | Some s' \<Rightarrow> scan step s' evs)"

text \<open>Where the monitor is in a state for which \<open>Q\<close> holds, with the result, after the program.\<close>

definition safe :: "('s \<Rightarrow> event \<Rightarrow> 's option) \<Rightarrow> 's \<Rightarrow> 'a node_op \<Rightarrow> ('a \<Rightarrow> 's \<Rightarrow> bool) \<Rightarrow> bool" where
  "safe step s m Q \<longleftrightarrow> emits m (\<lambda>x tr. \<exists>s'. scan step s tr = Some s' \<and> Q x s')"

lemma scan_append: "scan step s (t @ u) = (case scan step s t of None \<Rightarrow> None | Some s' \<Rightarrow> scan step s' u)"
  by (induction step s t rule: scan.induct) (simp_all split: option.split)

lemma safeD: "safe step s m Q \<Longrightarrow> \<exists>s'. scan step s (trace m w) = Some s' \<and> Q (result m w) s'"
  unfolding safe_def by (drule emitsD)

lemma safe_mono: "safe step s m Q \<Longrightarrow> (\<And>x s'. Q x s' \<Longrightarrow> R x s') \<Longrightarrow> safe step s m R"
  unfolding safe_def by (erule emits_mono) blast

named_theorems safe_rules \<open>backwards rules for safe\<close>

lemma safe_return [safe_rules]: "Q x s \<Longrightarrow> safe step s (ret x) Q"
  unfolding safe_def by (rule emits_return) simp

lemma safe_bind [safe_rules]:
  assumes "safe step s m (\<lambda>x s'. safe step s' (f x) Q)"
  shows "safe step s (State_Monad.bind m f) Q"
  unfolding safe_def
proof (rule emits_bind, rule emits_mono [OF assms [unfolded safe_def]], elim exE conjE)
  fix x t s'
  assume t: "scan step s t = Some s'" and f: "emits (f x) (\<lambda>x tr. \<exists>s''. scan step s' tr = Some s'' \<and> Q x s'')"
  show "emits (f x) (\<lambda>y u. \<exists>s''. scan step s (t @ u) = Some s'' \<and> Q y s'')"
    by (rule emits_mono [OF f]) (simp add: scan_append t)
qed

definition next_ok :: "('s \<Rightarrow> event \<Rightarrow> 's option) \<Rightarrow> 's \<Rightarrow> event \<Rightarrow> ('s \<Rightarrow> bool) \<Rightarrow> bool" where
  "next_ok step s ev Q \<longleftrightarrow> (case step s ev of None \<Rightarrow> False | Some s' \<Rightarrow> Q s')"

lemma next_ok_mono: "next_ok step s ev P \<Longrightarrow> (\<And>s'. P s' \<Longrightarrow> Q s') \<Longrightarrow> next_ok step s ev Q"
  by (simp add: next_ok_def split: option.splits)

lemma next_ok_scan: "next_ok step s ev (Q x) \<Longrightarrow> \<exists>s'. scan step s [ev] = Some s' \<and> Q x s'"
  by (simp add: next_ok_def split: option.splits)

lemma safe_err [safe_rules]: "(\<And>r. next_ok step s (ErrEv c r) (Q r)) \<Longrightarrow> safe step s (err_op E c) Q"
  unfolding safe_def by (rule emits_err) (rule next_ok_scan)

lemma safe_unit [safe_rules]: "next_ok step s (UnitEv u) (Q ()) \<Longrightarrow> safe step s (unit_op u) Q"
  unfolding safe_def by (rule emits_unit) (rule next_ok_scan)

lemma safe_int [safe_rules]: "(\<And>r. next_ok step s (IntEv c r) (Q r)) \<Longrightarrow> safe step s (int_op E c) Q"
  unfolding safe_def by (rule emits_int) (rule next_ok_scan)

lemma safe_load [safe_rules]:
  "(\<And>r. (\<exists>h. ans_load E h st i = r) \<Longrightarrow> next_ok step s (LoadEv st i r) (Q r)) \<Longrightarrow>
   safe step s (load_op E st i) Q"
  unfolding safe_def by (rule emits_load) (rule next_ok_scan)

lemma safe_load_all [safe_rules]:
  "(\<And>sts errs. next_ok step s (LoadAllEv st sts errs) (Q (sts, errs))) \<Longrightarrow> safe step s (load_all_op E st) Q"
  unfolding safe_def by (rule emits_load_all) (rule next_ok_scan)

lemma safe_probe [safe_rules]:
  "(\<And>m e. next_ok step s (ProbeEv p m e) (Q (m, e))) \<Longrightarrow> safe step s (probe_op E p) Q"
  unfolding safe_def by (rule emits_probe) (rule next_ok_scan)

lemma safe_status [safe_rules]: "(\<And>m. next_ok step s (StatusEv p m) (Q m)) \<Longrightarrow> safe step s (status_op E p) Q"
  unfolding safe_def by (rule emits_status) (rule next_ok_scan)

lemma safe_pid [safe_rules]: "(\<And>n. next_ok step s (PidEv i n) (Q n)) \<Longrightarrow> safe step s (pid_op E i) Q"
  unfolding safe_def by (rule emits_pid) (rule next_ok_scan)

lemma safe_environ [safe_rules]: "(\<And>vs. next_ok step s (EnvironEv vs) (Q vs)) \<Longrightarrow> safe step s (environ_op E) Q"
  unfolding safe_def by (rule emits_environ) (rule next_ok_scan)

lemma safe_read [safe_rules]: "(\<And>d. next_ok step s (ReadEv fd d) (Q d)) \<Longrightarrow> safe step s (read_op E fd) Q"
  unfolding safe_def by (rule emits_read) (rule next_ok_scan)

lemma safe_remove_all [safe_rules]:
  "(\<And>g r. next_ok step s (RemoveAllEv d g r) (Q r)) \<Longrightarrow> safe step s (remove_all_op E d) Q"
  unfolding safe_def by (rule emits_remove_all) (rule next_ok_scan)

lemma safe_http [safe_rules]: "(\<And>r. next_ok step s (HttpEv k u b r) (Q r)) \<Longrightarrow> safe step s (http_op E k u b) Q"
  unfolding safe_def by (rule emits_http) (rule next_ok_scan)

lemma safe_now [safe_rules]: "(\<And>t. next_ok step s (NowEv t) (Q t)) \<Longrightarrow> safe step s (now_op E) Q"
  unfolding safe_def by (rule emits_now) (rule next_ok_scan)

lemma safe_sleep [safe_rules]: "next_ok step s (SleepEv d) (Q ()) \<Longrightarrow> safe step s (sleep_op d) Q"
  unfolding safe_def by (rule emits_sleep) (rule next_ok_scan)

lemma safe_if [safe_rules]:
  "(b \<Longrightarrow> safe step s m Q) \<Longrightarrow> (\<not> b \<Longrightarrow> safe step s n Q) \<Longrightarrow> safe step s (if b then m else n) Q"
  by simp

lemma safe_case_option [safe_rules]:
  "(r = None \<Longrightarrow> safe step s m Q) \<Longrightarrow> (\<And>x. r = Some x \<Longrightarrow> safe step s (f x) Q) \<Longrightarrow>
   safe step s (case r of None \<Rightarrow> m | Some x \<Rightarrow> f x) Q"
  by (cases r) simp_all

lemma safe_case_sum [safe_rules]:
  "(\<And>e. r = Inl e \<Longrightarrow> safe step s (f e) Q) \<Longrightarrow> (\<And>x. r = Inr x \<Longrightarrow> safe step s (g x) Q) \<Longrightarrow>
   safe step s (case r of Inl e \<Rightarrow> f e | Inr x \<Rightarrow> g x) Q"
  by (cases r) simp_all

lemma safe_case_prod [safe_rules]:
  "(\<And>x y. r = (x, y) \<Longrightarrow> safe step s (f x y) Q) \<Longrightarrow> safe step s (case r of (x, y) \<Rightarrow> f x y) Q"
  by (cases r) simp

lemma safe_let [safe_rules]: "(\<And>x. x = t \<Longrightarrow> safe step s (f x) Q) \<Longrightarrow> safe step s (let x = t in f x) Q"
  by simp

lemma safe_check_err [safe_rules]:
  assumes "safe step s m (\<lambda>r s'. (\<forall>e. r = Some e \<longrightarrow> Q (h e) s') \<and> (r = None \<longrightarrow> safe step s' k Q))"
  shows "safe step s (check_err m h k) Q"
  unfolding check_err_def
  by (rule safe_bind, rule safe_mono [OF assms]) (auto intro!: safe_rules)

section \<open>Monitors that ignore reading\<close>

fun quiet :: "event \<Rightarrow> bool" where
  "quiet (IntEv (Start _ _ _ _ _) _) = False"
| "quiet (IntEv _ _) = True"
| "quiet (UnitEv (Close _)) = True"
| "quiet (EnvironEv _) = True"
| "quiet (ReadEv _ _) = True"
| "quiet (HttpEv _ _ _ _) = True"
| "quiet (NowEv _) = True"
| "quiet (SleepEv _) = True"
| "quiet (LoadAllEv _ _ _) = True"
| "quiet _ = False"

text \<open>A program that emits quiet events only.\<close>

abbreviation emits_quiet :: "'a node_op \<Rightarrow> bool" where
  "emits_quiet m \<equiv> emits m (\<lambda>_ tr. list_all quiet tr)"

lemma readLog_quiet: "emits_quiet (readLog E path offset)"
  unfolding readLog_def Let_def by (intro emits_rules) simp_all

lemma poll_quiet: "emits_quiet (poll E socket)"
  unfolding poll_def RcloneRPC_def by (intro emits_rules) simp_all

lemma loadStates_quiet: "emits_quiet (loadStates C E)"
  unfolding loadStates_def by (intro emits_rules) simp_all

end
