(* ===== verification/State_Files.thy ===== *)
theory State_Files
  imports Node_World
begin

text \<open>
  What the state files hold after a history, the law of a store that returns what was saved, and
  rules to run a program from a given history.
\<close>

section \<open>The contents of the store\<close>

text \<open>
  The state of each mount: saved states replace earlier ones, and a state goes with its file or
  its directory. A state file is written and removed at once or not at all, so that such a call
  leaves the store as it is when it reports an error; a failed removal of the directory may have
  removed the state file or not.
\<close>

type_synonym store_map = "string \<Rightarrow> volumeState option"

fun store_event :: "config \<Rightarrow> store_map \<Rightarrow> event \<Rightarrow> store_map" where
  "store_event C S (ErrEv (Save _ _ st) r) = (if r = None then S(VolumeID st \<mapsto> st) else S)"
| "store_event C S (RemoveAllEv d gone r) = (if r = None \<or> gone then (\<lambda>i. if volumeDir C i = d then None else S i) else S)"
| "store_event C S (ErrEv (Remove p) r) = (if r = None then (\<lambda>i. if statePath C i = p then None else S i) else S)"
| "store_event C S _ = S"

definition stored :: "config \<Rightarrow> event list \<Rightarrow> store_map" where
  "stored C h = foldl (store_event C) Map.empty h"

lemma stored_append [simp]: "stored C (h @ tr) = foldl (store_event C) (stored C h) tr"
  by (simp add: stored_def)

lemma store_event_keyed:
  "(\<And>i st. S i = Some st \<Longrightarrow> VolumeID st = i) \<Longrightarrow> store_event C S ev i = Some st \<Longrightarrow> VolumeID st = i"
  by (induction C S ev rule: store_event.induct) (auto split: if_splits)

lemma stored_keyed: "stored C h i = Some st \<Longrightarrow> VolumeID st = i"
proof (induction h arbitrary: i st rule: rev_induct)
  case Nil
  then show ?case by (simp add: stored_def)
next
  case (snoc ev h)
  from snoc.prems have "store_event C (stored C h) ev i = Some st" by simp
  with snoc.IH show ?case by (rule store_event_keyed)
qed

text \<open>
  A state read back from its file: a map without entries is left out of the file and is nil
  when it is read, and the entries of a map come in any order.
\<close>

definition same_map :: "'v gomap option \<Rightarrow> 'v gomap option \<Rightarrow> bool" where
  "same_map m n \<longleftrightarrow> map_of (entries m) = map_of (entries n) \<and> (m = None \<longleftrightarrow> entries n = [])"

definition read_back :: "volumeState \<Rightarrow> volumeState \<Rightarrow> bool" where
  "read_back st saved \<longleftrightarrow>
     VolumeID st = VolumeID saved \<and> StagingPath st = StagingPath saved \<and> Args st = Args saved \<and> Env st = Env saved
     \<and> Mounted st = Mounted saved \<and> same_map (Users st) (Users saved) \<and> same_map (Targets st) (Targets saved)"

text \<open>
  What the driver relies on of the store (package \<^verbatim>\<open>state\<close>): reading gives what is there, a
  missing state is reported as such, and listing gives every state. So the law is about a node
  whose state files can be read; an unreadable one, which \<^verbatim>\<open>loadStates\<close> logs and skips, is outside
  of it, and inside of the claims that do not assume the law.
\<close>

definition store_law :: "config \<Rightarrow> environment \<Rightarrow> bool" where
  "store_law C E \<longleftrightarrow>
     (\<forall>h i saved. stored C h i = Some saved \<longrightarrow> (\<exists>st. ans_load E h (stateStore C) i = Inr st \<and> read_back st saved))
     \<and> (\<forall>h i. stored C h i = None \<longrightarrow> (\<exists>e. ans_load E h (stateStore C) i = Inl e \<and> IsNotExist e))
     \<and> (\<forall>h. \<forall>st\<in>set (fst (ans_states E h (stateStore C))). \<exists>i saved. stored C h i = Some saved \<and> read_back st saved)
     \<and> (\<forall>h i saved. stored C h i = Some saved \<longrightarrow>
          (\<exists>st\<in>set (fst (ans_states E h (stateStore C))). read_back st saved))"

section \<open>Running a program from a history\<close>

definition runs :: "'a node_op \<Rightarrow> event list \<Rightarrow> ('a \<Rightarrow> event list \<Rightarrow> bool) \<Rightarrow> bool" where
  "runs m h Q \<longleftrightarrow> (\<forall>w. history w = h \<longrightarrow> Q (fst (run_state m w)) (history (snd (run_state m w))))"

named_theorems runs_rules \<open>backwards rules for runs\<close>

lemma runsD: "runs m (history w) Q \<Longrightarrow> Q (result m w) (history (snd (run_state m w)))"
  by (simp add: runs_def result_def)

lemma runs_mono: "runs m h P \<Longrightarrow> (\<And>x h'. P x h' \<Longrightarrow> Q x h') \<Longrightarrow> runs m h Q"
  by (simp add: runs_def)

lemma runs_emits: "emits m P \<Longrightarrow> (\<And>x tr. P x tr \<Longrightarrow> Q x (h @ tr)) \<Longrightarrow> runs m h Q"
  unfolding emits_def runs_def by metis

lemma runs_return [runs_rules]: "Q x h \<Longrightarrow> runs (ret x) h Q"
  by (simp add: runs_def)

lemma runs_bind [runs_rules]: "runs m h (\<lambda>x h'. runs (f x) h' Q) \<Longrightarrow> runs (State_Monad.bind m f) h Q"
  by (auto simp: runs_def run_bind split: prod.split)

lemma runs_emit: "Q (answer h) (h @ [ev (answer h)]) \<Longrightarrow> runs (emit answer ev) h Q"
  by (auto simp: runs_def emit_def Let_def)

lemma runs_err [runs_rules]: "(\<And>r. Q r (h @ [ErrEv c r])) \<Longrightarrow> runs (err_op E c) h Q"
  unfolding err_op_def by (rule runs_emit)

lemma runs_unit [runs_rules]: "Q () (h @ [UnitEv u]) \<Longrightarrow> runs (unit_op u) h Q"
  unfolding unit_op_def by (rule runs_emit)

lemma runs_int [runs_rules]: "(\<And>r. Q r (h @ [IntEv c r])) \<Longrightarrow> runs (int_op E c) h Q"
  unfolding int_op_def by (rule runs_emit)

lemma runs_remove_all [runs_rules]: "(\<And>g r. Q r (h @ [RemoveAllEv d g r])) \<Longrightarrow> runs (remove_all_op E d) h Q"
  unfolding remove_all_op_def
  by (rule runs_bind, rule runs_emit) (auto intro: runs_return split: prod.splits)

lemma runs_load [runs_rules]:
  "Q (ans_load E h s i) (h @ [LoadEv s i (ans_load E h s i)]) \<Longrightarrow> runs (load_op E s i) h Q"
  unfolding load_op_def by (rule runs_emit)

lemma runs_load_all [runs_rules]:
  "(\<And>sts errs. ans_states E h s = (sts, errs) \<Longrightarrow> Q (sts, errs) (h @ [LoadAllEv s sts errs])) \<Longrightarrow> runs (load_all_op E s) h Q"
  unfolding load_all_op_def by (rule runs_emit) (simp split: prod.split)

lemma runs_probe [runs_rules]: "(\<And>s e. Q (s, e) (h @ [ProbeEv p s e])) \<Longrightarrow> runs (probe_op E p) h Q"
  unfolding probe_op_def by (rule runs_emit) (simp split: prod.split)

lemma runs_status [runs_rules]: "(\<And>s. Q s (h @ [StatusEv p s])) \<Longrightarrow> runs (status_op E p) h Q"
  unfolding status_op_def by (rule runs_emit)

lemma runs_pid [runs_rules]: "(\<And>n. Q n (h @ [PidEv i n])) \<Longrightarrow> runs (pid_op E i) h Q"
  unfolding pid_op_def by (rule runs_emit)

lemma runs_if [runs_rules]: "(b \<Longrightarrow> runs m h Q) \<Longrightarrow> (\<not> b \<Longrightarrow> runs n h Q) \<Longrightarrow> runs (if b then m else n) h Q"
  by simp

lemma runs_case_option [runs_rules]:
  "(r = None \<Longrightarrow> runs m h Q) \<Longrightarrow> (\<And>x. r = Some x \<Longrightarrow> runs (f x) h Q) \<Longrightarrow>
   runs (case r of None \<Rightarrow> m | Some x \<Rightarrow> f x) h Q"
  by (cases r) simp_all

lemma runs_case_sum [runs_rules]:
  "(\<And>e. r = Inl e \<Longrightarrow> runs (f e) h Q) \<Longrightarrow> (\<And>x. r = Inr x \<Longrightarrow> runs (g x) h Q) \<Longrightarrow>
   runs (case r of Inl e \<Rightarrow> f e | Inr x \<Rightarrow> g x) h Q"
  by (cases r) simp_all

lemma runs_case_prod [runs_rules]:
  "(\<And>x y. r = (x, y) \<Longrightarrow> runs (f x y) h Q) \<Longrightarrow> runs (case r of (x, y) \<Rightarrow> f x y) h Q"
  by (cases r) simp

lemma runs_check_err [runs_rules]:
  assumes "runs m h (\<lambda>r h'. (\<forall>e. r = Some e \<longrightarrow> Q (f e) h') \<and> (r = None \<longrightarrow> runs k h' Q))"
  shows "runs (check_err m f k) h Q"
  unfolding check_err_def
  by (rule runs_bind, rule runs_mono [OF assms]) (auto intro!: runs_rules)

end
