(* ===== verification/Node_Example.thy ===== *)
theory Node_Example
  imports State_Files
begin

text \<open>
  A node on which every call succeeds, as a concrete environment: state files keep what was
  saved last until their directory is removed, a path is mounted from the start of rclone or
  the bind at it to its unmount, and rclone has no socket. The theorems about every
  environment are applied to it.
\<close>

definition not_found :: go_error where
  "not_found = SysError \<lparr>err_text = ''file does not exist'', err_not_exist = True, err_permission = False,
     err_eperm = False, err_hung = False\<rparr>"

fun saved_ids :: "event list \<Rightarrow> string list" where
  "saved_ids [] = []"
| "saved_ids (ErrEv (Save _ _ st) None # h) = List.insert (VolumeID st) (saved_ids h)"
| "saved_ids (_ # h) = saved_ids h"

fun mounted_at :: "event list \<Rightarrow> string \<Rightarrow> bool" where
  "mounted_at [] p = False"
| "mounted_at (IntEv (Start _ _ _ q _) (Inr _) # h) p = (p = q \<or> mounted_at h p)"
| "mounted_at (ErrEv (Bind _ q _) None # h) p = (p = q \<or> mounted_at h p)"
| "mounted_at (ErrEv (Unmount q) None # h) p = (p \<noteq> q \<and> mounted_at h p)"
| "mounted_at (_ # h) p = mounted_at h p"

text \<open>What reading a state file gives.\<close>

definition omitempty :: "'v gomap option \<Rightarrow> 'v gomap option" where
  "omitempty m = (if entries m = [] then None else m)"

definition reread :: "volumeState \<Rightarrow> volumeState" where
  "reread st = st\<lparr>Users := omitempty (Users st), Targets := omitempty (Targets st)\<rparr>"

lemma read_back_reread: "read_back (reread st) st"
  by (cases "Users st"; cases "Targets st") (auto simp: read_back_def reread_def same_map_def omitempty_def)

definition sim_env :: "config \<Rightarrow> environment" where
  "sim_env C = \<lparr>
     ans_err = (\<lambda>h c. None),
     ans_int = (\<lambda>h c. case c of Start _ _ _ _ _ \<Rightarrow> Inr 7 | _ \<Rightarrow> Inl not_found),
     ans_load = (\<lambda>h s i. case stored C h i of Some st \<Rightarrow> Inr (reread st) | None \<Rightarrow> Inl not_found),
     ans_states = (\<lambda>h s. (map reread (List.map_filter (stored C h) (saved_ids (rev h))), [])),
     ans_probe = (\<lambda>h p. (if mounted_at (rev h) p then Live else Other, None)),
     ans_status = (\<lambda>h p. if mounted_at (rev h) p then Live else Other),
     ans_pid = (\<lambda>h i. 0),
     ans_environ = (\<lambda>h. []),
     ans_read = (\<lambda>h fd. []),
     ans_remove_all = (\<lambda>h d. (True, None)),
     ans_http = (\<lambda>h s u b. Inl not_found),
     ans_delay = (\<lambda>h. 0),
     new_request = (\<lambda>m u. None),
     json_scan = (\<lambda>s. None)\<rparr>"

text \<open>
  What the driver relies on of the store: the state read for a mount is the state of that
  mount. \<^verbatim>\<open>saveState\<close> saves every state under the ID in it.
\<close>

definition store_keyed :: "environment \<Rightarrow> bool" where
  "store_keyed E \<longleftrightarrow> (\<forall>h s i st. ans_load E h s i = Inr st \<longrightarrow> VolumeID st = i)"

lemma sim_env_keyed: "store_keyed (sim_env C)"
  by (auto simp: store_keyed_def sim_env_def stored_keyed reread_def split: option.splits)

lemma saved_ids_stored: "stored C h i = Some st \<Longrightarrow> i \<in> set (saved_ids (rev h))"
proof (induction h arbitrary: i st rule: rev_induct)
  case (snoc ev h)
  then have IH: "stored C h i = Some t \<Longrightarrow> i \<in> set (saved_ids (rev h))" for i t by blast
  have mono: "set (saved_ids t) \<subseteq> set (saved_ids (ev # t))" for t
    by (cases "(ev # t)" rule: saved_ids.cases) auto
  from snoc.prems have "store_event C (stored C h) ev i = Some st" by simp
  then have "i \<in> set (saved_ids (ev # rev h))"
  proof (cases rule: store_event.cases [of "(C, stored C h, ev)"])
    case (1 C' S s j st' r)
    then show ?thesis using snoc.prems IH mono [of "rev h"] by (auto split: if_splits)
  qed (use snoc.prems IH mono [of "rev h"] in \<open>auto split: if_splits\<close>)
  then show ?case by simp
qed (simp add: stored_def)

lemma sim_env_store: "store_law C (sim_env C)"
proof -
  have states: "set (fst (ans_states (sim_env C) h (stateStore C))) = reread ` {st. \<exists>i. stored C h i = Some st}" for h
    using saved_ids_stored [of C h] by (auto simp: sim_env_def List.map_filter_def image_iff) force+
  show ?thesis
    unfolding store_law_def states
    by (auto simp: sim_env_def not_found_def intro: read_back_reread)
qed

end
