(* ===== verification/Uploads.thy ===== *)
theory Uploads
  imports Node_Monitor Node_Example
begin

text \<open>
  Waiting for uploads before an unmount, \<^verbatim>\<open>waitForUploads\<close> of \<^verbatim>\<open>pkg/rclone/rclone.go\<close>: the loop
  returns, within an hour of pauses, and for one of the reasons it is meant to.
\<close>

section \<open>What the loop does\<close>

fun is_sleep :: "event \<Rightarrow> bool" where
  "is_sleep (SleepEv _) = True"
| "is_sleep _ = False"

fun is_http :: "event \<Rightarrow> bool" where
  "is_http (HttpEv _ _ _ _) = True"
| "is_http _ = False"

abbreviation count_ev :: "(event \<Rightarrow> bool) \<Rightarrow> event list \<Rightarrow> nat" where
  "count_ev p tr \<equiv> length (filter p tr)"

text \<open>A reply of rclone that makes the loop wait.\<close>

definition busy_reply :: "environment \<Rightarrow> event \<Rightarrow> bool" where
  "busy_reply E ev = (case ev of
     HttpEv _ url _ (Inr (Inr body)) \<Rightarrow>
       url = ''http://rclone/core/stats'' \<and> core_busy E body \<or> url = ''http://rclone/vfs/stats'' \<and> vfs_busy E body
   | _ \<Rightarrow> False)"

text \<open>The events after the last pause.\<close>

definition last_round :: "event list \<Rightarrow> event list" where
  "last_round tr = rev (takeWhile (\<lambda>ev. \<not> is_sleep ev) (rev tr))"

lemma last_round_append: "last_round (t @ u) = (if list_ex is_sleep u then last_round u else last_round t @ u)"
  unfolding last_round_def
  by (simp add: takeWhile_append list_ex_iff)

lemma last_round_no_sleep: "\<not> list_ex is_sleep u \<Longrightarrow> last_round u = u"
  unfolding last_round_def by (simp add: list_ex_iff takeWhile_eq_all_conv [THEN iffD2])

lemma last_round_sleep: "last_round (ev # t @ SleepEv d # u) = last_round u"
proof -
  have "last_round ((ev # t @ [SleepEv d]) @ u) = last_round u"
    by (subst last_round_append) (simp add: last_round_no_sleep, simp add: last_round_def)
  then show ?thesis by simp
qed

lemma RcloneRPC_events:
  "emits (RcloneRPC E socket path input) (\<lambda>r tr. list_all quiet tr \<and> \<not> list_ex is_sleep tr \<and> count_ev is_http tr \<le> 1 \<and>
     (case r of Inr body \<Rightarrow> tr = [HttpEv socket (''http://rclone/'' @ path) input (Inr (Inr body))]
      | Inl _ \<Rightarrow> \<not> list_ex (busy_reply E) tr))"
  unfolding RcloneRPC_def
  by (intro emits_rules) (auto simp: busy_reply_def split: sum.splits)

text \<open>What one round asks rclone: at most two requests, and the round is busy if a reply says so.\<close>

definition poll_ok :: "environment \<Rightarrow> bool \<Rightarrow> event list \<Rightarrow> bool" where
  "poll_ok E busy tr \<longleftrightarrow> list_all quiet tr \<and> \<not> list_ex is_sleep tr \<and> count_ev is_http tr \<le> 2
     \<and> (busy \<longleftrightarrow> list_ex (busy_reply E) tr)"

lemma poll_events: "emits (poll E socket) (poll_ok E)"
proof -
  have second: "emits (RcloneRPC E socket ''vfs/stats'' ''{}'' \<bind> (\<lambda>out. ret (case out of Inr body \<Rightarrow> vfs_busy E body | Inl _ \<Rightarrow> False)))
      (\<lambda>busy u. poll_ok E busy (t @ u))"
    if "list_all quiet t" "\<not> list_ex is_sleep t" "count_ev is_http t \<le> 1" "\<not> list_ex (busy_reply E) t" for t
    by (rule emits_bind, rule emits_mono [OF RcloneRPC_events], intro emits_return)
      (use that in \<open>auto simp: poll_ok_def busy_reply_def split: sum.splits\<close>)
  show ?thesis
    unfolding poll_def
    by (rule emits_bind, rule emits_mono [OF RcloneRPC_events], intro emits_if emits_return second)
      (auto simp: poll_ok_def busy_reply_def split: sum.splits)
qed

definition rounds_ok :: "environment \<Rightarrow> nat \<Rightarrow> nat \<Rightarrow> event list \<Rightarrow> bool" where
  "rounds_ok E start deadline tr \<longleftrightarrow>
     list_all quiet tr
     \<and> (count_ev is_sleep tr = 0 \<or> start + (count_ev is_sleep tr - 1) * poll_pause < deadline)
     \<and> count_ev is_http tr \<le> 2 * (1 + count_ev is_sleep tr)
     \<and> (\<not> list_ex (busy_reply E) (last_round tr) \<or> (\<exists>t\<ge>deadline. last tr = NowEv t))
     \<and> tr \<noteq> []"

text \<open>The last round, and one before others.\<close>

lemma rounds_last: "poll_ok E False p \<Longrightarrow> rounds_ok E start deadline (NowEv t # p)"
  by (auto simp: poll_ok_def rounds_ok_def last_round_no_sleep busy_reply_def list_ex_iff filter_empty_conv)

lemma rounds_more:
  assumes "poll_ok E busy p" "rounds_ok E (t + poll_pause) deadline u" "start \<le> t" "t < deadline"
  shows "rounds_ok E start deadline (NowEv t # p @ SleepEv poll_pause # u)"
proof -
  have "start + count_ev is_sleep u * poll_pause < deadline"
    using assms(2-4) by (cases "count_ev is_sleep u") (auto simp: rounds_ok_def)
  moreover have "count_ev is_sleep p = 0" using assms(1) by (simp add: poll_ok_def list_ex_iff filter_empty_conv)
  ultimately show ?thesis using assms(1,2) by (simp add: poll_ok_def rounds_ok_def last_round_sleep)
qed

lemma wait_loop_rounds:
  "\<exists>tr. history (wait_loop E socket deadline w) = history w @ tr \<and> rounds_ok E (clock w) deadline tr"
proof (induction E socket deadline w rule: wait_loop.induct)
  case (1 E socket deadline w)
  define now where "now = run_state (now_op E) w"
  define busy where "busy = run_state (poll E socket) (snd now)"
  define rest where "rest = snd (run_state (sleep_op poll_pause) (snd busy))"
  have now: "history (snd now) = history w @ [NowEv (fst now)]" "clock w \<le> fst now" "clock (snd now) = fst now"
    by (simp_all add: now_def) (simp add: now_op_def Let_def)
  obtain p where p: "history (snd busy) = history (snd now) @ p" "poll_ok E (fst busy) p"
    using poll_events [of E socket] unfolding emits_def busy_def by blast
  have rest: "history rest = history (snd busy) @ [SleepEv poll_pause]" "clock rest = fst now + poll_pause"
    by (simp_all add: rest_def busy_def now(3)) (simp add: sleep_op_def)
  have loop: "wait_loop E socket deadline w =
      (if fst now < deadline then if fst busy then wait_loop E socket deadline rest else snd busy else snd now)"
    by (subst wait_loop.simps) (simp add: now_def busy_def rest_def Let_def)
  consider "\<not> fst now < deadline" | "fst now < deadline" "\<not> fst busy" | "fst now < deadline" "fst busy" by blast
  then show ?case
  proof cases
    case 1
    then show ?thesis using loop now by (auto simp: rounds_ok_def)
  next
    case 2
    then have "rounds_ok E (clock w) deadline (NowEv (fst now) # p)" using p(2) by (intro rounds_last) simp
    with 2 show ?thesis using loop now p by auto
  next
    case 3
    from 1 [OF now_def 3(1) busy_def 3(2)]
    obtain u where u: "history (wait_loop E socket deadline rest) = history rest @ u" "rounds_ok E (clock rest) deadline u"
      unfolding rest_def by auto
    then have "rounds_ok E (clock w) deadline (NowEv (fst now) # p @ SleepEv poll_pause # u)"
      using p(2) now(2) rest(2) 3(1) by (intro rounds_more) simp_all
    with 3 show ?thesis using loop u rest p now by auto
  qed
qed

lemma waitForUploads_rounds:
  "emits (waitForUploads C E i) (\<lambda>_ tr.
     (\<exists>e. tr = [IntEv (Stat (rcSocket C i)) (Inl e)])
     \<or> (\<exists>n start u. tr = IntEv (Stat (rcSocket C i)) (Inr n) # NowEv start # u \<and> rounds_ok E start (start + hour) u))"
proof -
  have loop: "emits (State_Monad.bind (now_op E) (\<lambda>t. State (\<lambda>w. ((), wait_loop E socket (t + hour) w))))
     (\<lambda>_ tr. \<exists>start u. tr = NowEv start # u \<and> rounds_ok E start (start + hour) u)" for socket
    unfolding emits_def
  proof
    fix w
    define now where "now = run_state (now_op E) w"
    have now: "history (snd now) = history w @ [NowEv (fst now)]" "clock (snd now) = fst now"
      by (simp_all add: now_def) (simp add: now_op_def Let_def)
    obtain u where "history (wait_loop E socket (fst now + hour) (snd now)) = history (snd now) @ u"
        "rounds_ok E (fst now) (fst now + hour) u"
      using wait_loop_rounds [of E socket "fst now + hour" "snd now"] now(2) by auto
    then show "\<exists>tr. history (snd (run_state (now_op E \<bind> (\<lambda>t. State (\<lambda>w. ((), wait_loop E socket (t + hour) w)))) w)) = history w @ tr
          \<and> (\<exists>start u. tr = NowEv start # u \<and> rounds_ok E start (start + hour) u)"
      using now by (simp add: run_simps split_beta now_def [symmetric])
  qed
  show ?thesis
    unfolding waitForUploads_def Let_def
    by (rule emits_bind, rule emits_int, rule emits_case_sum)
      (auto intro!: emits_return emits_mono [OF loop])
qed

lemma hour_pauses: "(n - 1) * poll_pause < hour \<Longrightarrow> n \<le> 720"
  by (simp add: hour_def poll_pause_def)

lemma waitForUploads_quiet: "emits_quiet (waitForUploads C E i)"
  by (rule emits_mono [OF waitForUploads_rounds]) (auto simp: rounds_ok_def)

text \<open>
  Claim C26. Before an unmount the driver waits for uploads at most an hour, provided that every
  request to rclone returns: it pauses at most 720 times for five seconds and asks rclone at most
  1442 times, whatever rclone answers, and changes nothing meanwhile.
\<close>

theorem waitForUploads_bounded:
  "count_ev is_sleep (trace (waitForUploads C E i) w) \<le> 720
   \<and> count_ev is_http (trace (waitForUploads C E i) w) \<le> 1442
   \<and> list_all quiet (trace (waitForUploads C E i) w)"
proof -
  have "emits (waitForUploads C E i) (\<lambda>_ tr. count_ev is_sleep tr \<le> 720 \<and> count_ev is_http tr \<le> 1442)"
  proof (rule emits_mono [OF waitForUploads_rounds], elim disjE exE conjE)
    fix tr n start u
    assume tr: "tr = IntEv (Stat (rcSocket C i)) (Inr n) # NowEv start # u" and u: "rounds_ok E start (start + hour) u"
    have "count_ev is_sleep u \<le> 720"
      using u hour_pauses [of "count_ev is_sleep u"] by (auto simp: rounds_ok_def)
    with u tr show "count_ev is_sleep tr \<le> 720 \<and> count_ev is_http tr \<le> 1442"
      by (simp add: rounds_ok_def)
  qed simp
  from emitsD [OF emits_conj [OF this waitForUploads_quiet]] show ?thesis by simp
qed

definition socket_missing :: "string \<Rightarrow> event list \<Rightarrow> bool" where
  "socket_missing socket tr = (case tr of [IntEv (Stat p) (Inl _)] \<Rightarrow> p = socket | _ \<Rightarrow> False)"

definition drained :: "environment \<Rightarrow> event list \<Rightarrow> bool" where
  "drained E tr \<longleftrightarrow> \<not> list_ex (busy_reply E) (last_round tr)"

definition hour_passed :: "event list \<Rightarrow> bool" where
  "hour_passed tr = (case (tr, rev tr) of
     (_ # NowEv start # _, NowEv t # _) \<Rightarrow> start + hour \<le> t
   | _ \<Rightarrow> False)"

text \<open>
  Claim C27. The wait ends for one of three reasons: rclone has no socket, no reply of the last
  round reports transfers or uploads that the driver sees, or the hour is over.
\<close>

theorem waitForUploads_drains:
  "socket_missing (rcSocket C i) (trace (waitForUploads C E i) w)
   \<or> drained E (trace (waitForUploads C E i) w)
   \<or> hour_passed (trace (waitForUploads C E i) w)"
proof -
  have "emits (waitForUploads C E i) (\<lambda>_ tr. socket_missing (rcSocket C i) tr \<or> drained E tr \<or> hour_passed tr)"
  proof (rule emits_mono [OF waitForUploads_rounds], elim disjE exE conjE)
    fix tr n start u
    assume tr: "tr = IntEv (Stat (rcSocket C i)) (Inr n) # NowEv start # u" and u: "rounds_ok E start (start + hour) u"
    have head: "last_round (a # b # u) = (if list_ex is_sleep u then last_round u else last_round [a, b] @ u)" for a b
      using last_round_append [of "[a, b]" u] by simp
    have "drained E tr" if "\<not> list_ex (busy_reply E) (last_round u)"
    proof (cases "list_ex is_sleep u")
      case True
      with that tr show ?thesis by (simp add: drained_def head)
    next
      case False
      moreover have "last_round [IntEv c r, NowEv start] = [IntEv c r, NowEv start]" for c r
        by (simp add: last_round_no_sleep)
      ultimately show ?thesis
        using that tr by (simp add: drained_def head last_round_no_sleep busy_reply_def)
    qed
    moreover have "hour_passed tr" if "last u = NowEv t" "start + hour \<le> t" for t
      using that tr u by (cases u rule: rev_cases) (simp_all add: hour_passed_def rounds_ok_def)
    ultimately show "socket_missing (rcSocket C i) tr \<or> drained E tr \<or> hour_passed tr"
      using u by (auto simp: rounds_ok_def)
  qed (simp add: socket_missing_def)
  from emitsD [OF this] show ?thesis by simp
qed

lemma transferring_array:
  assumes "(k, JArray files) \<in> set kvs" "key_is ''transferring'' k"
  shows "transferring_keys ks kvs = None"
  using assms(1)
proof (induction kvs arbitrary: ks)
  case (Cons kv kvs)
  then show ?case using assms(2) by (cases kv) (auto split: json.splits)
qed simp

lemma core_busy_array:
  assumes "json_scan E body = Some (JObject kvs)" "(k, JArray files) \<in> set kvs" "key_is ''transferring'' k"
  shows "\<not> core_busy E body"
  using assms by (simp add: core_busy_def unmarshal_core_stats_def transferring_array)

text \<open>
  Claim C31. The list of active transfers is not seen: rclone reports it as a JSON array, which does
  not decode into the map the driver declares, so a round with transfers but no upload of the
  cache ends the wait.
\<close>

theorem poll_misses_transfers:
  assumes "\<And>h. ans_http E h socket ''http://rclone/core/stats'' ''{}'' = Inr (Inr body)"
    and "json_scan E body = Some (JObject kvs)"
    and "(''transferring'', JArray files) \<in> set kvs"
    and "\<And>h. ans_http E h socket ''http://rclone/vfs/stats'' ''{}'' = Inr (Inr vfs)"
    and "\<not> vfs_busy E vfs"
  shows "result (poll E socket) w = False"
proof -
  have "\<not> core_busy E body"
    using assms(2,3) by (rule core_busy_array) (simp add: key_is_def)
  with assms(1,4,5) show ?thesis
    by (simp add: result_def poll_def RcloneRPC_def http_op_def emit_def run_simps Let_def split: option.split)
qed

definition transfer_env :: environment where
  "transfer_env = (sim_env (plain_config))
     \<lparr>ans_http := (\<lambda>h socket url body. Inr (Inr (if url = ''http://rclone/core/stats'' then ''core'' else ''vfs''))),
      json_scan := (\<lambda>body. Some (if body = ''core'' then JObject [(''transferring'', JArray [JString ''file''])]
                               else JObject []))\<rparr>"

theorem poll_misses_transfers_witness:
  "result (poll transfer_env ''rc.sock'') \<lparr>history = [], clock = 0\<rparr> = False"
proof (rule poll_misses_transfers [where body = "''core''" and vfs = "''vfs''" and files = "[JString ''file'']"
      and kvs = "[(''transferring'', JArray [JString ''file''])]"])
  show "\<not> vfs_busy transfer_env ''vfs''"
    by (simp add: transfer_env_def vfs_busy_def unmarshal_vfs_stats_def)
qed (simp_all add: transfer_env_def)

end
