(* ===== verification/Monitors.thy ===== *)
theory Monitors
  imports Uploads
begin

text \<open>
  The interface of a monitor that does not look at reading, and what follows for the
  operations of a mount that are the same for every such monitor.
\<close>

lemma addLegacyUser_fields [simp]:
  "VolumeID (addLegacyUser C st) = VolumeID st"
  "StagingPath (addLegacyUser C st) = StagingPath st"
  "Args (addLegacyUser C st) = Args st"
  "Env (addLegacyUser C st) = Env st"
  "Targets (addLegacyUser C st) = Targets st"
  "Mounted (addLegacyUser C st) = Mounted st"
  by (simp_all add: addLegacyUser_def)

locale quiet_monitor =
  fixes step :: "'s \<Rightarrow> event \<Rightarrow> 's option"
  assumes quiet_step: "quiet ev \<Longrightarrow> step s ev = Some s"
begin

lemma scan_quiet: "list_all quiet tr \<Longrightarrow> scan step s tr = Some s"
  by (induction tr) (simp_all add: quiet_step)

lemma safe_quiet: "emits_quiet m \<Longrightarrow> (\<And>x. Q x s) \<Longrightarrow> safe step s m Q"
  unfolding safe_def by (erule emits_mono) (simp add: scan_quiet)

lemmas safe_waitForUploads = safe_quiet [OF waitForUploads_quiet]
  and safe_readLog = safe_quiet [OF readLog_quiet]

text \<open>
  The search for the mount of a path: \<open>I\<close> holds of the monitor's state between the rounds of the
  loop, and \<open>Q\<close> of the result.
\<close>

lemma safe_lock_first_use:
  assumes inv: "I s"
    and miss: "\<And>s. I s \<Longrightarrow> Q None s"
    and round: "\<And>s i. I s \<Longrightarrow> next_ok step s (UnitEv (Lock i)) (\<lambda>s1. \<forall>r.
        (\<exists>h. ans_load E h (stateStore C) i = r) \<longrightarrow> next_ok step s1 (LoadEv (stateStore C) i r)
          (\<lambda>s2. (\<forall>st. r = Inr st \<and> uses (addLegacyUser C st) path \<longrightarrow> Q (Some (addLegacyUser C st)) s2)
               \<and> next_ok step s2 (UnitEv (Unlock i)) I))"
  shows "safe step s (lock_first_use C E path sts) Q"
  using inv
proof (induction sts arbitrary: s)
  case Nil
  then show ?case by (simp add: safe_return miss)
next
  case (Cons found sts)
  let ?loaded = "\<lambda>s1 i. \<forall>r. (\<exists>h. ans_load E h (stateStore C) i = r) \<longrightarrow> next_ok step s1 (LoadEv (stateStore C) i r)
          (\<lambda>s2. (\<forall>st. r = Inr st \<and> uses (addLegacyUser C st) path \<longrightarrow> Q (Some (addLegacyUser C st)) s2)
               \<and> next_ok step s2 (UnitEv (Unlock i)) I)"
  have again: "safe step s2 (do { unit_op (Unlock i); lock_first_use C E path sts }) Q"
    if "next_ok step s2 (UnitEv (Unlock i)) I" for s2 i
    using that Cons.IH by (auto simp: next_ok_def split: option.splits intro!: safe_rules)
  have body: "safe step s1 (do { r \<leftarrow> loadState C E i;
          if (case r of Inr st \<Rightarrow> uses st path | Inl _ \<Rightarrow> False)
          then ret (case r of Inr st \<Rightarrow> Some st | Inl _ \<Rightarrow> None)
          else do { unit_op (Unlock i); lock_first_use C E path sts } }) Q" if "?loaded s1 i" for i s1
    unfolding loadState_def
    by (intro safe_bind safe_load, drule that [rule_format])
      (auto simp: next_ok_def [of _ _ "LoadEv a b c" for a b c] split: option.splits sum.splits
        intro!: safe_bind safe_return safe_if again)
  show ?case
  proof (cases "uses found path")
    case True
    then show ?thesis
      by (simp, intro safe_bind [of _ _ "unit_op u" for u] safe_unit next_ok_mono [OF round [OF Cons.prems]] body)
  qed (simp add: Cons)
qed

lemma safe_lockMountOf:
  assumes "\<And>sts. safe step s (lock_first_use C E path sts) Q"
  shows "safe step s (lockMountOf C E path) Q"
  unfolding lockMountOf_def
  by (rule safe_bind, rule safe_quiet [OF loadStates_quiet]) (rule assms)

lemma safe_int_quiet: "(\<And>r. quiet (IntEv c r)) \<Longrightarrow> (\<And>r. Q r s) \<Longrightarrow> safe step s (int_op E c) Q"
  by (rule safe_int) (simp add: next_ok_def quiet_step)

lemma safe_environ_quiet: "(\<And>vs. Q vs s) \<Longrightarrow> safe step s (environ_op E) Q"
  by (rule safe_environ) (simp add: next_ok_def quiet_step)

lemma safe_err_same: "(\<And>r. step s (ErrEv c r) = Some s) \<Longrightarrow> (\<And>r. Q r s) \<Longrightarrow> safe step s (err_op E c) Q"
  by (rule safe_err) (simp add: next_ok_def)

lemma safe_startRclone:
  assumes "\<And>r. next_ok step s (ErrEv (Remove (rcSocket C (VolumeID st))) r) (\<lambda>s1. \<forall>vs r.
      next_ok step s1 (IntEv (Start (VolumeID st) (Args st) (vs @ Env st) (StagingPath st) mountWaitTimeout) r)
        (\<lambda>s'. case r of Inl _ \<Rightarrow> (\<forall>x. Q (Some x) s') | Inr _ \<Rightarrow> Q None s'))"
  shows "safe step s (startRclone C E st) Q"
proof -
  let ?start = "\<lambda>vs r. IntEv (Start (VolumeID st) (Args st) (vs @ Env st) (StagingPath st) mountWaitTimeout) r"
  have started: "safe step s1 (int_op E (Start (VolumeID st) (Args st) (vs @ Env st) (StagingPath st) mountWaitTimeout))
      (\<lambda>r s'. safe step s' (case r of
            Inl e \<Rightarrow> do { log \<leftarrow> readLog E f n; ret (Some (err e log)) }
          | Inr _ \<Rightarrow> ret None) Q)"
    if "\<forall>vs r. next_ok step s1 (?start vs r) (\<lambda>s'. case r of Inl _ \<Rightarrow> (\<forall>x. Q (Some x) s') | Inr _ \<Rightarrow> Q None s')"
    for s1 vs f n err
  proof (rule safe_int)
    fix r
    show "next_ok step s1 (?start vs r) (\<lambda>s'. safe step s' (case r of
            Inl e \<Rightarrow> do { log \<leftarrow> readLog E f n; ret (Some (err e log)) }
          | Inr _ \<Rightarrow> ret None) Q)"
      using that [rule_format, of vs r]
      by (auto simp: next_ok_def split: option.splits sum.splits intro!: safe_bind safe_readLog safe_return)
  qed
  have socket: "safe step s (err_op E (Remove (rcSocket C (VolumeID st)))) (\<lambda>_ s1. \<forall>vs r.
      next_ok step s1 (?start vs r) (\<lambda>s'. case r of Inl _ \<Rightarrow> (\<forall>x. Q (Some x) s') | Inr _ \<Rightarrow> Q None s'))"
    by (rule safe_err) (rule assms)
  show ?thesis
    unfolding startRclone_def Let_def
    by (rule safe_bind, rule safe_int_quiet, simp, rule safe_bind, rule safe_mono [OF socket],
        rule safe_bind, rule safe_environ_quiet, rule safe_bind, rule started)
qed

end

end
