(* ===== verification/Node_Locks.thy ===== *)
theory Node_Locks
  imports Monitors
begin

text \<open>
  Every handler serializes with the others by the lock of the mount it works on. The monitor
  here holds the lock taken, if any, and permits an event only where it belongs: a lock is
  taken only when none is held, so handlers cannot wait for each other in a circle, and is given
  back by its name; the state of a mount is read and written, its rclone started, its scope
  stopped, its directory removed and anything bound from it only under its lock.
\<close>

section \<open>The discipline\<close>

fun lock_step :: "config \<Rightarrow> string option \<Rightarrow> event \<Rightarrow> string option option" where
  "lock_step C held (UnitEv (Lock i)) = (if held = None then Some (Some i) else None)"
| "lock_step C held (UnitEv (Unlock i)) = (if held = Some i then Some None else None)"
| "lock_step C held (LoadEv _ i _) = (if held = Some i then Some held else None)"
| "lock_step C held (IntEv (Start i _ _ _ _) _) = (if held = Some i then Some held else None)"
| "lock_step C held (ErrEv (Save _ i st) _) = (if held = Some i \<and> VolumeID st = i then Some held else None)"
| "lock_step C held (ErrEv (StopScope i) _) = (if held = Some i then Some held else None)"
| "lock_step C held (RemoveAllEv d _ _) = (if map_option (volumeDir C) held = Some d then Some held else None)"
| "lock_step C held (ErrEv (Bind _ _ _) _) = (if held \<noteq> None then Some held else None)"
| "lock_step C held _ = Some held"

text \<open>A run that takes no lock that it keeps and touches a mount only under its lock.\<close>

definition lock_disciplined :: "config \<Rightarrow> event list \<Rightarrow> bool" where
  "lock_disciplined C tr \<longleftrightarrow> scan (lock_step C) None tr = Some None"

lemma lock_step_quiet: "quiet ev \<Longrightarrow> lock_step C h ev = Some h"
  by (erule quiet.elims) simp_all

interpretation lk: quiet_monitor "lock_step C" for C
  by unfold_locales (rule lock_step_quiet)

text \<open>An operation that is run under the lock of a mount and leaves it as it is.\<close>

abbreviation under_lock :: "config \<Rightarrow> string \<Rightarrow> 'a node_op \<Rightarrow> bool" where
  "under_lock C i m \<equiv> safe (lock_step C) (Some i) m (\<lambda>_ h. h = Some i)"

lemma under_lock_cont: "under_lock C i m \<Longrightarrow> (\<And>x. Q x (Some i)) \<Longrightarrow> safe (lock_step C) (Some i) m Q"
  by (erule safe_mono) simp

lemmas lock_vcg = next_ok_def

lemma detach_locked: "safe (lock_step C) h (detach E p) (\<lambda>_ h'. h' = h)"
  unfolding detach_def by (auto simp: lock_vcg intro!: safe_rules)

lemma live_locked: "safe (lock_step C) h (live E p) (\<lambda>_ h'. h' = h)"
  unfolding live_def by (auto simp: lock_vcg intro!: safe_rules)

lemma check_locked: "safe (lock_step C) h (check C E st) (\<lambda>_ h'. h' = h)"
  unfolding check_def by (auto simp: lock_vcg intro!: safe_rules)

lemma saveState_locked: "VolumeID st = i \<Longrightarrow> under_lock C i (saveState C E st)"
  unfolding saveState_def by (auto simp: lock_vcg intro!: safe_rules)

lemma loadState_locked:
  "store_keyed E \<Longrightarrow> safe (lock_step C) (Some i) (loadState C E i)
     (\<lambda>r h. h = Some i \<and> (\<forall>st. r = Inr st \<longrightarrow> VolumeID st = i))"
  unfolding loadState_def
  by (auto simp: lock_vcg store_keyed_def intro!: safe_rules split: sum.splits)

lemma startRclone_locked: "VolumeID st = i \<Longrightarrow> under_lock C i (startRclone C E st)"
  by (rule lk.safe_startRclone) (simp add: lock_vcg split_sum_all)

lemma remount_locked: "VolumeID st = i \<Longrightarrow> under_lock C i (remount C E st)"
  unfolding remount_def
  by (auto simp: lock_vcg intro!: safe_rules safe_mono [OF detach_locked] startRclone_locked)

lemma mount_locked: "under_lock C i (mount C E i a p)"
  unfolding mount_def Let_def
  by (auto simp: lock_vcg mount_state_of_def intro!: safe_rules saveState_locked safe_mono [OF saveState_locked]
      safe_mono [OF startRclone_locked])

lemma mountRclone_locked: "under_lock C i (mountRclone C E i a)"
  unfolding mountRclone_def
  by (auto intro!: safe_rules safe_mono [OF detach_locked] safe_mono [OF mount_locked])

lemma add_user_locked:
  "VolumeID st = i \<Longrightarrow> safe (lock_step C) (Some i) (add_user C E st u)
     (\<lambda>r h. h = Some i \<and> (\<forall>st'. r = Inr st' \<longrightarrow> VolumeID st' = i))"
  unfolding add_user_def Let_def
  by (auto intro!: safe_rules safe_mono [OF saveState_locked])

lemma acquire_locked:
  assumes "store_keyed E"
  shows "safe (lock_step C) (Some i) (acquire C E i a u)
     (\<lambda>r h. h = Some i \<and> (\<forall>st. r = Inr st \<longrightarrow> VolumeID st = i))"
  unfolding acquire_def acquire_new_def acquire_known_def
  by (auto intro!: safe_rules safe_mono [OF loadState_locked [OF assms]] safe_mono [OF mountRclone_locked]
      safe_mono [OF check_locked] safe_mono [OF remount_locked] add_user_locked)

lemma stopScope_locked: "under_lock C i (stopScope E i)"
  unfolding stopScope_def by (auto simp: lock_vcg intro!: safe_rules)

lemma unmount_locked: "under_lock C i (unmount C E i p)"
  unfolding unmount_def
  by (auto simp: lock_vcg intro!: safe_rules lk.safe_waitForUploads safe_mono [OF detach_locked]
      safe_mono [OF stopScope_locked])

lemma release_locked: "VolumeID st = i \<Longrightarrow> under_lock C i (release C E st u)"
  unfolding release_def Let_def by (auto intro!: safe_rules saveState_locked unmount_locked)

lemma rebind_targets_locked: "under_lock C i (rebind_targets E p ts)"
  by (induction E p ts rule: rebind_targets.induct)
    (auto simp: lock_vcg intro!: safe_rules safe_mono [OF detach_locked] elim!: safe_mono)

lemma drop_gone_users_locked: "under_lock C i (drop_gone_users E us)"
  by (induction E us rule: drop_gone_users.induct)
    (auto simp: lock_vcg intro!: safe_rules elim!: safe_mono)

lemma reconcile_users_locked: "VolumeID st = i \<Longrightarrow> under_lock C i (reconcile_users C E i st)"
  unfolding reconcile_users_def
  by (auto intro!: safe_rules safe_mono [OF rebind_targets_locked] safe_mono [OF drop_gone_users_locked]
      safe_mono [OF unmount_locked] safe_mono [OF saveState_locked])

lemma reconcile_locked:
  assumes "store_keyed E"
  shows "under_lock C i (reconcile C E i)"
  unfolding reconcile_def reconcile_known_def
  by (auto simp: lock_vcg intro!: safe_rules safe_mono [OF loadState_locked [OF assms]] safe_mono [OF check_locked]
      safe_mono [OF remount_locked] safe_mono [OF stopScope_locked] reconcile_users_locked)

lemma lockMountOf_locked:
  assumes "store_keyed E"
  shows "safe (lock_step C) None (lockMountOf C E path) (\<lambda>r h. h = map_option VolumeID r)"
  by (rule lk.safe_lockMountOf, rule lk.safe_lock_first_use [where I = "\<lambda>h. h = None"])
    (use assms in \<open>auto simp: lock_vcg store_keyed_def\<close>)

lemma publish_locked: "VolumeID st = i \<Longrightarrow> under_lock C i (publish C E st v t ro)"
  unfolding publish_def
  by (auto simp: lock_vcg intro!: safe_rules safe_mono [OF live_locked] safe_mono [OF saveState_locked]
      safe_mono [OF detach_locked])

lemma unpublish_locked:
  "h = map_option VolumeID found \<Longrightarrow> safe (lock_step C) h (unpublish C E found t) (\<lambda>_ h'. h' = h)"
  unfolding unpublish_def Let_def
  by (auto simp: lock_vcg intro!: safe_rules safe_mono [OF detach_locked] safe_mono [OF release_locked]
      safe_mono [OF saveState_locked])

lemma defer_unlock_locked: "under_lock C i m \<Longrightarrow> safe (lock_step C) (Some i) (defer_unlock i m) (\<lambda>_ h. h = None)"
  unfolding defer_unlock_def by (auto simp: lock_vcg intro!: safe_rules elim!: safe_mono)

lemma lock_disciplinedI: "safe (lock_step C) None m (\<lambda>_ h. h = None) \<Longrightarrow> lock_disciplined C (trace m w)"
  unfolding lock_disciplined_def by (drule safeD [where w = w]) simp

section \<open>The handlers\<close>

lemma NodeStageVolume_locked:
  assumes "store_keyed E"
  shows "lock_disciplined C (trace (NodeStageVolume C E K req) w)"
  unfolding NodeStageVolume_def Let_def
  by (rule lock_disciplinedI)
    (auto simp: lock_vcg intro!: safe_rules safe_mono [OF lockMountOf_locked [OF assms]] defer_unlock_locked
      safe_mono [OF acquire_locked [OF assms]])

lemma NodeUnstageVolume_locked:
  assumes "store_keyed E"
  shows "lock_disciplined C (trace (NodeUnstageVolume C E req) w)"
  unfolding NodeUnstageVolume_def Let_def
  by (rule lock_disciplinedI)
    (auto simp: lock_vcg intro!: safe_rules safe_mono [OF lockMountOf_locked [OF assms]] defer_unlock_locked
      safe_mono [OF release_locked])

lemma NodePublishVolume_locked:
  assumes "store_keyed E"
  shows "lock_disciplined C (trace (NodePublishVolume C E req) w)"
  unfolding NodePublishVolume_def Let_def
  by (rule lock_disciplinedI)
    (auto simp: lock_vcg intro!: safe_rules safe_mono [OF lockMountOf_locked [OF assms]] defer_unlock_locked
      safe_mono [OF acquire_locked [OF assms]] publish_locked)

lemma NodeUnpublishVolume_locked:
  assumes "store_keyed E"
  shows "lock_disciplined C (trace (NodeUnpublishVolume C E req) w)"
  unfolding NodeUnpublishVolume_def Let_def
  by (rule lock_disciplinedI)
    (auto simp: lock_vcg intro!: safe_rules safe_mono [OF lockMountOf_locked [OF assms]] defer_unlock_locked
      unpublish_locked)

text \<open>
  Claim C6. The four volume calls of the node service keep the discipline on every path through
  their handlers, errors included: at most one lock is held at a time, the state of a mount is
  touched only under its lock, and no lock is left behind.
\<close>

theorem node_calls_lock_disciplined:
  assumes "store_keyed E"
  shows "lock_disciplined C (trace (NodeStageVolume C E K stage) w)
    \<and> lock_disciplined C (trace (NodeUnstageVolume C E unstage) w)
    \<and> lock_disciplined C (trace (NodePublishVolume C E pub) w)
    \<and> lock_disciplined C (trace (NodeUnpublishVolume C E unpub) w)"
  using assms NodeStageVolume_locked NodeUnstageVolume_locked NodePublishVolume_locked NodeUnpublishVolume_locked
  by blast

text \<open>
  Claim C23. The supervisor calls reconcile with the lock of the mount held; reconcile takes no other
  lock, touches no other mount and returns with the lock held.
\<close>

theorem reconcile_lock_disciplined:
  assumes "store_keyed E"
  shows "scan (lock_step C) (Some i) (trace (reconcile C E i) w) = Some (Some i)"
  using safeD [OF reconcile_locked [OF assms]] by auto

section \<open>An example\<close>

definition example_stage :: stage_request where
  "example_stage = \<lparr>ns_volume_id = ''pv'', ns_staging_path = ''/staging'',
     ns_capability = Some \<lparr>cap_mode = SINGLE_NODE_WRITER, cap_type = MountVolume []\<rparr>,
     ns_context = [(''remote'', ''s3''), (''remotePath'', ''bucket'')]\<rparr>"

definition example_publish :: publish_request where
  "example_publish = \<lparr>np_volume_id = ''pv'', np_staging_path = ''/staging'', np_target_path = ''/target'',
     np_capability = Some \<lparr>cap_mode = SINGLE_NODE_WRITER, cap_type = MountVolume []\<rparr>,
     np_readonly = False, np_context = [], np_secrets = []\<rparr>"

definition example_kube :: kube where
  "example_kube = \<lparr>kube_client = Inr (\<lambda>ns name. Inr []), kube_namespace = Inr ''csi''\<rparr>"

theorem node_calls_lock_disciplined_witness:
  "lock_disciplined plain_config
     (trace (NodeStageVolume plain_config (sim_env plain_config) example_kube example_stage) \<lparr>history = [], clock = 0\<rparr>)"
  using node_calls_lock_disciplined [OF sim_env_keyed] by blast

theorem reconcile_lock_disciplined_witness:
  "scan (lock_step plain_config) (Some ''pv'')
     (trace (reconcile plain_config (sim_env plain_config) ''pv'') \<lparr>history = [], clock = 0\<rparr>) = Some (Some ''pv'')"
  by (rule reconcile_lock_disciplined [OF sim_env_keyed])

end
