(* ===== verification/Node_Removal.thy ===== *)
theory Node_Removal
  imports Node_Locks
begin

text \<open>
  Removing the directory of a mount deletes files on the remote if rclone is still mounted below
  it. The monitor here remembers the mount whose state was read last and what is known of its mount
  point, and permits the removal of a directory only where the mount point is known not to be
  mounted.
\<close>

section \<open>Removal of a mount's directory\<close>

text \<open>
  What is known of a path: nothing; the kernel refused to unmount it; it was unmounted, or the
  kernel refused and it is not a FUSE mount; it was then removed as an empty directory; or it does
  not exist.
\<close>

datatype clearance = Unknown | Refused string | Detached string | Emptied string | NoPath string

type_synonym removal = "(string \<times> string) option \<times> clearance"

fun removal_step :: "config \<Rightarrow> removal \<Rightarrow> event \<Rightarrow> removal option" where
  "removal_step C (k, c) (LoadEv _ i r) =
     Some (case r of Inr st \<Rightarrow> Some (i, StagingPath st) | Inl _ \<Rightarrow> None, Unknown)"
| "removal_step C (k, c) (ErrEv (Unmount p) r) =
     Some (k, case r of None \<Rightarrow> Detached p | Some e \<Rightarrow> if IsEPERM e then Refused p else Unknown)"
| "removal_step C (k, c) (StatusEv p s) =
     Some (k, if c = Refused p \<and> s \<noteq> Live \<and> s \<noteq> Dead then Detached p else Unknown)"
| "removal_step C (k, c) (ErrEv (Remove p) r) =
     Some (k, if c = Detached p \<and> (r = None \<or> IsNotExist (the r)) then Emptied p else Unknown)"
| "removal_step C (k, c) (ProbeEv p s _) = Some (k, if s = Gone then NoPath p else Unknown)"
| "removal_step C (k, c) (ErrEv (Bind _ _ _) _) = Some (k, Unknown)"
| "removal_step C (k, c) (IntEv (Start _ _ _ _ _) _) = Some (k, Unknown)"
| "removal_step C (k, c) (RemoveAllEv d _ _) =
     (case k of
        None \<Rightarrow> None
      | Some (i, p) \<Rightarrow>
          if d = volumeDir C i \<and> (c = Emptied p \<or> c = NoPath p \<or> (c = Detached p \<and> p \<noteq> mountPath C i))
          then Some (k, c) else None)"
| "removal_step C (k, c) _ = Some (k, c)"

lemma removal_step_quiet: "quiet ev \<Longrightarrow> removal_step C s ev = Some s"
  by (cases s, erule quiet.elims) simp_all

interpretation rm: quiet_monitor "removal_step C" for C
  by unfold_locales (rule removal_step_quiet)

text \<open>What every operation leaves of the monitor's state is the mount it knows.\<close>

abbreviation keeps_mount :: "config \<Rightarrow> (string \<times> string) option \<Rightarrow> 'a node_op \<Rightarrow> bool" where
  "keeps_mount C k m \<equiv> (\<forall>c. safe (removal_step C) (k, c) m (\<lambda>_ s. fst s = k))"

lemma keeps_mountD: "keeps_mount C k m \<Longrightarrow> fst s = k \<Longrightarrow> safe (removal_step C) s m (\<lambda>_ s'. fst s' = k)"
  by (cases s) simp

lemma detach_clears: "safe (removal_step C) (k, c) (detach E p) (\<lambda>r s. fst s = k \<and> (r = None \<longrightarrow> snd s = Detached p))"
  unfolding detach_def by (auto simp: next_ok_def intro!: safe_rules)

lemma saveState_removal: "safe (removal_step C) s (saveState C E st) (\<lambda>_ s'. s' = s)"
  unfolding saveState_def by (cases s) (auto simp: next_ok_def intro!: safe_rules)

lemma stopScope_removal: "safe (removal_step C) s (stopScope E i) (\<lambda>_ s'. s' = s)"
  unfolding stopScope_def by (cases s) (auto simp: next_ok_def intro!: safe_rules)

lemma unmount_removal: "keeps_mount C (Some (i, p)) (unmount C E i p)"
  unfolding unmount_def
  by (auto simp: next_ok_def split: option.splits intro!: safe_rules rm.safe_waitForUploads
      safe_mono [OF detach_clears] safe_mono [OF stopScope_removal])

lemma release_removal:
  "keeps_mount C (Some (VolumeID st, StagingPath st)) (release C E st u)"
  unfolding release_def Let_def
  using unmount_removal [of C "VolumeID st" "StagingPath st" E]
  by (auto intro!: safe_rules safe_mono [OF saveState_removal])

lemma rebind_targets_removal: "keeps_mount C k (rebind_targets E p ts)"
proof (induction ts)
  case Nil
  show ?case by (auto intro!: safe_rules)
next
  case (Cons t ts)
  show ?case
    by (cases t)
      (auto simp: next_ok_def intro!: safe_rules safe_mono [OF detach_clears] safe_mono [OF keeps_mountD [OF Cons]])
qed

lemma drop_gone_users_removal: "keeps_mount C k (drop_gone_users E us)"
proof (induction us)
  case Nil
  show ?case by (auto intro!: safe_rules)
next
  case (Cons u us)
  show ?case
    by (auto simp: next_ok_def intro!: safe_rules safe_mono [OF keeps_mountD [OF Cons]])
qed

lemma reconcile_users_removal:
  "StagingPath st = p \<Longrightarrow> keeps_mount C (Some (i, p)) (reconcile_users C E i st)"
  unfolding reconcile_users_def
  by (auto intro!: safe_rules safe_mono [OF keeps_mountD [OF rebind_targets_removal]]
      safe_mono [OF keeps_mountD [OF drop_gone_users_removal]] safe_mono [OF keeps_mountD [OF unmount_removal]]
      safe_mono [OF saveState_removal])

lemma check_removal:
  "safe (removal_step C) (k, c) (check C E st) (\<lambda>r s. fst s = k \<and> (r = Inr Gone \<longrightarrow> snd s = NoPath (StagingPath st)))"
  unfolding check_def by (auto simp: next_ok_def intro!: safe_rules)

lemma startRclone_removal: "keeps_mount C k (startRclone C E st)"
  by (intro allI rm.safe_startRclone) (simp add: next_ok_def split_sum_all)

lemma remount_removal: "keeps_mount C k (remount C E st)"
  unfolding remount_def
  by (auto simp: next_ok_def intro!: safe_rules safe_mono [OF detach_clears]
      safe_mono [OF keeps_mountD [OF startRclone_removal]])

lemma loadState_removal:
  "store_keyed E \<Longrightarrow> safe (removal_step C) s (loadState C E i)
     (\<lambda>r s'. \<forall>st. r = Inr st \<longrightarrow> VolumeID st = i \<and> fst s' = Some (i, StagingPath st))"
  unfolding loadState_def
  by (cases s) (auto simp: next_ok_def store_keyed_def split: sum.splits intro!: safe_rules)

lemma reconcile_removal:
  assumes "store_keyed E"
  shows "safe (removal_step C) s (reconcile C E i) (\<lambda>_ _. True)"
  unfolding reconcile_def
proof (rule safe_bind, rule safe_mono [OF loadState_removal [OF assms]], rule safe_case_sum)
  fix r and s' :: removal and st :: volumeState
  assume *: "\<forall>st. r = Inr st \<longrightarrow> VolumeID st = i \<and> fst s' = Some (i, StagingPath st)" "r = Inr st"
  then obtain c where s': "s' = (Some (i, StagingPath st), c)" by (cases s') simp
  have rest: "fst s = Some (i, StagingPath st) \<Longrightarrow>
      safe (removal_step C) s (reconcile_users C E i st) (\<lambda>_ _. True)" for s
    by (rule safe_mono [OF keeps_mountD [OF reconcile_users_removal]]) simp_all
  show "safe (removal_step C) s' (reconcile_known C E i st) (\<lambda>_ _. True)"
    unfolding reconcile_known_def s'
    by (auto simp: next_ok_def intro!: safe_rules safe_mono [OF check_removal] rest
      safe_mono [OF keeps_mountD [OF remount_removal]] safe_mono [OF stopScope_removal])
qed (simp add: safe_return)

lemma lockMountOf_removal:
  assumes "store_keyed E"
  shows "safe (removal_step C) s (lockMountOf C E path)
    (\<lambda>r s'. \<forall>st. r = Some st \<longrightarrow> fst s' = Some (VolumeID st, StagingPath st))"
  by (rule rm.safe_lockMountOf, rule rm.safe_lock_first_use [where I = "\<lambda>_. True"])
    (use assms in \<open>auto simp: next_ok_def store_keyed_def split_pairs\<close>)

lemma unpublish_removal:
  "(\<forall>st. found = Some st \<longrightarrow> fst s = Some (VolumeID st, StagingPath st)) \<Longrightarrow>
   safe (removal_step C) s (unpublish C E found t) (\<lambda>_ _. True)"
proof -
  assume found: "\<forall>st. found = Some st \<longrightarrow> fst s = Some (VolumeID st, StagingPath st)"
  obtain k c where s: "s = (k, c)" by (cases s)
  have rel: "safe (removal_step C) s' (release C E (st\<lparr>Targets := ts\<rparr>) t) (\<lambda>_ _. True)"
    if "fst s' = Some (VolumeID st, StagingPath st)" for s' st ts
    using release_removal [of C "st\<lparr>Targets := ts\<rparr>" E t] that by (cases s') (auto elim!: safe_mono)
  show ?thesis
    using found unfolding unpublish_def Let_def s
    by (auto simp: next_ok_def split_pairs intro!: safe_rules safe_mono [OF detach_clears]
        safe_mono [OF saveState_removal] safe_mono [OF rel])
qed

text \<open>Staging and publishing remove no directory at all.\<close>

fun removes :: "event \<Rightarrow> bool" where
  "removes (RemoveAllEv _ _ _) = True"
| "removes _ = False"

abbreviation keeps_dirs :: "'a node_op \<Rightarrow> bool" where
  "keeps_dirs m \<equiv> emits m (\<lambda>_ tr. \<not> list_ex removes tr)"

lemma removal_step_total: "\<not> removes ev \<Longrightarrow> \<exists>s'. removal_step C s ev = Some s'"
  by (induction C s ev rule: removal_step.induct) simp_all

lemma scan_removal_total: "\<not> list_ex removes tr \<Longrightarrow> \<exists>s'. scan (removal_step C) s tr = Some s'"
proof (induction tr arbitrary: s)
  case (Cons ev tr)
  then obtain s' where "removal_step C s ev = Some s'" using removal_step_total by fastforce
  with Cons show ?case by auto
qed simp

lemma keeps_dirs_cont: "keeps_dirs m \<Longrightarrow> safe (removal_step C) s m (\<lambda>_ _. True)"
  unfolding safe_def by (erule emits_mono) (use scan_removal_total in blast)

lemma detach_keeps: "keeps_dirs (detach E p)"
  unfolding detach_def by (auto intro!: emits_rules)

lemma live_keeps: "keeps_dirs (live E p)"
  unfolding live_def by (auto intro!: emits_rules)

lemma loadState_keeps: "keeps_dirs (loadState C E i)"
  unfolding loadState_def by (auto intro!: emits_rules)

lemma check_keeps: "keeps_dirs (check C E st)"
  unfolding check_def by (auto intro!: emits_rules)

lemma startRclone_keeps: "keeps_dirs (startRclone C E st)"
  unfolding startRclone_def readLog_def Let_def by (auto intro!: emits_rules)

lemma remount_keeps: "keeps_dirs (remount C E st)"
  unfolding remount_def
  by (auto intro!: emits_rules emits_mono [OF detach_keeps] emits_mono [OF startRclone_keeps])

lemma mount_keeps: "keeps_dirs (mount C E i a p)"
  unfolding mount_def saveState_def Let_def
  by (auto intro!: emits_rules emits_mono [OF startRclone_keeps])

lemma acquire_keeps: "keeps_dirs (acquire C E i a u)"
  unfolding acquire_def acquire_new_def acquire_known_def mountRclone_def add_user_def saveState_def Let_def
  by (auto intro!: emits_rules emits_mono [OF loadState_keeps] emits_mono [OF detach_keeps] emits_mono [OF mount_keeps]
      emits_mono [OF check_keeps] emits_mono [OF remount_keeps])

lemma publish_keeps: "keeps_dirs (publish C E st v t ro)"
  unfolding publish_def saveState_def
  by (auto intro!: emits_rules emits_mono [OF live_keeps] emits_mono [OF detach_keeps])

definition safe_removals :: "config \<Rightarrow> event list \<Rightarrow> bool" where
  "safe_removals C tr \<longleftrightarrow> scan (removal_step C) (None, Unknown) tr \<noteq> None"

lemma safe_removalsI: "safe (removal_step C) (None, Unknown) m (\<lambda>_ _. True) \<Longrightarrow> safe_removals C (trace m w)"
  unfolding safe_removals_def by (drule safeD [where w = w]) auto

lemma unit_op_removal: "safe (removal_step C) s (unit_op u) (\<lambda>_ s'. s' = s)"
  by (cases s; cases u) (auto simp: next_ok_def intro!: safe_rules)

lemma defer_unlock_removal:
  "safe (removal_step C) s m (\<lambda>_ _. True) \<Longrightarrow> safe (removal_step C) s (defer_unlock i m) (\<lambda>_ _. True)"
  unfolding defer_unlock_def
  by (auto intro!: safe_bind safe_return safe_mono [OF unit_op_removal] elim!: safe_mono)

lemma NodeStageVolume_removal:
  assumes "store_keyed E"
  shows "safe (removal_step C) s (NodeStageVolume C E K req) (\<lambda>_ _. True)"
proof -
  have acq: "safe (removal_step C) s (do { r \<leftarrow> acquire C E i a u; ret (f r) }) (\<lambda>_ _. True)" for s i a u f
    by (rule keeps_dirs_cont, rule emits_bind, rule emits_mono [OF acquire_keeps]) (auto intro!: emits_return)
  have mk: "safe (removal_step C) s (err_op E (MkdirAll p m)) (\<lambda>_ _. True)" for s p m
    by (rule keeps_dirs_cont) (auto intro!: emits_rules)
  show ?thesis
    unfolding NodeStageVolume_def Let_def
    by (auto intro!: safe_case_option safe_case_sum safe_if safe_return safe_check_err safe_bind safe_mono [OF mk]
        safe_mono [OF lockMountOf_removal [OF assms]] safe_mono [OF unit_op_removal] defer_unlock_removal acq
        simp del: bind_assoc)
qed

lemma NodePublishVolume_removal:
  assumes "store_keyed E"
  shows "safe (removal_step C) s (NodePublishVolume C E req) (\<lambda>_ _. True)"
proof -
  have acq: "safe (removal_step C) s (do { r \<leftarrow> acquire C E i a u;
        case r of Inl e \<Rightarrow> ret (Some e) | Inr st \<Rightarrow> publish C E st v t ro }) (\<lambda>_ _. True)" for s i a u v t ro
    by (rule keeps_dirs_cont, rule emits_bind, rule emits_mono [OF acquire_keeps])
      (auto intro!: emits_return emits_case_sum emits_mono [OF publish_keeps])
  show ?thesis
    unfolding NodePublishVolume_def Let_def
    by (auto intro!: safe_case_option safe_case_sum safe_if safe_return safe_bind keeps_dirs_cont [OF publish_keeps]
        safe_mono [OF lockMountOf_removal [OF assms]] safe_mono [OF unit_op_removal] defer_unlock_removal acq
        simp del: bind_assoc)
qed

lemma NodeUnstageVolume_removal:
  assumes "store_keyed E"
  shows "safe (removal_step C) s (NodeUnstageVolume C E req) (\<lambda>_ _. True)"
proof -
  have rel: "safe (removal_step C) s (check_err (release C E st u) internal (ret None)) (\<lambda>_ _. True)"
    if "fst s = Some (VolumeID st, StagingPath st)" for s st u
    by (rule safe_check_err, rule safe_mono [OF keeps_mountD [OF release_removal]]) (use that in \<open>auto intro: safe_return\<close>)
  show ?thesis
    unfolding NodeUnstageVolume_def Let_def
    by (auto intro!: safe_case_option safe_if safe_return safe_bind
        safe_mono [OF lockMountOf_removal [OF assms]] defer_unlock_removal rel)
qed

lemma NodeUnpublishVolume_removal:
  assumes "store_keyed E"
  shows "safe (removal_step C) s (NodeUnpublishVolume C E req) (\<lambda>_ _. True)"
  unfolding NodeUnpublishVolume_def Let_def
  by (auto intro!: safe_case_option safe_if safe_return safe_bind
      safe_mono [OF lockMountOf_removal [OF assms]] defer_unlock_removal unpublish_removal)

text \<open>
  Claim C4. No call and no reconcile pass removes the directory of a mount, and with it files on
  the remote, unless the state of that mount was read before and its mount point, as the state
  names it, was then found not to be mounted: it was unmounted and, where it lies below the
  directory, removed as an empty directory, or it does not exist.
\<close>

theorem removals_safe:
  assumes "store_keyed E"
  shows "safe_removals C (trace (NodeStageVolume C E K stage) w)
    \<and> safe_removals C (trace (NodeUnstageVolume C E unstage) w)
    \<and> safe_removals C (trace (NodePublishVolume C E pub) w)
    \<and> safe_removals C (trace (NodeUnpublishVolume C E unpub) w)
    \<and> safe_removals C (trace (reconcile C E i) w)"
  using assms by (intro conjI safe_removalsI NodeStageVolume_removal NodeUnstageVolume_removal
      NodePublishVolume_removal NodeUnpublishVolume_removal reconcile_removal)

theorem removals_safe_witness:
  "safe_removals plain_config
     (trace (reconcile plain_config (sim_env plain_config) ''pv'') \<lparr>history = [], clock = 0\<rparr>)"
  using removals_safe [OF sim_env_keyed] by blast

section \<open>A shared mount stays up while it is used\<close>

text \<open>
  The monitor remembers the users of the mount whose state was read last, and permits unmounting
  anything but the path of the request itself, stopping a scope and removing a directory only
  where no other user is left.
\<close>

fun user_step :: "config \<Rightarrow> string \<Rightarrow> string list option \<Rightarrow> event \<Rightarrow> string list option option" where
  "user_step C path users (LoadEv _ _ r) =
     Some (case r of Inr st \<Rightarrow> Some (map fst (entries (Users (addLegacyUser C st)))) | Inl _ \<Rightarrow> None)"
| "user_step C path users (ErrEv (Unmount p) _) =
     (if p = path \<or> (users \<noteq> None \<and> set (the users) \<subseteq> {path}) then Some users else None)"
| "user_step C path users (ErrEv (StopScope _) _) =
     (if users \<noteq> None \<and> set (the users) \<subseteq> {path} then Some users else None)"
| "user_step C path users (RemoveAllEv _ _ _) =
     (if users \<noteq> None \<and> set (the users) \<subseteq> {path} then Some users else None)"
| "user_step C path users _ = Some users"

lemma user_step_quiet: "quiet ev \<Longrightarrow> user_step C p s ev = Some s"
  by (erule quiet.elims) simp_all

interpretation us: quiet_monitor "user_step C p" for C p
  by unfold_locales (rule user_step_quiet)

lemma detach_users:
  "p = path \<or> (\<exists>us. users = Some us \<and> set us \<subseteq> {path}) \<Longrightarrow>
   safe (user_step C path) users (detach E p) (\<lambda>_ u. u = users)"
  unfolding detach_def by (auto simp: next_ok_def intro!: safe_rules)

lemma stopScope_users:
  "set us \<subseteq> {path} \<Longrightarrow> safe (user_step C path) (Some us) (stopScope E i) (\<lambda>_ u. u = Some us)"
  unfolding stopScope_def by (auto simp: next_ok_def intro!: safe_rules)

lemma unmount_users:
  "set us \<subseteq> {path} \<Longrightarrow> safe (user_step C path) (Some us) (unmount C E i p) (\<lambda>_ u. u = Some us)"
  unfolding unmount_def
  by (auto simp: next_ok_def intro!: safe_rules us.safe_waitForUploads
      safe_mono [OF detach_users] safe_mono [OF stopScope_users])

lemma saveState_users: "safe (user_step C p) s (saveState C E st) (\<lambda>_ s'. s' = s)"
  unfolding saveState_def by (auto simp: next_ok_def intro!: safe_rules)

lemma delete_last_user: "entries (delete_from m k) = [] \<Longrightarrow> set (map fst (entries m)) \<subseteq> {k}"
  by (cases m) (auto simp: delete_from_def gdel_def AList.delete_eq filter_empty_conv)

lemma release_users:
  "users = Some (map fst (entries (Users st))) \<Longrightarrow>
   safe (user_step C path) users (release C E st path) (\<lambda>_ u. u = users)"
  unfolding release_def Let_def
  by (auto intro!: safe_rules saveState_users unmount_users dest: delete_last_user)

lemma lockMountOf_users:
  "safe (user_step C path) s (lockMountOf C E path)
     (\<lambda>r u. \<forall>st. r = Some st \<longrightarrow> u = Some (map fst (entries (Users st))))"
  by (rule us.safe_lockMountOf, rule us.safe_lock_first_use [where I = "\<lambda>_. True"])
    (auto simp: next_ok_def)

lemma unit_op_users: "safe (user_step C p) s (unit_op u) (\<lambda>_ s'. s' = s)"
  by (cases u) (auto simp: next_ok_def intro!: safe_rules)

lemma defer_unlock_users:
  "safe (user_step C p) s m (\<lambda>_ _. True) \<Longrightarrow> safe (user_step C p) s (defer_unlock i m) (\<lambda>_ _. True)"
  unfolding defer_unlock_def
  by (auto intro!: safe_bind safe_return safe_mono [OF unit_op_users] elim!: safe_mono)

lemma unpublish_users:
  "(\<forall>st. found = Some st \<longrightarrow> u = Some (map fst (entries (Users st)))) \<Longrightarrow>
   safe (user_step C t) u (unpublish C E found t) (\<lambda>_ _. True)"
  unfolding unpublish_def Let_def
  by (auto simp: next_ok_def intro!: safe_rules safe_mono [OF detach_users]
      safe_mono [OF saveState_users] safe_mono [OF release_users])

definition others_undisturbed :: "config \<Rightarrow> string \<Rightarrow> event list \<Rightarrow> bool" where
  "others_undisturbed C path tr \<longleftrightarrow> scan (user_step C path) None tr \<noteq> None"

lemma others_undisturbedI:
  "safe (user_step C path) None m (\<lambda>_ _. True) \<Longrightarrow> others_undisturbed C path (trace m w)"
  unfolding others_undisturbed_def by (drule safeD [where w = w]) auto

text \<open>
  Claim C21. When a volume leaves a mount, by unstaging or as an ephemeral volume by unpublishing,
  the mount is taken down, its scope stopped and its directory removed only if no other volume
  uses it according to the state read under its lock.
\<close>

theorem leaving_keeps_others:
  "others_undisturbed C (nu_staging_path unstage) (trace (NodeUnstageVolume C E unstage) w)
   \<and> others_undisturbed C (nup_target_path unpub) (trace (NodeUnpublishVolume C E unpub) w)"
proof (intro conjI others_undisturbedI)
  show "safe (user_step C (nu_staging_path unstage)) None (NodeUnstageVolume C E unstage) (\<lambda>_ _. True)"
    unfolding NodeUnstageVolume_def Let_def
    by (auto intro!: safe_case_option safe_if safe_return safe_bind safe_check_err
        safe_mono [OF lockMountOf_users] defer_unlock_users safe_mono [OF release_users])
  show "safe (user_step C (nup_target_path unpub)) None (NodeUnpublishVolume C E unpub) (\<lambda>_ _. True)"
    unfolding NodeUnpublishVolume_def Let_def
    by (auto intro!: safe_case_option safe_if safe_return safe_bind
        safe_mono [OF lockMountOf_users] defer_unlock_users unpublish_users)
qed

end
