(* ===== verification/Node_Start.thy ===== *)
theory Node_Start
  imports Node_Locks
begin

text \<open>
  A mount of an rclone that still runs is never replaced, because containers hold copies of the
  mount that live only as long as that rclone. The monitor here remembers what was read of a
  mount and permits the start of an rclone only for a mount that has no state yet, or whose mount
  point is known not to be served.
\<close>

section \<open>Starting rclone\<close>

text \<open>
  The last load, with the state or nothing where no state exists; the answer of the last probe of
  that state's mount point; whether the supervisor knew no process; the path unmounted last;
  whether the scope was stopped since; the state saved last.
\<close>

record start_watch =
  sw_load :: "(string \<times> volumeState option) option"
  sw_probe :: "(mount_state \<times> bool) option"
  sw_no_process :: bool
  sw_detached :: "string option"
  sw_refused :: "string option"
  sw_stopped :: bool
  sw_saved :: "volumeState option"

definition watch0 :: start_watch where
  "watch0 = \<lparr>sw_load = None, sw_probe = None, sw_no_process = False, sw_detached = None,
     sw_refused = None, sw_stopped = False, sw_saved = None\<rparr>"

text \<open>Whether the mount point of a state is down and its rclone gone.\<close>

definition down :: "(mount_state \<times> bool) option \<Rightarrow> bool \<Rightarrow> volumeState \<Rightarrow> bool" where
  "down probe no_process st = (case probe of
     None \<Rightarrow> False
   | Some (m, hung) \<Rightarrow> \<not> hung \<and> m \<noteq> Live \<and> (m = Other \<and> Mounted st \<longrightarrow> no_process))"

definition may_start :: "start_watch \<Rightarrow> string \<Rightarrow> string list \<Rightarrow> string \<Rightarrow> bool" where
  "may_start s i args path \<longleftrightarrow> sw_detached s = Some path \<and>
     (case sw_load s of
        None \<Rightarrow> False
      | Some (j, None) \<Rightarrow> j = i \<and>
          (case sw_saved s of
             None \<Rightarrow> False
           | Some st \<Rightarrow> VolumeID st = i \<and> Args st = args \<and> StagingPath st = path \<and> \<not> Mounted st)
      | Some (j, Some st) \<Rightarrow> j = i \<and> Args st = args \<and> StagingPath st = path \<and> sw_stopped s \<and> down (sw_probe s) (sw_no_process s) st)"

fun start_step :: "start_watch \<Rightarrow> event \<Rightarrow> start_watch option" where
  "start_step s (LoadEv _ i r) =
     Some (watch0\<lparr>sw_load := (case r of Inr st \<Rightarrow> Some (i, Some st)
                                     | Inl e \<Rightarrow> if IsNotExist e then Some (i, None) else None)\<rparr>)"
| "start_step s (ProbeEv p m e) =
     Some (case sw_load s of
             Some (_, Some st) \<Rightarrow>
               if p = StagingPath st
               then s\<lparr>sw_probe := Some (m, case e of Some e \<Rightarrow> IsHung e | None \<Rightarrow> False), sw_no_process := False\<rparr>
               else s
           | _ \<Rightarrow> s)"
| "start_step s (PidEv i n) =
     Some (if map_option fst (sw_load s) = Some i then s\<lparr>sw_no_process := (n = 0)\<rparr> else s)"
| "start_step s (ErrEv (Unmount p) r) =
     Some (case r of
             None \<Rightarrow> s\<lparr>sw_detached := Some p, sw_refused := None, sw_stopped := False\<rparr>
           | Some e \<Rightarrow> s\<lparr>sw_detached := None, sw_refused := if IsEPERM e then Some p else None, sw_stopped := False\<rparr>)"
| "start_step s (StatusEv p m) =
     Some (if sw_refused s = Some p \<and> m \<noteq> Live \<and> m \<noteq> Dead then s\<lparr>sw_detached := Some p\<rparr> else s)"
| "start_step s (ErrEv (StopScope i) r) =
     Some (if map_option fst (sw_load s) = Some i \<and> r = None then s\<lparr>sw_stopped := True\<rparr> else s)"
| "start_step s (ErrEv (Save _ _ st) r) = Some (if r = None then s\<lparr>sw_saved := Some st\<rparr> else s)"
| "start_step s (IntEv (Start i args _ path _) _) =
     (if may_start s i args path then Some (s\<lparr>sw_probe := None, sw_stopped := False, sw_saved := None\<rparr>) else None)"
| "start_step s _ = Some s"

lemma start_step_quiet: "quiet ev \<Longrightarrow> start_step s ev = Some s"
  by (erule quiet.elims) simp_all

interpretation sw: quiet_monitor start_step
  by unfold_locales (rule start_step_quiet)

lemma detach_start:
  "safe start_step s (detach E p) (\<lambda>r s'. sw_load s' = sw_load s \<and> sw_probe s' = sw_probe s \<and>
     sw_no_process s' = sw_no_process s \<and> sw_saved s' = sw_saved s \<and> (r = None \<longrightarrow> sw_detached s' = Some p))"
  unfolding detach_def by (auto simp: next_ok_def intro!: safe_rules)

lemma startRclone_start:
  "may_start s (VolumeID st) (Args st) (StagingPath st) \<Longrightarrow>
   safe start_step s (startRclone C E st) (\<lambda>_ _. True)"
  by (rule sw.safe_startRclone) (simp add: next_ok_def split_sum_all)

lemma remount_start:
  assumes "sw_load s = Some (VolumeID st, Some st0)" "Args st0 = Args st" "StagingPath st0 = StagingPath st" "down (sw_probe s) (sw_no_process s) st0"
  shows "safe start_step s (remount C E st) (\<lambda>_ _. True)"
  using assms unfolding remount_def
  by (auto simp: next_ok_def may_start_def intro!: safe_rules safe_mono [OF detach_start] startRclone_start)

lemma check_start:
  assumes "sw_load s = Some (VolumeID st, Some st0)" "StagingPath st0 = StagingPath st" "Mounted st0 = Mounted st"
  shows "safe start_step s (check C E st)
    (\<lambda>r s'. sw_load s' = sw_load s \<and> (\<forall>m. r = Inr m \<and> m \<noteq> Live \<longrightarrow> down (sw_probe s') (sw_no_process s') st0))"
  using assms unfolding check_def
  by (auto simp: next_ok_def down_def split: option.splits intro!: safe_rules)

lemma saveState_start: "safe start_step s (saveState C E st) (\<lambda>_ _. True)"
  unfolding saveState_def by (auto simp: next_ok_def intro!: safe_rules)

lemma mount_start:
  assumes "sw_load s = Some (i, None)" "sw_detached s = Some p"
  shows "safe start_step s (mount C E i a p) (\<lambda>_ _. True)"
proof -
  have started: "safe start_step s' (do { err \<leftarrow> startRclone C E (mount_state_of C i a p);
        case err of Some e \<Rightarrow> do { _ \<leftarrow> err_op E (Remove (statePath C i)); ret (Some e) }
        | None \<Rightarrow> saveState C E ((mount_state_of C i a p)\<lparr>Mounted := True\<rparr>) }) (\<lambda>_ _. True)"
    if "s' = s\<lparr>sw_saved := Some (mount_state_of C i a p)\<rparr>" for s'
    using assms that
    by (auto simp: may_start_def mount_state_of_def next_ok_def intro!: safe_rules safe_mono [OF startRclone_start] saveState_start)
  show ?thesis
    unfolding mount_def Let_def saveState_def [of _ _ "mount_state_of C i a p"]
    by (auto simp: next_ok_def intro!: safe_check_err safe_if safe_return safe_err started)
qed

lemma mountRclone_start:
  "sw_load s = Some (i, None) \<Longrightarrow> safe start_step s (mountRclone C E i a) (\<lambda>_ _. True)"
  unfolding mountRclone_def
  by (auto intro!: safe_rules safe_mono [OF detach_start] safe_mono [OF mount_start])

lemma add_user_start: "safe start_step s (add_user C E st u) (\<lambda>_ _. True)"
  unfolding add_user_def Let_def
  by (auto intro!: safe_rules safe_mono [OF saveState_start])

lemma loadState_start:
  "store_keyed E \<Longrightarrow> safe start_step s (loadState C E i)
     (\<lambda>r s'. case r of
        Inl e \<Rightarrow> IsNotExist e \<longrightarrow> sw_load s' = Some (i, None)
      | Inr st \<Rightarrow> \<exists>st0. st = addLegacyUser C st0 \<and> VolumeID st = i \<and> sw_load s' = Some (i, Some st0))"
  unfolding loadState_def
  by (auto simp: next_ok_def store_keyed_def split: sum.splits intro!: safe_rules)

lemma acquire_start:
  assumes "store_keyed E"
  shows "safe start_step s (acquire C E i a u) (\<lambda>_ _. True)"
  unfolding acquire_def
proof (rule safe_bind, rule safe_mono [OF loadState_start [OF assms]], rule safe_case_sum)
  fix r e and s' :: start_watch
  assume "case r of Inl e \<Rightarrow> IsNotExist e \<longrightarrow> sw_load s' = Some (i, None)
      | Inr st \<Rightarrow> \<exists>st0. st = addLegacyUser C st0 \<and> VolumeID st = i \<and> sw_load s' = Some (i, Some st0)" "r = Inl e"
  then show "safe start_step s' (if IsNotExist e then acquire_new C E i a u else ret (Inl (Status Internal (Error e)))) (\<lambda>_ _. True)"
    unfolding acquire_new_def
    by (auto intro!: safe_rules safe_mono [OF mountRclone_start] safe_mono [OF loadState_start [OF assms]] add_user_start)
next
  fix r and s' :: start_watch and st :: volumeState
  assume "case r of Inl e \<Rightarrow> IsNotExist e \<longrightarrow> sw_load s' = Some (i, None)
      | Inr st \<Rightarrow> \<exists>st0. st = addLegacyUser C st0 \<and> VolumeID st = i \<and> sw_load s' = Some (i, Some st0)" "r = Inr st"
  then obtain st0 where st0: "st = addLegacyUser C st0" "VolumeID st = i" "sw_load s' = Some (i, Some st0)" by auto
  then have chk: "safe start_step s' (check C E st)
    (\<lambda>r s''. sw_load s'' = Some (VolumeID st, Some st0) \<and> (\<forall>m. r = Inr m \<and> m \<noteq> Live \<longrightarrow> down (sw_probe s'') (sw_no_process s'') st0))"
    using check_start [of s' st st0] by simp
  have up: "safe start_step s'' (remount C E st) (\<lambda>_ _. True)"
    if "sw_load s'' = Some (VolumeID st, Some st0)" "down (sw_probe s'') (sw_no_process s'') st0" for s''
    using that st0 by (intro remount_start) simp_all
  show "safe start_step s' (acquire_known C E st u) (\<lambda>_ _. True)"
    unfolding acquire_known_def
    by (auto intro!: safe_rules safe_mono [OF chk] safe_mono [OF up] add_user_start)
qed

text \<open>What starts nothing is permitted in every state.\<close>

abbreviation starts_nothing :: "'a node_op \<Rightarrow> bool" where
  "starts_nothing m \<equiv> (\<forall>s. safe start_step s m (\<lambda>_ _. True))"

lemma starts_nothing_cont: "starts_nothing m \<Longrightarrow> (\<And>x s. Q x s) \<Longrightarrow> safe start_step s m Q"
  by (erule allE, erule safe_mono) simp

lemma detach_starts: "starts_nothing (detach E p)"
  by (auto intro: safe_mono [OF detach_start])

lemma unit_op_starts: "starts_nothing (unit_op u)"
  by (auto simp: next_ok_def intro!: safe_rules)

lemma live_starts: "starts_nothing (live E p)"
  unfolding live_def by (auto simp: next_ok_def intro!: safe_rules)

lemma err_op_starts: "starts_nothing (err_op E c)"
  by (cases c) (auto simp: next_ok_def intro!: safe_rules)

lemma remove_all_starts: "starts_nothing (remove_all_op E d)"
  by (auto simp: next_ok_def intro!: safe_rules)

lemma rebind_targets_starts: "starts_nothing (rebind_targets E p ts)"
proof (induction ts)
  case (Cons t ts)
  show ?case
    by (cases t) (auto simp: next_ok_def intro!: safe_rules starts_nothing_cont [OF detach_starts] starts_nothing_cont [OF Cons])
qed (auto intro: safe_return)

lemma drop_gone_users_starts: "starts_nothing (drop_gone_users E us)"
proof (induction us)
  case (Cons u us)
  show ?case by (auto simp: next_ok_def intro!: safe_rules starts_nothing_cont [OF Cons])
qed (auto intro: safe_return)

lemma unmount_starts: "starts_nothing (unmount C E i p)"
  unfolding unmount_def stopScope_def
  by (auto simp: next_ok_def intro!: safe_rules sw.safe_waitForUploads starts_nothing_cont [OF detach_starts])

lemma reconcile_users_starts: "starts_nothing (reconcile_users C E i st)"
  unfolding reconcile_users_def
  by (auto intro!: safe_rules starts_nothing_cont [OF rebind_targets_starts]
      starts_nothing_cont [OF drop_gone_users_starts] starts_nothing_cont [OF unmount_starts] safe_mono [OF saveState_start])

lemma reconcile_start:
  assumes "store_keyed E"
  shows "safe start_step s (reconcile C E i) (\<lambda>_ _. True)"
  unfolding reconcile_def
proof (rule safe_bind, rule safe_mono [OF loadState_start [OF assms]], rule safe_case_sum)
  fix r and s' :: start_watch and st :: volumeState
  assume "case r of Inl e \<Rightarrow> IsNotExist e \<longrightarrow> sw_load s' = Some (i, None)
      | Inr st \<Rightarrow> \<exists>st0. st = addLegacyUser C st0 \<and> VolumeID st = i \<and> sw_load s' = Some (i, Some st0)" "r = Inr st"
  then obtain st0 where st0: "st = addLegacyUser C st0" "VolumeID st = i" "sw_load s' = Some (i, Some st0)" by auto
  then have chk: "safe start_step s' (check C E st)
    (\<lambda>r s''. sw_load s'' = Some (VolumeID st, Some st0) \<and>
       (\<forall>m. r = Inr m \<and> m \<noteq> Live \<longrightarrow> down (sw_probe s'') (sw_no_process s'') st0))"
    using check_start [of s' st st0] by simp
  have up: "safe start_step s'' (remount C E st) (\<lambda>_ _. True)"
    if "sw_load s'' = Some (VolumeID st, Some st0)" "down (sw_probe s'') (sw_no_process s'') st0" for s''
    using that st0 by (intro remount_start) simp_all
  show "safe start_step s' (reconcile_known C E i st) (\<lambda>_ _. True)"
    unfolding reconcile_known_def
    by (auto simp: stopScope_def intro!: safe_bind safe_case_sum safe_if safe_return safe_check_err safe_mono [OF chk]
        safe_mono [OF up] starts_nothing_cont [OF reconcile_users_starts] starts_nothing_cont [OF err_op_starts] starts_nothing_cont [OF remove_all_starts])
qed (simp add: safe_return)

lemma lockMountOf_start: "safe start_step s (lockMountOf C E path) (\<lambda>_ _. True)"
  by (rule sw.safe_lockMountOf, rule sw.safe_lock_first_use [where I = "\<lambda>_. True"])
    (auto simp: next_ok_def)

lemma publish_starts: "starts_nothing (publish C E st v t ro)"
  unfolding publish_def
  by (auto intro!: safe_bind safe_if safe_return safe_check_err starts_nothing_cont [OF live_starts]
      safe_mono [OF saveState_start] starts_nothing_cont [OF detach_starts] starts_nothing_cont [OF err_op_starts] starts_nothing_cont [OF remove_all_starts])

lemma defer_unlock_start:
  "safe start_step s m (\<lambda>_ _. True) \<Longrightarrow> safe start_step s (defer_unlock i m) (\<lambda>_ _. True)"
  unfolding defer_unlock_def
  by (auto intro!: safe_bind safe_return starts_nothing_cont [OF unit_op_starts] elim!: safe_mono)

definition starts_safely :: "event list \<Rightarrow> bool" where
  "starts_safely tr \<longleftrightarrow> scan start_step watch0 tr \<noteq> None"

lemma starts_safelyI: "safe start_step watch0 m (\<lambda>_ _. True) \<Longrightarrow> starts_safely (trace m w)"
  unfolding starts_safely_def by (drule safeD [where w = w]) auto

lemma NodeStageVolume_start:
  assumes "store_keyed E"
  shows "safe start_step s (NodeStageVolume C E K req) (\<lambda>_ _. True)"
  unfolding NodeStageVolume_def Let_def
  by (auto intro!: safe_case_option safe_case_sum safe_if safe_return safe_check_err safe_bind
      starts_nothing_cont [OF err_op_starts] safe_mono [OF lockMountOf_start] starts_nothing_cont [OF unit_op_starts]
      defer_unlock_start safe_mono [OF acquire_start [OF assms]] simp del: bind_assoc)

lemma NodePublishVolume_start:
  assumes "store_keyed E"
  shows "safe start_step s (NodePublishVolume C E req) (\<lambda>_ _. True)"
  unfolding NodePublishVolume_def Let_def
  by (auto intro!: safe_case_option safe_case_sum safe_if safe_return safe_bind
      safe_mono [OF lockMountOf_start] starts_nothing_cont [OF unit_op_starts] starts_nothing_cont [OF publish_starts]
      defer_unlock_start safe_mono [OF acquire_start [OF assms]] simp del: bind_assoc)

text \<open>
  Claim C5. An rclone is started only where none serves the mount. For a mount that has no state the
  state is saved first, with the same arguments and not marked as mounted; for a mount that has
  one, its mount point answered the probe and is not live, and where it is a plain directory
  although rclone came up there before, the supervisor knows no process of it. In both cases the
  mount point was unmounted before, in the second the old scope was stopped.
\<close>

theorem starts_only_where_down:
  assumes "store_keyed E"
  shows "starts_safely (trace (NodeStageVolume C E K stage) w)
    \<and> starts_safely (trace (NodePublishVolume C E pub) w)
    \<and> starts_safely (trace (reconcile C E i) w)"
  using assms by (intro conjI starts_safelyI NodeStageVolume_start NodePublishVolume_start reconcile_start)

theorem starts_only_where_down_witness:
  "starts_safely (trace (NodeStageVolume plain_config (sim_env plain_config) example_kube example_stage)
     \<lparr>history = [], clock = 0\<rparr>)"
  using starts_only_where_down [OF sim_env_keyed] by blast

end
