(* ===== verification/Registry.thy ===== *)
theory Registry
  imports Monitors
begin

text \<open>
  The abstract specification of the node plugin: a registry of mounts, each with its users and its
  bind targets. The volume calls refine operations on it: joining and leaving a mount,
  recording and forgetting a target. The abstraction reads the state files.
\<close>

section \<open>The registry\<close>

type_synonym registry = "string \<Rightarrow> (string set \<times> (string \<rightharpoonup> bool)) option"

definition used_by :: "registry \<Rightarrow> string \<Rightarrow> string set" where
  "used_by A path = {i. \<exists>U T. A i = Some (U, T) \<and> (path \<in> U \<or> T path \<noteq> None)}"

definition join_spec :: "string \<Rightarrow> string \<Rightarrow> registry \<Rightarrow> registry" where
  "join_spec i user A =
     A(i \<mapsto> (case A i of None \<Rightarrow> ({user}, Map.empty) | Some (U, T) \<Rightarrow> (insert user U, T)))"

text \<open>A user leaves a mount that has it; the last one takes the mount along.\<close>

definition leave_spec :: "string \<Rightarrow> string \<Rightarrow> registry \<Rightarrow> registry" where
  "leave_spec i user A =
     (case A i of
        None \<Rightarrow> A
      | Some (U, T) \<Rightarrow> A(i := if U - {user} = {} then None else Some (U - {user}, T)))"

definition bind_spec :: "string \<Rightarrow> string \<Rightarrow> bool \<Rightarrow> registry \<Rightarrow> registry" where
  "bind_spec i target readOnly A =
     (case A i of None \<Rightarrow> A | Some (U, T) \<Rightarrow> A(i \<mapsto> (U, T(target \<mapsto> readOnly))))"

text \<open>A target leaves; if it is a user, as that of an ephemeral volume, it leaves as such too.\<close>

definition unbind_spec :: "string \<Rightarrow> string \<Rightarrow> registry \<Rightarrow> registry" where
  "unbind_spec i target A =
     (case A i of
        None \<Rightarrow> A
      | Some (U, T) \<Rightarrow>
          A(i := if U = {target} then None else Some (U - {target}, T(target := None))))"

section \<open>The abstraction\<close>

text \<open>What a state has in its maps, and what it means when it is read back: a state without users
  that is not mounted below the state directory is one of release 4.0.0, whose user is where it
  is mounted.\<close>

definition maps_of :: "volumeState \<Rightarrow> string set \<times> (string \<rightharpoonup> bool)" where
  "maps_of st = (dom (map_of (entries (Users st))), map_of (entries (Targets st)))"

definition usage :: "config \<Rightarrow> volumeState \<Rightarrow> string set \<times> (string \<rightharpoonup> bool)" where
  "usage C st =
     (if fst (maps_of st) = {} \<and> StagingPath st \<noteq> mountPath C (VolumeID st) then {StagingPath st} else fst (maps_of st),
      snd (maps_of st))"

definition registry_of :: "config \<Rightarrow> event list \<Rightarrow> registry" where
  "registry_of C h i = map_option (usage C) (stored C h i)"

text \<open>The directories and state files of the given mounts are distinct.\<close>

definition distinct_dirs :: "config \<Rightarrow> string set \<Rightarrow> bool" where
  "distinct_dirs C I \<longleftrightarrow> inj_on (volumeDir C) I \<and> inj_on (statePath C) I"

text \<open>A state in memory that says what the registry has.\<close>

definition current :: "config \<Rightarrow> registry \<Rightarrow> volumeState \<Rightarrow> bool" where
  "current C A st \<longleftrightarrow> A (VolumeID st) = Some (maps_of st) \<and> usage C st = maps_of st"

lemma usage_nonempty: "fst (maps_of st) \<noteq> {} \<Longrightarrow> usage C st = maps_of st"
  by (simp add: usage_def)

lemma maps_of_updates:
  "maps_of (st\<lparr>Users := store_in us u ()\<rparr>) = (insert u (dom (map_of (entries us))), snd (maps_of st))"
  "maps_of (st\<lparr>Targets := store_in ts t b\<rparr>) = (fst (maps_of st), (map_of (entries ts))(t \<mapsto> b))"
  "maps_of (st\<lparr>Users := delete_from us u\<rparr>) = (dom (map_of (entries us)) - {u}, snd (maps_of st))"
  "maps_of (st\<lparr>Targets := delete_from ts t\<rparr>) = (fst (maps_of st), (map_of (entries ts))(t := None))"
  "maps_of (st\<lparr>Mounted := b\<rparr>) = maps_of st"
  by (simp_all add: maps_of_def entries_store_in entries_delete_from)

lemma entries_dom: "entries m = [] \<longleftrightarrow> dom (map_of (entries m)) = {}"
  by (simp only: entries_empty_iff dom_eq_empty_conv)

lemma usage_read_back:
  assumes "read_back st saved"
  shows "maps_of (addLegacyUser C st) = usage C saved" "usage C (addLegacyUser C st) = usage C saved"
proof -
  have fields: "VolumeID st = VolumeID saved" "StagingPath st = StagingPath saved"
    and maps: "maps_of st = maps_of saved" and nil: "Users st = None \<longleftrightarrow> fst (maps_of saved) = {}"
    using assms unfolding read_back_def same_map_def maps_of_def entries_dom by simp_all
  show *: "maps_of (addLegacyUser C st) = usage C saved"
  proof (cases "Users st = None \<and> StagingPath st \<noteq> mountPath C (VolumeID st)")
    case True
    then show ?thesis using maps nil fields by (simp add: addLegacyUser_def usage_def maps_of_def)
  next
    case False
    then have "usage C saved = maps_of saved" using nil fields by (auto simp: usage_def)
    moreover have "addLegacyUser C st = st" using False by (simp only: addLegacyUser_def if_False)
    ultimately show ?thesis using maps by simp
  qed
  then show "usage C (addLegacyUser C st) = usage C saved" using fields by (auto simp: usage_def)
qed

lemma uses_maps: "uses st path \<longleftrightarrow> path \<in> fst (maps_of st) \<or> snd (maps_of st) path \<noteq> None"
  by (simp add: uses_def maps_of_def ghas_def dom_def)

lemma used_by_iff: "i \<in> used_by A path \<longleftrightarrow> (\<exists>u. A i = Some u \<and> (path \<in> fst u \<or> snd u path \<noteq> None))"
  by (simp add: used_by_def)

lemma used_by_current: "current C A st \<Longrightarrow> uses st path \<longleftrightarrow> VolumeID st \<in> used_by A path"
  by (simp add: current_def uses_maps used_by_iff)

section \<open>What leaves the store alone\<close>

fun inert :: "config \<Rightarrow> event \<Rightarrow> bool" where
  "inert C (ErrEv (Save _ _ _) _) = False"
| "inert C (RemoveAllEv _ _ _) = False"
| "inert C (ErrEv (Remove p) _) = (\<forall>i. statePath C i \<noteq> p)"
| "inert C _ = True"

lemma store_event_inert: "inert C ev \<Longrightarrow> store_event C S ev = S"
  by (induction C ev rule: inert.induct) (simp_all add: fun_eq_iff)

lemma foldl_inert: "list_all (inert C) tr \<Longrightarrow> foldl (store_event C) S tr = S"
  by (induction tr) (simp_all add: store_event_inert)

lemma quiet_inert: "quiet ev \<Longrightarrow> inert C ev"
  by (erule quiet.elims) simp_all

abbreviation idle :: "config \<Rightarrow> 'a node_op \<Rightarrow> bool" where
  "idle C m \<equiv> emits m (\<lambda>_ tr. list_all (inert C) tr)"

lemma registry_inert: "list_all (inert C) tr \<Longrightarrow> registry_of C (h @ tr) = registry_of C h"
  by (simp add: registry_of_def fun_eq_iff foldl_inert)

lemma idle_runs: "idle C m \<Longrightarrow> (\<And>x h'. registry_of C h' = registry_of C h \<Longrightarrow> Q x h') \<Longrightarrow> runs m h Q"
  by (erule runs_emits) (simp add: registry_inert)

lemma quiet_idle: "emits_quiet m \<Longrightarrow> idle C m"
  by (erule emits_mono) (auto simp: list_all_iff quiet_inert)

lemma detach_idle: "idle C (detach E p)"
  unfolding detach_def by (auto intro!: emits_rules)

lemma live_idle: "idle C (live E p)"
  unfolding live_def by (auto intro!: emits_rules)

lemma check_idle: "idle C (check C' E st)"
  unfolding check_def by (auto intro!: emits_rules)

lemma stopScope_idle: "idle C (stopScope E i)"
  unfolding stopScope_def by (auto intro!: emits_rules)

lemma startRclone_idle: "idle C (startRclone C E st)"
  unfolding startRclone_def Let_def
  by (auto simp: files_differ [symmetric] intro!: emits_rules emits_mono [OF quiet_idle [OF readLog_quiet]])

lemma remount_idle: "idle C (remount C E st)"
  unfolding remount_def
  by (auto intro!: emits_rules emits_mono [OF detach_idle] emits_mono [OF startRclone_idle])

lemmas idle_ops = detach_idle live_idle check_idle stopScope_idle startRclone_idle remount_idle

section \<open>The operations on the registry\<close>

lemma registry_saved:
  "registry_of C (h @ [ErrEv (Save s i st) None]) = (registry_of C h)(VolumeID st \<mapsto> usage C st)"
  by (simp add: registry_of_def fun_eq_iff)

lemma saveState_reg:
  "runs (saveState C E st) h (\<lambda>r h'. registry_of C h' =
     (if r = None then (registry_of C h)(VolumeID st \<mapsto> usage C st) else registry_of C h))"
  unfolding saveState_def by (rule runs_err) (auto simp: registry_of_def fun_eq_iff)

lemma loadState_reg:
  assumes "store_law C E"
  shows "runs (loadState C E i) h (\<lambda>r h'. registry_of C h' = registry_of C h \<and>
    (if registry_of C h i = None then \<exists>e. r = Inl e \<and> IsNotExist e
     else \<exists>st. r = Inr st \<and> VolumeID st = i \<and> current C (registry_of C h) st))"
proof (cases "stored C h i")
  case None
  then obtain e where "ans_load E h (stateStore C) i = Inl e" "IsNotExist e"
    using assms unfolding store_law_def by blast
  with None show ?thesis unfolding loadState_def by (auto simp: registry_of_def intro!: runs_rules)
next
  case (Some saved)
  then obtain st where st: "ans_load E h (stateStore C) i = Inr st" "read_back st saved"
    using assms unfolding store_law_def by blast
  moreover have id: "VolumeID st = i" using st(2) stored_keyed [OF Some] by (simp add: read_back_def)
  moreover have "current C (registry_of C h) (addLegacyUser C st)"
    using usage_read_back [OF st(2), of C] Some id by (simp add: current_def registry_of_def)
  ultimately show ?thesis
    using Some unfolding loadState_def by (auto simp: registry_of_def fun_eq_iff intro!: runs_rules)
qed

lemma only_one:
  assumes "inj_on f (insert i (dom A))"
  shows "(\<lambda>j. if f j = f i then None else A j) = A(i := None)"
proof
  fix j
  show "(if f j = f i then None else A j) = (A(i := None)) j"
  proof (cases "A j")
    case (Some u)
    then have "f j = f i \<longleftrightarrow> j = i" using inj_on_eq_iff [OF assms, of j i] by (simp add: domI)
    then show ?thesis by simp
  qed simp
qed

lemma registry_removed:
  assumes "distinct_dirs C (insert i (dom (registry_of C h)))"
  shows "r = None \<or> gone \<Longrightarrow> registry_of C (h @ [RemoveAllEv (volumeDir C i) gone r]) = (registry_of C h)(i := None)"
    "registry_of C (h @ [ErrEv (Remove (statePath C i)) None]) = (registry_of C h)(i := None)"
proof -
  have "r = None \<or> gone \<Longrightarrow> registry_of C (h @ [RemoveAllEv (volumeDir C i) gone r]) =
      (\<lambda>j. if volumeDir C j = volumeDir C i then None else registry_of C h j)"
    "registry_of C (h @ [ErrEv (Remove (statePath C i)) None]) =
      (\<lambda>j. if statePath C j = statePath C i then None else registry_of C h j)"
    by (auto simp: registry_of_def fun_eq_iff)
  then show "r = None \<or> gone \<Longrightarrow> registry_of C (h @ [RemoveAllEv (volumeDir C i) gone r]) = (registry_of C h)(i := None)"
    "registry_of C (h @ [ErrEv (Remove (statePath C i)) None]) = (registry_of C h)(i := None)"
    using only_one [of "volumeDir C" i "registry_of C h"] only_one [of "statePath C" i "registry_of C h"] assms
    unfolding distinct_dirs_def by simp_all
qed

lemma registry_failed: "r \<noteq> None \<Longrightarrow> registry_of C (h @ [ErrEv c r]) = registry_of C h"
  by (cases c) (auto simp: registry_of_def fun_eq_iff)

lemma registry_idle_events [simp]:
  "registry_of C (h @ [UnitEv u]) = registry_of C h"
  "registry_of C (h @ [LoadAllEv s sts errs]) = registry_of C h"
  "(\<And>j. statePath C j \<noteq> p) \<Longrightarrow> registry_of C (h @ [ErrEv (Remove p) r]) = registry_of C h"
  by (rule registry_inert; simp)+

text \<open>
  What a step that leads from \<open>A\<close> to \<open>B\<close> does when it may fail: if \<open>B\<close> has lost the entry of the
  mount, its state file may be gone although the removal of its directory failed.
\<close>

definition departed :: "string \<Rightarrow> registry \<Rightarrow> registry \<Rightarrow> go_error option \<Rightarrow> registry \<Rightarrow> bool" where
  "departed i A B r A' \<longleftrightarrow> (if r = None then A' = B else A' = A \<or> B i = None \<and> A' = B)"

lemma departedI:
  "A' = B \<Longrightarrow> r = None \<or> B i = None \<Longrightarrow> departed i A B r A'"
  "r \<noteq> None \<Longrightarrow> A' = A \<Longrightarrow> departed i A B r A'"
  by (auto simp: departed_def)

lemma departed_mono: "departed i A B r A' \<Longrightarrow> r = None \<longleftrightarrow> s = None \<Longrightarrow> departed i A B s A'"
  by (auto simp: departed_def)

lemma registry_remove_all:
  assumes "distinct_dirs C (insert i (dom (registry_of C h)))"
  shows "departed i (registry_of C h) ((registry_of C h)(i := None)) r (registry_of C (h @ [RemoveAllEv (volumeDir C i) gone r]))"
proof (cases "r = None \<or> gone")
  case True
  then show ?thesis by (simp add: registry_removed(1) [OF assms] departedI(1))
next
  case False
  then show ?thesis by (intro departedI(2)) (auto simp: registry_of_def fun_eq_iff)
qed

lemma unmount_reg:
  assumes "distinct_dirs C (insert i (dom (registry_of C h)))"
  shows "runs (unmount C E i p) h (\<lambda>r h'. departed i (registry_of C h) ((registry_of C h)(i := None)) r (registry_of C h'))"
proof -
  let ?left = "\<lambda>r h'. departed i (registry_of C h) ((registry_of C h)(i := None)) r (registry_of C h')"
  have failed: "?left r h'" if "r \<noteq> None" "registry_of C h' = registry_of C h" for r h' by (rule departedI(2) [OF that])
  have last: "runs (remove_all_op E (volumeDir C i)) h' ?left"
    if "registry_of C h' = registry_of C h" for h'
    by (rule runs_remove_all) (use registry_remove_all [of C i h'] that assms in simp)
  have mid: "runs (check_err (if p = mountPath C i then err_op E (Remove p) \<bind> (\<lambda>err. ret (case err of Some e \<Rightarrow>
      if IsNotExist e then None else Some e | None \<Rightarrow> None)) else ret None) Some (remove_all_op E (volumeDir C i))) h' ?left"
    if "registry_of C h' = registry_of C h" for h'
    by (intro runs_check_err runs_if runs_bind runs_err runs_return)
      (use that in \<open>auto simp: files_differ(2) [THEN not_sym] intro!: last failed\<close>)
  show ?thesis
    unfolding unmount_def
    by (intro runs_bind idle_runs [OF quiet_idle [OF waitForUploads_quiet], of C] runs_check_err
        idle_runs [OF detach_idle, of C] conjI impI allI idle_runs [OF stopScope_idle, of C] mid failed) simp_all
qed

lemma release_reg:
  assumes dirs: "distinct_dirs C (insert (VolumeID st) (dom (registry_of C h)))"
  shows "runs (release C E st u) h (\<lambda>r h'. departed (VolumeID st) (registry_of C h)
    ((registry_of C h)(VolumeID st := if fst (maps_of st) - {u} = {} then None
        else Some (fst (maps_of st) - {u}, snd (maps_of st)))) r (registry_of C h'))"
proof -
  let ?st = "st\<lparr>Users := delete_from (Users st) u\<rparr>"
  have "maps_of ?st = (fst (maps_of st) - {u}, snd (maps_of st))" by (simp add: maps_of_def entries_delete_from)
  moreover have "entries (Users ?st) = [] \<longleftrightarrow> fst (maps_of ?st) = {}" unfolding maps_of_def fst_conv by (rule entries_dom)
  ultimately show ?thesis
    unfolding release_def Let_def
    by (intro runs_if; intro runs_mono [OF saveState_reg] runs_mono [OF unmount_reg]) (use dirs in \<open>auto simp: usage_nonempty departed_def\<close>)
qed

lemma release_leaves:
  assumes "distinct_dirs C (insert (VolumeID st) (dom A))" "registry_of C h = A" "current C A st"
  shows "runs (release C E st u) h (\<lambda>r h'. departed (VolumeID st) A (leave_spec (VolumeID st) u A) r (registry_of C h'))"
  by (rule runs_mono [OF release_reg]) (use assms in \<open>auto simp: leave_spec_def current_def case_prod_beta\<close>)

text \<open>What a lookup of a path gives, as a rule for what follows it.\<close>

lemma runs_lock_first_use:
  assumes law: "store_law C E" and A: "registry_of C h = A"
    and sts: "\<forall>found\<in>set sts. current C A found"
    and none: "\<And>h'. registry_of C h' = A \<Longrightarrow> \<forall>found\<in>set sts. \<not> uses found path \<Longrightarrow> Q None h'"
    and some: "\<And>st h'. registry_of C h' = A \<Longrightarrow> current C A st \<Longrightarrow> uses st path \<Longrightarrow> Q (Some st) h'"
  shows "runs (lock_first_use C E path sts) h Q"
  using A sts none
proof (induction sts arbitrary: h)
  case (Cons found sts)
  show ?case
  proof (cases "uses found path")
    case False
    with Cons show ?thesis by simp
  next
    case True
    let ?h = "h @ [UnitEv (Lock (VolumeID found))]"
    have "VolumeID found \<in> used_by A path" using used_by_current True Cons.prems(2) by (metis list.set_intros(1))
    then have "A (VolumeID found) \<noteq> None" by (auto simp: used_by_iff)
    then have load: "runs (loadState C E (VolumeID found)) ?h (\<lambda>r h'. registry_of C h' = A \<and>
        (\<exists>st. r = Inr st \<and> uses st path \<and> current C A st))"
      using loadState_reg [OF law, of "VolumeID found" ?h] Cons.prems(1) \<open>VolumeID found \<in> used_by A path\<close>
      by (auto elim!: runs_mono simp: used_by_current)
    show ?thesis
      unfolding lock_first_use.simps
      by (rule runs_if, simp add: True, rule runs_bind, rule runs_unit, rule runs_bind, rule runs_mono [OF load])
        (auto intro!: runs_return some)
  qed
qed (auto intro: runs_return)

text \<open>The states that are listed say what the registry has, and every mount in it is among them.\<close>

lemma listed_states:
  assumes law: "store_law C E" and states: "ans_states E h (stateStore C) = (sts, errs)"
  shows "st \<in> set sts \<Longrightarrow> current C (registry_of C h) (addLegacyUser C st)"
    "registry_of C h i \<noteq> None \<Longrightarrow> \<exists>st\<in>set sts. VolumeID st = i \<and> current C (registry_of C h) (addLegacyUser C st)"
proof -
  have entry: "VolumeID st = i \<and> current C (registry_of C h) (addLegacyUser C st)"
    if "read_back st saved" "stored C h i = Some saved" for st saved i
  proof -
    have "VolumeID st = i" using that(1) stored_keyed [OF that(2)] by (simp add: read_back_def)
    then show ?thesis using usage_read_back [OF that(1), of C] that(2) by (simp add: current_def registry_of_def)
  qed
  show "current C (registry_of C h) (addLegacyUser C st)" if st: "st \<in> set sts"
  proof -
    have "\<exists>i saved. stored C h i = Some saved \<and> read_back st saved"
      using law states st unfolding store_law_def by (metis fst_conv)
    then show ?thesis using entry by blast
  qed
  show "\<exists>st\<in>set sts. VolumeID st = i \<and> current C (registry_of C h) (addLegacyUser C st)" if i: "registry_of C h i \<noteq> None"
  proof -
    obtain saved where saved: "stored C h i = Some saved" using i by (auto simp: registry_of_def)
    then have "\<exists>st\<in>set sts. read_back st saved" using law states unfolding store_law_def by (metis fst_conv)
    then show ?thesis using entry saved by blast
  qed
qed

lemma runs_lockMountOf:
  assumes law: "store_law C E"
    and none: "\<And>h'. registry_of C h' = registry_of C h \<Longrightarrow> used_by (registry_of C h) path = {} \<Longrightarrow> runs m h' Q"
    and some: "\<And>st h'. registry_of C h' = registry_of C h \<Longrightarrow> current C (registry_of C h) st \<Longrightarrow>
      VolumeID st \<in> used_by (registry_of C h) path \<Longrightarrow> runs (f st) h' Q"
  shows "runs (lockMountOf C E path \<bind> (\<lambda>found. case found of None \<Rightarrow> m | Some st \<Rightarrow> f st)) h Q"
proof -
  have "runs (lock_first_use C E path (map (addLegacyUser C) sts)) (h @ [LoadAllEv (stateStore C) sts errs])
      (\<lambda>found h'. runs (case found of None \<Rightarrow> m | Some st \<Rightarrow> f st) h' Q)"
    if states: "ans_states E h (stateStore C) = (sts, errs)" for sts errs
  proof (rule runs_lock_first_use [OF law registry_idle_events(2)])
    show "\<forall>found\<in>set (map (addLegacyUser C) sts). current C (registry_of C h) found"
      using listed_states(1) [OF law states] by auto
    fix h'
    assume h': "registry_of C h' = registry_of C h"
    show "runs (case Some st of None \<Rightarrow> m | Some st \<Rightarrow> f st) h' Q" if "current C (registry_of C h) st" "uses st path" for st
      using some [OF h' that(1)] that used_by_current by simp
    assume unused: "\<forall>found\<in>set (map (addLegacyUser C) sts). \<not> uses found path"
    have "i \<notin> used_by (registry_of C h) path" for i
    proof
      assume i: "i \<in> used_by (registry_of C h) path"
      then have "registry_of C h i \<noteq> None" by (auto simp: used_by_iff)
      then obtain st where st: "st \<in> set sts" "VolumeID st = i" "current C (registry_of C h) (addLegacyUser C st)"
        using listed_states(2) [OF law states] by blast
      with used_by_current [OF st(3), of path] i unused show False by auto
    qed
    then show "runs (case None of None \<Rightarrow> m | Some st \<Rightarrow> f st) h' Q" using none [OF h'] by auto
  qed
  then show ?thesis
    unfolding lockMountOf_def loadStates_def by (auto intro!: runs_bind runs_load_all runs_return)
qed

text \<open>
  Taking a mount: on success the user has joined it. A failure leaves the registry as it was, or
  a new mount without users in it, which the next pass of reconcile removes.
\<close>

definition acquire_spec :: "string \<Rightarrow> string \<Rightarrow> registry \<Rightarrow> bool \<Rightarrow> registry \<Rightarrow> bool" where
  "acquire_spec i user A ok A' \<longleftrightarrow>
     (if ok then A' = join_spec i user A else A' = A \<or> A i = None \<and> A' = A(i \<mapsto> ({}, Map.empty)))"

lemma acquire_specI:
  "A' = join_spec i user A \<Longrightarrow> acquire_spec i user A True A'"
  "A' = A \<Longrightarrow> acquire_spec i user A False A'"
  "A i = None \<Longrightarrow> A' = A(i \<mapsto> ({}, Map.empty)) \<Longrightarrow> acquire_spec i user A False A'"
  by (simp_all add: acquire_spec_def)

lemma usage_new [simp]:
  "usage C (mount_state_of C i a (mountPath C i)) = ({}, Map.empty)"
  "usage C ((mount_state_of C i a (mountPath C i))\<lparr>Mounted := b\<rparr>) = ({}, Map.empty)"
  by (simp_all add: usage_def maps_of_def mount_state_of_def)

lemma mount_reg:
  assumes A: "registry_of C h = A" "A i = None" and dirs: "distinct_dirs C (insert i (dom A))"
  shows "runs (mount C E i a (mountPath C i)) h (\<lambda>r h'. registry_of C h' \<in> {A, A(i \<mapsto> ({}, Map.empty))}
    \<and> (r = None \<longrightarrow> registry_of C h' = A(i \<mapsto> ({}, Map.empty))))"
proof -
  let ?st = "mount_state_of C i a (mountPath C i)" and ?A = "A(i \<mapsto> ({}, Map.empty))"
  let ?Q = "\<lambda>r h'. registry_of C h' \<in> {A, ?A} \<and> (r = None \<longrightarrow> registry_of C h' = ?A)"
  have id: "VolumeID ?st = i" "VolumeID (?st\<lparr>Mounted := b\<rparr>) = i" for b by (simp_all add: mount_state_of_def)
  have start: "runs (do { err \<leftarrow> startRclone C E ?st;
      case err of Some e \<Rightarrow> do { _ \<leftarrow> err_op E (Remove (statePath C i)); ret (Some e) }
      | None \<Rightarrow> saveState C E (?st\<lparr>Mounted := True\<rparr>) }) h' ?Q" if h': "registry_of C h' = ?A" for h'
  proof -
    have dirs': "distinct_dirs C (insert i (dom ?A))" using dirs by simp
    have rm: "registry_of C (h'' @ [ErrEv (Remove (statePath C i)) r]) \<in> {A, ?A}" if "registry_of C h'' = ?A" for h'' r
      using registry_removed(2) [of C i h''] registry_failed [of r C h''] dirs' that A(2) by (cases r) (auto simp: fun_upd_idem)
    show ?thesis
      by (intro runs_bind idle_runs [OF startRclone_idle, of C] runs_case_option runs_err runs_return runs_mono [OF saveState_reg])
        (use h' rm in \<open>auto simp: id\<close>)
  qed
  have save: "runs (check_err (saveState C E ?st) Some (do { err \<leftarrow> startRclone C E ?st;
      case err of Some e \<Rightarrow> do { _ \<leftarrow> err_op E (Remove (statePath C i)); ret (Some e) }
      | None \<Rightarrow> saveState C E (?st\<lparr>Mounted := True\<rparr>) })) h' ?Q" if "registry_of C h' = A" for h'
    by (intro runs_check_err runs_mono [OF saveState_reg] conjI allI impI start) (use that in \<open>simp_all add: id\<close>)
  have mk: "runs (check_err (err_op E (MkdirAll p n)) Some k) h' ?Q"
    if "registry_of C h' = A" "\<And>h'. registry_of C h' = A \<Longrightarrow> runs k h' ?Q" for p n k h'
    by (intro runs_check_err runs_err conjI allI impI that(2)) (use that(1) in \<open>simp_all add: registry_inert\<close>)
  have conf: "runs (check_err (if arg_configData a \<noteq> [] then err_op E (WriteFile f (arg_configData a) n) else ret None) Some k) h' ?Q"
    if "registry_of C h' = A" "\<And>h'. registry_of C h' = A \<Longrightarrow> runs k h' ?Q" for f n k h'
    by (intro runs_check_err runs_if runs_err runs_return conjI allI impI that(2)) (use that(1) in \<open>simp_all add: registry_inert\<close>)
  show ?thesis
    unfolding mount_def Let_def by (intro mk conf save) (simp_all add: A(1))
qed

lemma mountRclone_reg:
  assumes A: "registry_of C h = A" "A i = None" and dirs: "distinct_dirs C (insert i (dom A))"
  shows "runs (mountRclone C E i a) h (\<lambda>r h'. registry_of C h' \<in> {A, A(i \<mapsto> ({}, Map.empty))}
    \<and> (r = None \<longrightarrow> registry_of C h' = A(i \<mapsto> ({}, Map.empty))))"
  unfolding mountRclone_def
  by (intro runs_check_err idle_runs [OF detach_idle, of C] conjI allI impI runs_bind runs_mono [OF mount_reg] runs_return)
    (use assms in \<open>auto split: option.splits\<close>)

lemma add_user_reg:
  assumes A: "registry_of C h = A" "A i = Some (U, T)" "VolumeID st = i" "maps_of st = (U, T)"
  shows "runs (add_user C E st u) h (\<lambda>r h'. case r of Inl _ \<Rightarrow> registry_of C h' = A
    | Inr st' \<Rightarrow> registry_of C h' = A(i \<mapsto> (insert u U, T)) \<and> VolumeID st' = i \<and> maps_of st' = (insert u U, T)
        \<and> usage C st' = maps_of st')"
proof -
  let ?st = "st\<lparr>Users := store_in (Users st) u ()\<rparr>"
  have maps: "maps_of ?st = (insert u U, T)" using A(4) by (simp add: maps_of_updates) (simp add: maps_of_def)
  then have "usage C ?st = (insert u U, T)" by (simp add: usage_nonempty)
  with maps show ?thesis
    unfolding add_user_def Let_def
    by (intro runs_check_err runs_mono [OF saveState_reg]) (use A in \<open>auto intro!: runs_return\<close>)
qed

text \<open>What a call that takes a mount leaves behind.\<close>

definition acquired :: "config \<Rightarrow> string \<Rightarrow> string \<Rightarrow> registry \<Rightarrow> go_error + volumeState \<Rightarrow> event list \<Rightarrow> bool" where
  "acquired C i u A r h' \<longleftrightarrow> acquire_spec i u A (\<not> isl r) (registry_of C h')
     \<and> (\<forall>st. r = Inr st \<longrightarrow> VolumeID st = i \<and> current C (registry_of C h') st)"

lemma acquired_failed:
  "registry_of C h' = A \<or> A i = None \<and> registry_of C h' = A(i \<mapsto> ({}, Map.empty)) \<Longrightarrow> acquired C i u A (Inl e) h'"
  by (auto simp: acquired_def intro: acquire_specI)

lemma add_user_acquired:
  assumes h': "registry_of C h' = A'" "A' i = Some (U, T)" and st: "VolumeID st = i" "maps_of st = (U, T)"
    and A': "A' = A \<or> A i = None \<and> A' = A(i \<mapsto> ({}, Map.empty))"
  shows "runs (add_user C E st u) h' (acquired C i u A)"
  by (rule runs_mono [OF add_user_reg [OF h' st]])
    (use assms in \<open>auto simp: acquired_def acquire_spec_def join_spec_def current_def split: sum.splits\<close>)

lemma acquire_new_reg:
  assumes law: "store_law C E" and A: "registry_of C h = A" "A i = None" and dirs: "distinct_dirs C (insert i (dom A))"
  shows "runs (acquire_new C E i a u) h (acquired C i u A)"
proof -
  let ?A = "A(i \<mapsto> ({}, Map.empty))"
  have "runs (do { r \<leftarrow> loadState C E i; case r of Inl e \<Rightarrow> ret (Inl (Status Internal (Error e))) | Inr st \<Rightarrow> add_user C E st u }) h'
      (acquired C i u A)" if "registry_of C h' = ?A" for h'
  proof -
    have "runs (loadState C E i) h' (\<lambda>r h''. registry_of C h'' = ?A \<and> (\<exists>st. r = Inr st \<and> VolumeID st = i \<and> maps_of st = ({}, Map.empty)))"
      by (rule runs_mono [OF loadState_reg [OF law]]) (use that in \<open>auto simp: current_def\<close>)
    then show ?thesis
      by (intro runs_bind, elim runs_mono conjE exE, simp only: sum.case, intro add_user_acquired [where A' = "?A"]) (use A(2) in auto)
  qed
  then show ?thesis
    unfolding acquire_new_def
    by (intro runs_check_err runs_mono [OF mountRclone_reg [OF A dirs]] conjI allI impI) (use A(2) in \<open>auto intro!: acquired_failed\<close>)
qed

lemma acquire_known_reg:
  assumes h: "registry_of C h = A" "A i = Some (U, T)" and st: "VolumeID st = i" "maps_of st = (U, T)"
  shows "runs (acquire_known C E st u) h (acquired C i u A)"
  unfolding acquire_known_def
  by (intro runs_bind idle_runs [OF check_idle, of C] runs_case_sum runs_if runs_check_err idle_runs [OF remount_idle, of C]
      conjI allI impI runs_return acquired_failed add_user_acquired [where A' = A and U = U and T = T])
    (use assms in \<open>simp_all add: maps_of_updates\<close>)

lemma acquire_reg:
  assumes law: "store_law C E" and A: "registry_of C h = A" and dirs: "distinct_dirs C (insert i (dom A))"
  shows "runs (acquire C E i a u) h (acquired C i u A)"
proof (cases "A i")
  case None
  have "runs (loadState C E i) h (\<lambda>r h'. registry_of C h' = A \<and> (\<exists>e. r = Inl e \<and> IsNotExist e))"
    by (rule runs_mono [OF loadState_reg [OF law]]) (use A None in auto)
  then show ?thesis
    unfolding acquire_def
    by (intro runs_bind, elim runs_mono conjE exE, simp only: sum.case if_True) (intro acquire_new_reg [where A = A and i = i, OF law _ None dirs])
next
  case (Some UT)
  obtain U T where UT: "A i = Some (U, T)" using Some by (cases UT) simp
  have "runs (loadState C E i) h (\<lambda>r h'. registry_of C h' = A \<and> (\<exists>st. r = Inr st \<and> VolumeID st = i \<and> maps_of st = (U, T)))"
    by (rule runs_mono [OF loadState_reg [OF law]]) (use A UT in \<open>auto simp: current_def\<close>)
  then show ?thesis
    unfolding acquire_def
    by (intro runs_bind, elim runs_mono conjE exE, simp only: sum.case) (intro acquire_known_reg [where A = A and i = i, OF _ UT])
qed

end
