(* ===== verification/Node_Bind.thy ===== *)
theory Node_Bind
  imports Node_Locks
begin

text \<open>
  The state of a mount is what a later instance of the plugin repairs the node from, so it has to
  be ahead of what is mounted. The monitor here remembers the state last read or saved and where
  rclone was seen to serve, and permits a bind mount only of what rclone serves to a target that
  the state has.
\<close>

section \<open>Recording before binding\<close>

type_synonym bind_watch = "volumeState option \<times> string list"

fun bind_step :: "config \<Rightarrow> bind_watch \<Rightarrow> event \<Rightarrow> bind_watch option" where
  "bind_step C (known, served) (LoadEv _ _ r) =
     Some (case r of Inr st \<Rightarrow> Some (addLegacyUser C st) | Inl _ \<Rightarrow> None, [])"
| "bind_step C (known, served) (ErrEv (Save _ _ st) r) = Some (if r = None then Some st else known, served)"
| "bind_step C (known, served) (RemoveAllEv _ _ _) = Some (None, served)"
| "bind_step C (known, served) (ProbeEv p m _) = Some (known, if m = Live then p # served else served)"
| "bind_step C (known, served) (IntEv (Start _ _ _ p _) r) = Some (known, case r of Inr _ \<Rightarrow> p # served | Inl _ \<Rightarrow> served)"
| "bind_step C (known, served) (ErrEv (Bind src target readOnly) _) =
     (case known of
        None \<Rightarrow> None
      | Some st \<Rightarrow> if StagingPath st = src \<and> (target, readOnly) \<in> set (entries (Targets st)) \<and> src \<in> set served
                   then Some (known, served) else None)"
| "bind_step C (known, served) _ = Some (known, served)"

lemma bind_step_quiet: "quiet ev \<Longrightarrow> bind_step C s ev = Some s"
  by (cases s, erule quiet.elims) simp_all

interpretation bw: quiet_monitor "bind_step C" for C
  by unfold_locales (rule bind_step_quiet)

lemma detach_bind: "safe (bind_step C) s (detach E p) (\<lambda>_ s'. s' = s)"
  unfolding detach_def by (cases s) (auto simp: next_ok_def intro!: safe_rules)

lemma saveState_bind:
  "safe (bind_step C) s (saveState C E st) (\<lambda>r s'. snd s' = snd s \<and> (r = None \<longrightarrow> fst s' = Some st))"
  unfolding saveState_def by (cases s) (auto simp: next_ok_def intro!: safe_rules)

lemma add_user_bind:
  "safe (bind_step C) s (add_user C E st u) (\<lambda>r s'. \<forall>st'. r = Inr st' \<longrightarrow> fst s' = Some st' \<and> uses st' u)"
  unfolding add_user_def Let_def
  by (auto simp: uses_def ghas_def entries_store_in intro!: safe_rules safe_mono [OF saveState_bind])

text \<open>What binds nothing is permitted in every state.\<close>

abbreviation binds_nothing :: "config \<Rightarrow> 'a node_op \<Rightarrow> bool" where
  "binds_nothing C m \<equiv> (\<forall>s. safe (bind_step C) s m (\<lambda>_ _. True))"

lemma binds_nothing_cont: "binds_nothing C m \<Longrightarrow> (\<And>x s. Q x s) \<Longrightarrow> safe (bind_step C) s m Q"
  by (erule allE, erule safe_mono) simp

lemma loadState_binds:
  "safe (bind_step C) s (loadState C E i) (\<lambda>r s'. \<forall>st. r = Inr st \<longrightarrow> fst s' = Some st)"
  unfolding loadState_def by (cases s) (auto simp: next_ok_def intro!: safe_rules split: sum.splits)

lemma startRclone_binds:
  "safe (bind_step C) s (startRclone C E st) (\<lambda>r s'. fst s' = fst s \<and> (r = None \<longrightarrow> StagingPath st \<in> set (snd s')))"
  by (cases s, simp, rule bw.safe_startRclone) (simp add: next_ok_def split_sum_all)

lemma remount_binds:
  "safe (bind_step C) s (remount C E st) (\<lambda>r s'. fst s' = fst s \<and> (r = None \<longrightarrow> StagingPath st \<in> set (snd s')))"
  unfolding remount_def
  by (cases s) (auto simp: next_ok_def intro!: safe_rules safe_mono [OF detach_bind] safe_mono [OF startRclone_binds])

lemma mount_binds: "binds_nothing C (mount C E i a p)"
  unfolding mount_def Let_def
  by (auto simp: next_ok_def intro!: safe_rules safe_mono [OF saveState_bind] safe_mono [OF startRclone_binds])

lemma check_binds:
  "safe (bind_step C) s (check C E st) (\<lambda>r s'. fst s' = fst s \<and> (r = Inr Live \<longrightarrow> StagingPath st \<in> set (snd s')))"
  unfolding check_def by (cases s) (auto simp: next_ok_def intro!: safe_rules)

lemma acquire_bind:
  "safe (bind_step C) s (acquire C E i a u) (\<lambda>r s'. \<forall>st. r = Inr st \<longrightarrow> fst s' = Some st \<and> uses st u)"
  unfolding acquire_def acquire_new_def acquire_known_def mountRclone_def
  by (auto intro!: safe_rules safe_mono [OF loadState_binds] safe_mono [OF check_binds] safe_mono [OF remount_binds]
      safe_mono [OF detach_bind] binds_nothing_cont [OF mount_binds] add_user_bind)

lemma lockMountOf_bind:
  "safe (bind_step C) s (lockMountOf C E path) (\<lambda>r s'. \<forall>st. r = Some st \<longrightarrow> fst s' = Some st \<and> uses st path)"
  by (rule bw.safe_lockMountOf, rule bw.safe_lock_first_use [where I = "\<lambda>_. True"])
    (auto simp: next_ok_def)

text \<open>The target of a successful publish is in the state with its access.\<close>

definition target_recorded :: "string \<Rightarrow> bool \<Rightarrow> volumeState option \<Rightarrow> bool" where
  "target_recorded target readOnly known =
     (case known of None \<Rightarrow> False | Some st \<Rightarrow> map_of (entries (Targets st)) target = Some readOnly)"

lemma live_bind:
  "safe (bind_step C) s (live E p) (\<lambda>b s'. fst s' = fst s \<and> (b \<longrightarrow> p \<in> set (snd s')) \<and> set (snd s) \<subseteq> set (snd s'))"
  unfolding live_def by (cases s) (auto simp: next_ok_def intro!: safe_rules)

lemma stored_target: "(t, ro) \<in> set (entries (store_in m t ro))" "map_of (entries (store_in m t ro)) t = Some ro"
proof -
  show "map_of (entries (store_in m t ro)) t = Some ro" by (simp add: entries_store_in)
  then show "(t, ro) \<in> set (entries (store_in m t ro))" by (rule map_of_SomeD)
qed

lemma publish_bind:
  "safe (bind_step C) s (publish C E st v t ro) (\<lambda>r s'. r = None \<longrightarrow> target_recorded t ro (fst s'))"
proof -
  let ?st = "st\<lparr>Targets := store_in (Targets st) t ro\<rparr>"
  have bind: "safe (bind_step C) s' (err_op E (Bind (StagingPath st) t ro))
      (\<lambda>r s''. r = None \<longrightarrow> target_recorded t ro (fst s''))"
    if "fst s' = Some ?st" "StagingPath st \<in> set (snd s')" for s'
    using that by (cases s') (auto simp: next_ok_def target_recorded_def stored_target intro!: safe_rules)
  have mk: "safe (bind_step C) s' (err_op E (MkdirAll p m)) (\<lambda>_ s''. s'' = s')" for s' p m
    by (cases s') (auto simp: next_ok_def intro!: safe_rules)
  show ?thesis
    unfolding publish_def
    by (auto simp: internal_def target_recorded_def stored_target intro!: safe_bind safe_if safe_return safe_check_err
        safe_mono [OF live_bind] safe_mono [OF saveState_bind] safe_mono [OF detach_bind] safe_mono [OF mk]
        safe_mono [OF bind])
qed

lemma unit_op_bind: "safe (bind_step C) s (unit_op u) (\<lambda>_ s'. s' = s)"
  by (cases s; cases u) (auto simp: next_ok_def intro!: safe_rules)

lemma defer_unlock_bind: "safe (bind_step C) s m Q \<Longrightarrow> safe (bind_step C) s (defer_unlock i m) Q"
  unfolding defer_unlock_def
  by (rule safe_bind, erule safe_mono) (auto intro!: safe_bind safe_return safe_mono [OF unit_op_bind])

lemma NodePublishVolume_bind:
  "safe (bind_step C) s (NodePublishVolume C E req) (\<lambda>r s'. r = None \<longrightarrow>
     target_recorded (np_target_path req) (np_readonly req \<or> isReadOnly (the (np_capability req))) (fst s'))"
  unfolding NodePublishVolume_def Let_def
  by (auto intro!: safe_case_option safe_case_sum safe_if safe_return safe_bind
      safe_mono [OF lockMountOf_bind] safe_mono [OF unit_op_bind] defer_unlock_bind
      safe_mono [OF acquire_bind] publish_bind split: if_splits simp del: bind_assoc)

lemma rebind_targets_bind:
  assumes "fst s = Some st" "set ts \<subseteq> set (entries (Targets st))" "StagingPath st \<in> set (snd s)"
  shows "safe (bind_step C) s (rebind_targets E (StagingPath st) ts) (\<lambda>_ _. True)"
  using assms
proof (induction ts arbitrary: s)
  case (Cons t ts)
  obtain target readOnly where t: "t = (target, readOnly)" by (cases t)
  have one: "safe (bind_step C) s' (if b then check_err (detach E target) (\<lambda>_. ())
          (do { _ \<leftarrow> err_op E (Bind (StagingPath st) target readOnly); ret () }) else ret ()) (\<lambda>_ s''. s'' = s')"
    if "fst s' = Some st" "StagingPath st \<in> set (snd s')" for s' b
    using that Cons.prems
    by (cases s') (auto simp: next_ok_def t intro!: safe_rules safe_mono [OF detach_bind])
  have again: "safe (bind_step C) s' (rebind_targets E (StagingPath st) ts \<bind> (\<lambda>(kept, changed). ret (f kept changed))) (\<lambda>_ _. True)"
    if "fst s' = Some st" "StagingPath st \<in> set (snd s')" for s' and f :: "bool gomap \<Rightarrow> bool \<Rightarrow> bool gomap \<times> bool"
    using that Cons.prems by (auto intro!: safe_bind safe_case_prod safe_return safe_mono [OF Cons.IH])
  have probe: "safe (bind_step C) s (probe_op E target) (\<lambda>_ s'. fst s' = Some st \<and> StagingPath st \<in> set (snd s'))"
    using Cons.prems by (cases s) (auto simp: next_ok_def intro!: safe_rules)
  show ?case
    unfolding t rebind_targets.simps
    by (rule safe_bind, rule safe_mono [OF probe], rule safe_bind, rule safe_mono [OF one]) (auto intro: again)
qed (simp add: safe_return)

lemma drop_gone_users_binds: "binds_nothing C (drop_gone_users E us)"
proof (induction us)
  case (Cons u us)
  show ?case by (auto simp: next_ok_def intro!: safe_rules binds_nothing_cont [OF Cons])
qed (auto intro: safe_return)

lemma unmount_binds: "binds_nothing C (unmount C E i p)"
  unfolding unmount_def stopScope_def
  by (auto simp: next_ok_def intro!: safe_rules bw.safe_waitForUploads safe_mono [OF detach_bind])

lemma reconcile_users_bind:
  "fst s = Some st \<Longrightarrow> StagingPath st \<in> set (snd s) \<Longrightarrow>
   safe (bind_step C) s (reconcile_users C E i st) (\<lambda>_ _. True)"
  unfolding reconcile_users_def
  by (auto intro!: safe_rules safe_mono [OF rebind_targets_bind] binds_nothing_cont [OF drop_gone_users_binds]
      binds_nothing_cont [OF unmount_binds] safe_mono [OF saveState_bind])

lemma reconcile_bind: "safe (bind_step C) s (reconcile C E i) (\<lambda>_ _. True)"
proof -
  have drop: "safe (bind_step C) s (do { stopScope E i; _ \<leftarrow> remove_all_op E d; ret () }) (\<lambda>_ _. True)" for s d
    unfolding stopScope_def by (cases s) (auto simp: next_ok_def intro!: safe_rules)
  show ?thesis
    unfolding reconcile_def reconcile_known_def
    by (rule safe_bind, rule safe_mono [OF loadState_binds], rule safe_case_sum, simp add: safe_return,
        rule safe_bind, rule safe_mono [OF check_binds])
      (auto intro!: safe_case_sum safe_return safe_if drop reconcile_users_bind safe_check_err safe_mono [OF remount_binds])
qed

definition binds_recorded :: "config \<Rightarrow> event list \<Rightarrow> bool" where
  "binds_recorded C tr \<longleftrightarrow> scan (bind_step C) (None, []) tr \<noteq> None"

text \<open>
  Claim C22. A target is bound only after the state that has it, with the same access, was read or
  saved, and only from the mount point of that state where rclone was seen to serve under the same
  lock. So a plugin that crashes in between leaves no bind mount that its successor does not know.
\<close>

theorem binds_are_recorded:
  "binds_recorded C (trace (NodePublishVolume C E pub) w) \<and> binds_recorded C (trace (reconcile C E i) w)"
  using safeD [OF NodePublishVolume_bind, of C "(None, [])" E pub w] safeD [OF reconcile_bind, of C "(None, [])" E i w]
  unfolding binds_recorded_def by auto

text \<open>The state last read or saved in a run.\<close>

definition known_state :: "config \<Rightarrow> event list \<Rightarrow> volumeState option" where
  "known_state C tr = (case scan (bind_step C) (None, []) tr of Some s \<Rightarrow> fst s | None \<Rightarrow> None)"

text \<open>
  A publish that succeeds leaves the target in the state of the mount, read-only exactly
  when the request or the capability asks for it.
\<close>

theorem NodePublishVolume_records:
  assumes "result (NodePublishVolume C E req) w = None"
  shows "target_recorded (np_target_path req) (np_readonly req \<or> isReadOnly (the (np_capability req)))
    (known_state C (trace (NodePublishVolume C E req) w))"
  using safeD [OF NodePublishVolume_bind, of C "(None, [])" E req w] assms by (auto simp: known_state_def)

lemma NodeStageVolume_bind:
  "safe (bind_step C) s (NodeStageVolume C E K req) (\<lambda>r s'. r = None \<longrightarrow>
     (\<exists>st. fst s' = Some st \<and> uses st (ns_staging_path req)))"
proof -
  have mk: "safe (bind_step C) s' (err_op E (MkdirAll p m)) (\<lambda>_ s''. s'' = s')" for s' p m
    by (cases s') (auto simp: next_ok_def intro!: safe_rules)
  show ?thesis
    unfolding NodeStageVolume_def Let_def
    by (auto simp: internal_def intro!: safe_case_option safe_case_sum safe_if safe_return safe_bind safe_check_err
      safe_mono [OF mk] safe_mono [OF lockMountOf_bind] safe_mono [OF unit_op_bind] defer_unlock_bind
      safe_mono [OF acquire_bind] split: sum.splits simp del: bind_assoc)
qed

text \<open>
  A stage that succeeds leaves the staging path in the state of a mount, where the other
  calls find it.
\<close>

theorem NodeStageVolume_records:
  assumes "result (NodeStageVolume C E K req) w = None"
  shows "\<exists>st. known_state C (trace (NodeStageVolume C E K req) w) = Some st \<and> uses st (ns_staging_path req)"
  using safeD [OF NodeStageVolume_bind, of C "(None, [])" E K req w] assms by (auto simp: known_state_def)

section \<open>Examples\<close>

lemmas run_ops = run_simps emit_def err_op_def unit_op_def int_op_def load_op_def load_all_op_def probe_op_def status_op_def
  pid_op_def environ_op_def check_err_def stored_def reread_def omitempty_def

definition staged_state :: volumeState where
  "staged_state = \<lparr>VolumeID = ''pv'', StagingPath = ''/mnt'', Args = [], Env = [],
     Users = Some [(''/staging'', ())], Targets = None, Mounted = True\<rparr>"

definition staged_node :: node where
  "staged_node = \<lparr>history = [ErrEv (Save (stateStore plain_config) ''pv'' staged_state) None,
     IntEv (Start ''pv'' [] [] ''/mnt'' 0) (Inr 7)], clock = 0\<rparr>"

lemma publish_example:
  "result (NodePublishVolume plain_config (sim_env plain_config) example_publish) staged_node = None"
  by (simp add: result_def NodePublishVolume_def example_publish_def staged_node_def lockMountOf_def loadStates_def loadState_def
      staged_state_def sim_env_def publish_def live_def detach_def saveState_def defer_unlock_def addLegacyUser_def run_ops Let_def map_filter_def
      uses_def ghas_def store_in_def gset_def isReadOnly_def)

lemma args_example:
  "volume_args plain_config \<lparr>cap_mode = SINGLE_NODE_WRITER, cap_type = MountVolume []\<rparr>
     [(''remote'', ''s3''), (''remotePath'', ''bucket'')] (Some []) = Inr \<lparr>arg_remote = ''s3'', arg_remotePath = ''bucket'', arg_configData = [], arg_flags = [], arg_readOnly = False\<rparr>"
  by code_simp

lemma stage_example:
  "result (NodeStageVolume plain_config (sim_env plain_config) example_kube example_stage) \<lparr>history = [], clock = 0\<rparr> = None"
  by (simp add: result_def NodeStageVolume_def example_stage_def args_example example_kube_def getSecret_def lockMountOf_def loadStates_def loadState_def sim_env_def acquire_def acquire_new_def acquire_known_def mountRclone_def
      mount_def startRclone_def add_user_def not_found_def detach_def saveState_def defer_unlock_def addLegacyUser_def
      run_ops Let_def map_filter_def mount_state_of_def)
theorem NodePublishVolume_records_witness:
  "target_recorded (np_target_path example_publish) (np_readonly example_publish \<or> isReadOnly (the (np_capability example_publish)))
    (known_state plain_config
      (trace (NodePublishVolume plain_config (sim_env plain_config) example_publish) staged_node))"
  by (rule NodePublishVolume_records [OF publish_example])

theorem NodeStageVolume_records_witness:
  "\<exists>st. known_state plain_config
      (trace (NodeStageVolume plain_config (sim_env plain_config) example_kube example_stage)
        \<lparr>history = [], clock = 0\<rparr>) = Some st \<and> uses st (ns_staging_path example_stage)"
  by (rule NodeStageVolume_records [OF stage_example])

end
