(* ===== verification/Node_Refinement.thy ===== *)
theory Node_Refinement
  imports Registry Node_Bind
begin

text \<open>
  The four volume calls of the node service implement operations on the registry of mounts. What
  they do in sequence follows from what the operations do.
\<close>

section \<open>The calls refine the registry\<close>

lemma runs_defer_unlock:
  "runs m h (\<lambda>r h'. P r (registry_of C h')) \<Longrightarrow> runs (defer_unlock i m) h (\<lambda>r h'. P r (registry_of C h'))"
  unfolding defer_unlock_def
  by (rule runs_bind, erule runs_mono) (auto intro!: runs_rules)

text \<open>What unstaging may do to the registry, given its result.\<close>

definition unstage_spec :: "string \<Rightarrow> registry \<Rightarrow> go_error option \<Rightarrow> registry \<Rightarrow> bool" where
  "unstage_spec path A r A' \<longleftrightarrow>
     (if used_by A path = {} then A' = A else \<exists>i\<in>used_by A path. departed i A (leave_spec i path A) r A')"

lemma unstage_specI:
  "r \<noteq> None \<Longrightarrow> A' = A \<Longrightarrow> unstage_spec path A r A'"
  "used_by A path = {} \<Longrightarrow> A' = A \<Longrightarrow> unstage_spec path A r A'"
  "i \<in> used_by A path \<Longrightarrow> departed i A (leave_spec i path A) s A' \<Longrightarrow> s = None \<longleftrightarrow> r = None \<Longrightarrow> unstage_spec path A r A'"
  by (auto simp: unstage_spec_def departed_def)

lemma current_dirs: "distinct_dirs C (dom A) \<Longrightarrow> current C A st \<Longrightarrow> distinct_dirs C (insert (VolumeID st) (dom A))"
  by (simp add: current_def insert_absorb domI)

lemma NodeUnstageVolume_reg:
  assumes "store_law C E" "distinct_dirs C (dom (registry_of C h0))"
  shows "runs (NodeUnstageVolume C E req) h0
    (\<lambda>r h'. unstage_spec (nu_staging_path req) (registry_of C h0) r (registry_of C h'))"
proof -
  let ?h = "h0" and ?p = "nu_staging_path req"
  let ?A = "registry_of C ?h"
  let ?spec = "\<lambda>r h'. unstage_spec ?p ?A r (registry_of C h')"
  have rel: "runs (check_err (release C E st ?p) internal (ret None)) h ?spec"
    if h: "registry_of C h = ?A" and st: "current C ?A st" "VolumeID st \<in> used_by ?A ?p" for st h
    by (intro runs_check_err runs_mono [OF release_leaves [OF current_dirs [OF assms(2) st(1)] h st(1)]])
      (auto simp: internal_def intro!: runs_return intro: unstage_specI(3) [OF st(2)])
  show ?thesis
    unfolding NodeUnstageVolume_def Let_def
    by (intro runs_if runs_return runs_lockMountOf [OF assms(1)] runs_defer_unlock rel) (auto intro: unstage_specI)
qed

text \<open>
  Claim C8. Unstaging refines leaving the registry: if no mount used the staging path, the registry is
  as before; otherwise, if the call succeeds, the path has left a mount that it used, and with the
  last user the mount is gone. If the call fails, the registry is as before, or a mount that had
  only this user is gone, because the removal of its directory failed after the state file.
\<close>

theorem NodeUnstageVolume_refines:
  assumes "store_law C E" "distinct_dirs C (dom (registry_of C (history w)))"
  shows "unstage_spec (nu_staging_path req) (registry_of C (history w)) (result (NodeUnstageVolume C E req) w)
    (registry_of C (history (snd (run_state (NodeUnstageVolume C E req) w))))"
  by (rule runsD [OF NodeUnstageVolume_reg [OF assms]])

text \<open>
  Publishing a staged volume records the target with its access; that stays when a later step of
  the call fails, so that the target can be found again.
\<close>

definition publish_spec :: "string set \<Rightarrow> string \<Rightarrow> bool \<Rightarrow> registry \<Rightarrow> go_error option \<Rightarrow> registry \<Rightarrow> bool" where
  "publish_spec I target readOnly A r A' \<longleftrightarrow>
     (\<exists>i\<in>I. A' = bind_spec i target readOnly A) \<or> r \<noteq> None \<and> A' = A"

lemma publish_spec_failed: "r \<noteq> None \<Longrightarrow> A' = A \<Longrightarrow> publish_spec I t b A r A'"
  by (simp add: publish_spec_def)

lemma saved_target:
  assumes "current C A st"
  shows "A(VolumeID st \<mapsto> usage C (st\<lparr>Targets := store_in (Targets st) t b\<rparr>)) = bind_spec (VolumeID st) t b A"
  using assms by (auto simp: current_def bind_spec_def usage_def case_prod_beta maps_of_def entries_store_in split: if_splits)

lemma publish_reg:
  assumes "registry_of C h = A" "current C A st" "VolumeID st \<in> I"
  shows "runs (publish C E st v t b) h (\<lambda>r h'. publish_spec I t b A r (registry_of C h'))"
proof -
  have bound: "publish_spec I t b A r A'" if "A' = bind_spec (VolumeID st) t b A" for r A'
    using that assms(3) by (auto simp: publish_spec_def)
  have bind: "runs (if bound then ret None else check_err (detach E t) internal (check_err (err_op E (MkdirAll t 0x1E8)) internal (
        check_err (err_op E (Bind (StagingPath st) t b)) internal (ret None)))) h'
      (\<lambda>r h'. publish_spec I t b A r (registry_of C h'))"
    if "registry_of C h' = bind_spec (VolumeID st) t b A" for bound h'
    by (intro runs_if runs_return runs_check_err idle_runs [OF detach_idle, of C] runs_err conjI allI impI bound)
      (use that in \<open>simp_all add: registry_inert\<close>)
  show ?thesis
    unfolding publish_def
    by (intro runs_bind idle_runs [OF live_idle, of C] runs_if runs_check_err runs_mono [OF saveState_reg] conjI allI impI bind)
      (use assms saved_target [OF assms(2)] in \<open>auto simp: publish_spec_def internal_def intro!: runs_return\<close>)
qed

text \<open>
  An ephemeral volume is not staged: its target joins the mount of the volume's arguments and is
  recorded there. What a failing call has done already stays.
\<close>

definition ephemeral_spec :: "string option \<Rightarrow> string \<Rightarrow> bool \<Rightarrow> registry \<Rightarrow> go_error option \<Rightarrow> registry \<Rightarrow> bool" where
  "ephemeral_spec i target readOnly A r A' \<longleftrightarrow>
     (case i of
        None \<Rightarrow> r \<noteq> None \<and> A' = A
      | Some i \<Rightarrow>
          A' = bind_spec i target readOnly (join_spec i target A)
          \<or> r \<noteq> None \<and> (A' = A \<or> A i = None \<and> A' = A(i \<mapsto> ({}, Map.empty)) \<or> A' = join_spec i target A))"

text \<open>The mount that a request to publish an ephemeral volume is about.\<close>

definition ephemeral_mount :: "config \<Rightarrow> publish_request \<Rightarrow> string option" where
  "ephemeral_mount C req =
     (case np_capability req of
        None \<Rightarrow> None
      | Some capability \<Rightarrow>
          (case ephemeralArgs C capability req of Inl _ \<Rightarrow> None | Inr a \<Rightarrow> Some (mountID C (np_volume_id req) a)))"

lemma ephemeral_spec_failed: "A' = A \<Longrightarrow> ephemeral_spec i t b A (Some e) A'"
  by (simp add: ephemeral_spec_def split: option.splits)

lemma ephemeral_call:
  assumes "store_law C E" "registry_of C h = A" "distinct_dirs C (insert i (dom A))"
  shows "runs (do { unit_op (Lock i); defer_unlock i (do { r \<leftarrow> acquire C E i a t;
      case r of Inl e \<Rightarrow> ret (Some e) | Inr st \<Rightarrow> publish C E st v t b }) }) h
    (\<lambda>r h'. ephemeral_spec (Some i) t b A r (registry_of C h'))"
proof -
  have joined: "runs (publish C E st v t b) h' (\<lambda>r h'. ephemeral_spec (Some i) t b A r (registry_of C h'))"
    if "acquired C i t A (Inr st) h'" for st h'
  proof -
    have st: "registry_of C h' = join_spec i t A" "current C (join_spec i t A) st" "VolumeID st \<in> {i}"
      using that by (auto simp: acquired_def acquire_spec_def)
    show ?thesis by (rule runs_mono [OF publish_reg [OF st]]) (auto simp: publish_spec_def ephemeral_spec_def)
  qed
  have failed: "ephemeral_spec (Some i) t b A (Some e) (registry_of C h')" if "acquired C i t A (Inl e) h'" for e h'
    using that by (auto simp: acquired_def acquire_spec_def ephemeral_spec_def)
  show ?thesis
    by (intro runs_bind runs_unit runs_defer_unlock runs_mono [OF acquire_reg [OF assms(1)]] runs_case_sum runs_return joined failed)
      (use assms in simp_all)
qed

definition publish_call_spec :: "config \<Rightarrow> publish_request \<Rightarrow> registry \<Rightarrow> go_error option \<Rightarrow> registry \<Rightarrow> bool" where
  "publish_call_spec C req A =
     (if np_staging_path req = [] then ephemeral_spec (ephemeral_mount C req) else publish_spec (used_by A (np_staging_path req)))
       (np_target_path req) (np_readonly req \<or> isReadOnly (the (np_capability req))) A"

lemma publish_call_failed: "A' = A \<Longrightarrow> publish_call_spec C req A (Some e) A'"
  by (simp add: publish_call_spec_def ephemeral_spec_failed publish_spec_failed)

lemma NodePublishVolume_reg:
  assumes "store_law C E"
    and "\<And>i. np_staging_path req = [] \<Longrightarrow> ephemeral_mount C req = Some i \<Longrightarrow> distinct_dirs C (insert i (dom (registry_of C h0)))"
  shows "runs (NodePublishVolume C E req) h0 (\<lambda>r h'. publish_call_spec C req (registry_of C h0) r (registry_of C h'))"
proof -
  let ?A = "registry_of C h0" and ?t = "np_target_path req"
  let ?spec = "\<lambda>r h'. publish_call_spec C req ?A r (registry_of C h')"
  have fail: "runs (ret (Some e)) h ?spec" if "registry_of C h = ?A" for e h
    using that by (intro runs_return publish_call_failed)
  have staged: "runs (publish C E st v ?t (np_readonly req \<or> isReadOnly cap)) h ?spec"
    if "np_staging_path req \<noteq> []" "np_capability req = Some cap" "registry_of C h = ?A" "current C ?A st"
      "VolumeID st \<in> used_by ?A (np_staging_path req)" for st v cap h
    using publish_reg [OF that(3-5), of E v ?t] that(1,2) by (simp add: publish_call_spec_def)
  have ephemeral: "runs (do { let i = mountID C (np_volume_id req) a; unit_op (Lock i); defer_unlock i (do {
      r \<leftarrow> acquire C E i a ?t; case r of Inl e \<Rightarrow> ret (Some e)
      | Inr st \<Rightarrow> publish C E st (np_volume_id req) ?t (np_readonly req \<or> isReadOnly cap) }) }) h0 ?spec"
    if "np_staging_path req = []" "np_capability req = Some cap" "ephemeralArgs C cap req = Inr a" for cap a
  proof -
    have i: "ephemeral_mount C req = Some (mountID C (np_volume_id req) a)" using that by (simp add: ephemeral_mount_def)
    show ?thesis
      using ephemeral_call [OF assms(1) refl assms(2) [OF that(1) i], of a ?t "np_volume_id req"] that i
      by (simp add: publish_call_spec_def Let_def)
  qed
  show ?thesis
    unfolding NodePublishVolume_def Let_def [of "np_volume_id req"] Let_def [of "np_staging_path req"] Let_def [of "np_target_path req"]
      Let_def [of "np_readonly req \<or> _"]
    by (intro runs_case_option runs_if runs_case_sum fail ephemeral runs_lockMountOf [OF assms(1)] runs_defer_unlock staged)
      (auto split: if_splits)
qed

text \<open>
  Claim C9. Publishing refines operations on the registry: a staged volume's target is recorded at
  the mount that its staging path uses, and an ephemeral volume's target joins the mount of the
  volume's arguments and is recorded there.
\<close>

theorem NodePublishVolume_refines:
  assumes "store_law C E"
    and "\<And>i. np_staging_path req = [] \<Longrightarrow> ephemeral_mount C req = Some i \<Longrightarrow>
      distinct_dirs C (insert i (dom (registry_of C (history w))))"
  shows "publish_call_spec C req (registry_of C (history w)) (result (NodePublishVolume C E req) w)
    (registry_of C (history (snd (run_state (NodePublishVolume C E req) w))))"
  by (rule runsD [OF NodePublishVolume_reg [OF assms]])

text \<open>
  Unpublishing forgets the target, and takes a mount along whose last user it was.
\<close>

definition unpublish_spec :: "string \<Rightarrow> registry \<Rightarrow> go_error option \<Rightarrow> registry \<Rightarrow> bool" where
  "unpublish_spec path A r A' \<longleftrightarrow>
     (if used_by A path = {} then A' = A else \<exists>i\<in>used_by A path. departed i A (unbind_spec i path A) r A')"

lemma unpublish_specI:
  "r \<noteq> None \<Longrightarrow> A' = A \<Longrightarrow> unpublish_spec path A r A'"
  "used_by A path = {} \<Longrightarrow> A' = A \<Longrightarrow> unpublish_spec path A r A'"
  "i \<in> used_by A path \<Longrightarrow> departed i A (unbind_spec i path A) s A' \<Longrightarrow> s = None \<longleftrightarrow> r = None \<Longrightarrow> unpublish_spec path A r A'"
  by (auto simp: unpublish_spec_def departed_def)

lemma forget_reg:
  assumes dirs: "distinct_dirs C (dom A)" and h: "registry_of C h = A" and st: "current C A st"
  shows "runs (if ghas (entries (Users (st\<lparr>Targets := delete_from (Targets st) t\<rparr>))) t
      then release C E (st\<lparr>Targets := delete_from (Targets st) t\<rparr>) t
      else saveState C E (st\<lparr>Targets := delete_from (Targets st) t\<rparr>)) h
    (\<lambda>r h'. departed (VolumeID st) A (unbind_spec (VolumeID st) t A) r (registry_of C h'))"
proof -
  let ?st = "st\<lparr>Targets := delete_from (Targets st) t\<rparr>"
  obtain U T where UT: "maps_of st = (U, T)" by fastforce
  then have maps: "maps_of ?st = (U, T(t := None))" by (simp add: maps_of_def entries_delete_from)
  have A: "A (VolumeID st) = Some (U, T)" using st UT by (simp add: current_def)
  have user: "ghas (entries (Users ?st)) t \<longleftrightarrow> t \<in> U" using UT by (auto simp: ghas_def maps_of_def)
  have dirs': "distinct_dirs C (insert (VolumeID ?st) (dom (registry_of C h)))"
    using current_dirs [OF dirs st] h by simp
  show ?thesis
  proof (rule runs_if)
    assume "ghas (entries (Users ?st)) t"
    then have "t \<in> U" by (simp only: user)
    then have "U - {t} = {} \<longleftrightarrow> U = {t}" by blast
    then show "runs (release C E ?st t) h (\<lambda>r h'. departed (VolumeID st) A (unbind_spec (VolumeID st) t A) r (registry_of C h'))"
      by (intro runs_mono [OF release_reg [OF dirs']]) (simp add: h maps A unbind_spec_def cong: if_cong)
  next
    assume "\<not> ghas (entries (Users ?st)) t"
    then have t: "t \<notin> U" by (simp only: user simp_thms)
    have "usage C ?st = (U, T(t := None))"
      using st UT maps by (auto simp: current_def usage_def split: if_splits)
    moreover have "U - {t} = U" "U \<noteq> {t}" using t by auto
    ultimately show "runs (saveState C E ?st) h (\<lambda>r h'. departed (VolumeID st) A (unbind_spec (VolumeID st) t A) r (registry_of C h'))"
      by (intro runs_mono [OF saveState_reg]) (simp add: h A unbind_spec_def departed_def)
  qed
qed

lemma NodeUnpublishVolume_reg:
  assumes "store_law C E" "distinct_dirs C (dom (registry_of C h0))"
    and "\<And>i. statePath C i \<noteq> nup_target_path req"
  shows "runs (NodeUnpublishVolume C E req) h0
    (\<lambda>r h'. unpublish_spec (nup_target_path req) (registry_of C h0) r (registry_of C h'))"
proof -
  let ?t = "nup_target_path req" and ?A = "registry_of C h0"
  let ?spec = "\<lambda>r h'. unpublish_spec ?t ?A r (registry_of C h')"
  let ?forget = "\<lambda>found. case found of None \<Rightarrow> ret None
    | Some st \<Rightarrow> let st' = st\<lparr>Targets := delete_from (Targets st) ?t\<rparr>
        in check_err (if ghas (entries (Users st')) ?t then release C E st' ?t else saveState C E st') internal (ret None)"
  have un: "runs (unpublish C E found ?t) h ?spec"
    if h: "registry_of C h = ?A" and k: "\<And>h'. registry_of C h' = ?A \<Longrightarrow> runs (?forget found) h' ?spec" for found h
    unfolding unpublish_def
    by (intro runs_check_err idle_runs [OF detach_idle, of C] conjI allI impI runs_bind runs_err runs_return k)
      (use h assms(3) in \<open>auto simp: internal_def intro: unpublish_specI\<close>)
  have forget: "runs (?forget (Some st)) h ?spec"
    if "registry_of C h = ?A" "current C ?A st" "VolumeID st \<in> used_by ?A ?t" for st h
    unfolding option.case Let_def
    by (intro runs_check_err runs_mono [OF forget_reg [OF assms(2) that(1,2)]])
      (auto simp: internal_def intro!: runs_return intro: unpublish_specI(3) [OF that(3)])
  have none: "runs (?forget None) h ?spec" if "registry_of C h = ?A" "used_by ?A ?t = {}" for h
    unfolding option.case by (rule runs_return, rule unpublish_specI(2) [OF that(2,1)])
  show ?thesis
    unfolding NodeUnpublishVolume_def Let_def [of "nup_target_path req"]
    by (intro runs_if runs_return runs_lockMountOf [OF assms(1)] runs_defer_unlock un forget none)
      (simp_all add: unpublish_specI)
qed

text \<open>
  Claim C10. Unpublishing refines forgetting the target: on success the target has left the mount it
  was bound from, and the mount is gone too if the target was its only user; on failure the
  registry is as before, or a mount that had only this user is gone, because the removal of its
  directory failed after the state file. Kubelet's target is not a state file of the driver.
\<close>

theorem NodeUnpublishVolume_refines:
  assumes "store_law C E" "distinct_dirs C (dom (registry_of C (history w)))"
    and "\<And>i. statePath C i \<noteq> nup_target_path req"
  shows "unpublish_spec (nup_target_path req) (registry_of C (history w)) (result (NodeUnpublishVolume C E req) w)
    (registry_of C (history (snd (run_state (NodeUnpublishVolume C E req) w))))"
  by (rule runsD [OF NodeUnpublishVolume_reg [OF assms]])

text \<open>
  Staging: a path that a mount has is staged already. Otherwise the path joins the mount of the
  volume's arguments.
\<close>

definition stage_spec :: "string option \<Rightarrow> string \<Rightarrow> registry \<Rightarrow> go_error option \<Rightarrow> registry \<Rightarrow> bool" where
  "stage_spec i path A r A' \<longleftrightarrow>
     (if used_by A path \<noteq> {} then A' = A
      else case i of
        None \<Rightarrow> r \<noteq> None \<and> A' = A
      | Some i \<Rightarrow> if r = None then A' = join_spec i path A else A' = A \<or> A i = None \<and> A' = A(i \<mapsto> ({}, Map.empty)))"

text \<open>The mount that a request to stage a volume is about.\<close>

definition stage_mount :: "config \<Rightarrow> kube \<Rightarrow> stage_request \<Rightarrow> string option" where
  "stage_mount C K req =
     (case ns_capability req of
        None \<Rightarrow> None
      | Some capability \<Rightarrow>
          (case volume_args C capability (ns_context req)
                  (case getSecret K ''rclone-secret'' of Inr s \<Rightarrow> Some s | Inl _ \<Rightarrow> None) of
             Inl _ \<Rightarrow> None
           | Inr a \<Rightarrow> Some (mountID C (ns_volume_id req) a)))"

lemma stage_specI:
  "A' = A \<Longrightarrow> r \<noteq> None \<or> used_by A path \<noteq> {} \<Longrightarrow> stage_spec i path A r A'"
  "used_by A path = {} \<Longrightarrow> acquire_spec j path A (r = None) A' \<Longrightarrow> stage_spec (Some j) path A r A'"
  by (auto simp: stage_spec_def acquire_spec_def split: option.splits if_splits)

lemma acquire_call:
  assumes "store_law C E" "registry_of C h = A" "distinct_dirs C (insert i (dom A))" "used_by A path = {}"
  shows "runs (defer_unlock i (do { r \<leftarrow> acquire C E i a path; ret (case r of Inl e \<Rightarrow> Some e | Inr _ \<Rightarrow> None) })) h
    (\<lambda>r h'. stage_spec (Some i) path A r (registry_of C h'))"
  by (intro runs_defer_unlock runs_bind runs_mono [OF acquire_reg [OF assms(1-3)]] runs_return stage_specI(2) [OF assms(4)])
    (auto simp: acquired_def split: sum.splits)

lemma NodeStageVolume_reg:
  assumes "store_law C E"
    and "\<And>i. stage_mount C K req = Some i \<Longrightarrow> distinct_dirs C (insert i (dom (registry_of C h0)))"
  shows "runs (NodeStageVolume C E K req) h0
    (\<lambda>r h'. stage_spec (stage_mount C K req) (ns_staging_path req) (registry_of C h0) r (registry_of C h'))"
proof -
  let ?p = "ns_staging_path req" and ?A = "registry_of C h0"
  let ?spec = "\<lambda>r h'. stage_spec (stage_mount C K req) ?p ?A r (registry_of C h')"
  have mk: "runs (check_err (err_op E (MkdirAll ?p n)) internal k) h ?spec"
    if "registry_of C h = ?A" "\<And>h'. registry_of C h' = ?A \<Longrightarrow> runs k h' ?spec" for n k h
    by (intro runs_check_err runs_err conjI allI impI that(2) stage_specI(1))
      (use that(1) in \<open>simp_all add: registry_inert internal_def\<close>)
  have acq: "runs (do { let i = mountID C (ns_volume_id req) a; unit_op (Lock i);
      defer_unlock i (do { r \<leftarrow> acquire C E i a ?p; ret (case r of Inl e \<Rightarrow> Some e | Inr _ \<Rightarrow> None) }) }) h ?spec"
    if h: "registry_of C h = ?A" "used_by ?A ?p = {}" and args: "ns_capability req = Some c"
      "volume_args C c (ns_context req) (case getSecret K ''rclone-secret'' of Inr s \<Rightarrow> Some s | Inl _ \<Rightarrow> None) = Inr a" for h c a
  proof -
    have i: "stage_mount C K req = Some (mountID C (ns_volume_id req) a)" by (simp add: stage_mount_def args)
    show ?thesis
      unfolding Let_def i
      by (intro runs_bind runs_unit acquire_call [OF assms(1)] assms(2) i h(2)) (simp_all add: h(1))
  qed
  show ?thesis
    unfolding NodeStageVolume_def Let_def [of "ns_volume_id req"] Let_def [of "ns_staging_path req"]
    by (intro runs_case_option runs_return runs_lockMountOf [OF assms(1)] runs_bind runs_unit runs_case_sum mk acq)
      (auto intro: stage_specI(1) split: if_splits)
qed

text \<open>
  Claim C7. Staging refines joining a mount: if the call succeeds, the staging path was in use
  already and the registry is as before, or it has joined the mount of the volume's arguments.
\<close>

theorem NodeStageVolume_refines:
  assumes "store_law C E"
    and "\<And>i. stage_mount C K req = Some i \<Longrightarrow> distinct_dirs C (insert i (dom (registry_of C (history w))))"
  shows "stage_spec (stage_mount C K req) (ns_staging_path req) (registry_of C (history w))
    (result (NodeStageVolume C E K req) w) (registry_of C (history (snd (run_state (NodeStageVolume C E K req) w))))"
  by (rule runsD [OF NodeStageVolume_reg [OF assms]])

section \<open>Examples\<close>

definition example_unstage :: unstage_request where
  "example_unstage = \<lparr>nu_volume_id = ''pv'', nu_staging_path = ''/staging''\<rparr>"

definition example_unpublish :: unpublish_request where
  "example_unpublish = \<lparr>nup_volume_id = ''pv'', nup_target_path = ''/target''\<rparr>"

definition empty_node :: node where
  "empty_node = \<lparr>history = [], clock = 0\<rparr>"

lemma registry_empty [simp]: "registry_of C (history empty_node) = Map.empty"
  by (simp add: registry_of_def empty_node_def stored_def fun_eq_iff)

lemma registry_staged:
  "registry_of plain_config (history staged_node) = [''pv'' \<mapsto> ({''/staging''}, Map.empty)]"
  by (simp add: registry_of_def staged_node_def stored_def fun_eq_iff usage_def maps_of_def staged_state_def)

lemma one_dir: "distinct_dirs C {i}"
  by (simp add: distinct_dirs_def)

lemma staged_dirs: "distinct_dirs plain_config (dom (registry_of plain_config (history staged_node)))"
  by (simp add: registry_staged one_dir)

lemma target_no_state: "statePath C i \<noteq> ''/target''"
proof -
  have "file_name ''state.json''" by code_simp
  then obtain q where "statePath C i = q @ ''state.json''" unfolding statePath_def using Join_file by metis
  then have "last (statePath C i) = CHR ''n''" by simp
  then show ?thesis by auto
qed

theorem NodeUnstageVolume_refines_witness:
  "unstage_spec (nu_staging_path example_unstage) (registry_of plain_config (history staged_node))
     (result (NodeUnstageVolume plain_config (sim_env plain_config) example_unstage) staged_node)
     (registry_of plain_config
       (history (snd (run_state (NodeUnstageVolume plain_config (sim_env plain_config) example_unstage) staged_node))))"
  by (rule NodeUnstageVolume_refines [OF sim_env_store staged_dirs])

definition example_ephemeral :: publish_request where
  "example_ephemeral = \<lparr>np_volume_id = ''inline'', np_staging_path = [], np_target_path = ''/target'',
     np_capability = Some \<lparr>cap_mode = SINGLE_NODE_WRITER, cap_type = MountVolume []\<rparr>, np_readonly = False,
     np_context = [(''csi.storage.k8s.io/ephemeral'', ''true''), (''remote'', ''s3''), (''remotePath'', ''bucket'')], np_secrets = []\<rparr>"

theorem NodePublishVolume_refines_witness:
  "publish_call_spec plain_config example_ephemeral (registry_of plain_config (history empty_node))
     (result (NodePublishVolume plain_config (sim_env plain_config) example_ephemeral) empty_node)
     (registry_of plain_config
       (history (snd (run_state (NodePublishVolume plain_config (sim_env plain_config) example_ephemeral) empty_node))))"
  by (rule NodePublishVolume_refines [OF sim_env_store]) (simp add: one_dir)

theorem NodeUnpublishVolume_refines_witness:
  "unpublish_spec (nup_target_path example_unpublish) (registry_of plain_config (history staged_node))
     (result (NodeUnpublishVolume plain_config (sim_env plain_config) example_unpublish) staged_node)
     (registry_of plain_config
       (history (snd (run_state (NodeUnpublishVolume plain_config (sim_env plain_config) example_unpublish) staged_node))))"
  by (rule NodeUnpublishVolume_refines [OF sim_env_store staged_dirs]) (simp add: example_unpublish_def target_no_state)

theorem NodeStageVolume_refines_witness:
  "stage_spec (stage_mount plain_config example_kube example_stage) (ns_staging_path example_stage)
     (registry_of plain_config (history empty_node))
     (result (NodeStageVolume plain_config (sim_env plain_config) example_kube example_stage) empty_node)
     (registry_of plain_config
       (history (snd (run_state (NodeStageVolume plain_config (sim_env plain_config) example_kube example_stage) empty_node))))"
  by (rule NodeStageVolume_refines [OF sim_env_store]) (simp add: one_dir)

end
