(* ===== verification/Node_Roundtrip.thy ===== *)
theory Node_Roundtrip
  imports Node_Refinement
begin

text \<open>
  Calls in sequence: what staging and unstaging, publishing and unpublishing do one after the other
  follows from what the operations on the registry do.
\<close>

section \<open>Calls in sequence\<close>

text \<open>
  Leaving undoes joining, and forgetting undoes recording, where the path was not in use. What they
  cannot restore is a mount without users, which a staging that failed leaves behind: the last user
  takes it along.
\<close>

definition tidied :: "string \<Rightarrow> registry \<Rightarrow> registry" where
  "tidied i A = (case A i of None \<Rightarrow> A | Some (U, T) \<Rightarrow> if U = {} then A(i := None) else A)"

lemma used_by_join: "used_by A p = {} \<Longrightarrow> used_by (join_spec i p A) p = {i}"
  by (fastforce simp: used_by_def join_spec_def split: option.splits if_splits)

lemma leave_join:
  assumes "used_by A p = {}"
  shows "leave_spec i p (join_spec i p A) = tidied i A"
proof (cases "A i")
  case None
  then show ?thesis by (auto simp: leave_spec_def join_spec_def tidied_def)
next
  case (Some UT)
  obtain U T where UT: "A i = Some (U, T)" using Some by (cases UT) simp
  then have "p \<notin> U" using assms by (auto simp: used_by_def)
  then have "insert p U - {p} = U" "U \<subseteq> {p} \<longleftrightarrow> U = {}" by auto
  then show ?thesis using UT by (auto simp: leave_spec_def join_spec_def tidied_def fun_upd_idem)
qed

lemma used_by_bind:
  assumes "used_by A t = {}" "A i \<noteq> None"
  shows "used_by (bind_spec i t b A) t = {i}"
  using assms by (fastforce simp: used_by_def bind_spec_def split: if_splits)

lemma unbind_bind:
  assumes "used_by A t = {}"
  shows "unbind_spec i t (bind_spec i t b A) = A"
proof (cases "A i")
  case None
  then show ?thesis by (simp add: unbind_spec_def bind_spec_def)
next
  case (Some UT)
  obtain U T where UT: "A i = Some (U, T)" using Some by (cases UT) simp
  then have "t \<notin> U" "T t = None" using assms by (auto simp: used_by_def)
  then have "U - {t} = U" "U \<noteq> {t}" "T(t := None) = T" by auto
  then show ?thesis using UT by (simp add: unbind_spec_def bind_spec_def fun_upd_idem)
qed

text \<open>The node after a call.\<close>

definition after :: "'a node_op \<Rightarrow> node \<Rightarrow> node" where
  "after m w = snd (run_state m w)"

lemma runs_after: "runs m (history w) (\<lambda>r h'. P r (registry_of C h')) \<Longrightarrow> P (result m w) (registry_of C (history (after m w)))"
  unfolding after_def by (rule runsD)

text \<open>
  Claim C12. Staging a volume at a path that is not in use and unstaging it again leaves the registry
  as it was, whatever other volumes share the mount; only if the volume's mount was there without
  a user, as a failed staging leaves it, is it gone afterwards.
\<close>

theorem stage_unstage_roundtrip:
  assumes law: "store_law C E" and unused: "used_by (registry_of C (history w)) (ns_staging_path stage) = {}"
    and dirs: "\<And>i. stage_mount C K stage = Some i \<Longrightarrow> distinct_dirs C (insert i (dom (registry_of C (history w))))"
    and same: "nu_staging_path unstage = ns_staging_path stage"
    and ok: "result (NodeStageVolume C E K stage) w = None"
      "result (NodeUnstageVolume C E unstage) (after (NodeStageVolume C E K stage) w) = None"
  shows "registry_of C (history (after (NodeUnstageVolume C E unstage) (after (NodeStageVolume C E K stage) w)))
    = tidied (the (stage_mount C K stage)) (registry_of C (history w))"
proof -
  let ?A = "registry_of C (history w)" and ?p = "ns_staging_path stage" and ?w = "after (NodeStageVolume C E K stage) w"
  have "stage_spec (stage_mount C K stage) ?p ?A None (registry_of C (history ?w))"
    using runs_after [OF NodeStageVolume_reg [OF law, of K stage "history w"]] dirs ok(1) by simp
  then obtain i where i: "stage_mount C K stage = Some i" "registry_of C (history ?w) = join_spec i ?p ?A"
    using unused by (auto simp: stage_spec_def split: option.splits)
  have "dom (join_spec i ?p ?A) = insert i (dom ?A)" by (simp add: join_spec_def)
  then have "distinct_dirs C (dom (registry_of C (history ?w)))" using dirs [OF i(1)] i(2) by simp
  then have "unstage_spec ?p (join_spec i ?p ?A) None (registry_of C (history (after (NodeUnstageVolume C E unstage) ?w)))"
    using runs_after [OF NodeUnstageVolume_reg [OF law]] ok(2) i(2) same by metis
  then have "registry_of C (history (after (NodeUnstageVolume C E unstage) ?w)) = leave_spec i ?p (join_spec i ?p ?A)"
    using used_by_join [OF unused, of i] by (simp add: unstage_spec_def departed_def)
  then show ?thesis using leave_join [OF unused, of i] i(1) by simp
qed

text \<open>What forgetting a target undoes: recording it, and the joining of an ephemeral volume.\<close>

lemma unbind_bind_join:
  assumes "used_by A t = {}"
  shows "unbind_spec i t (bind_spec i t b (join_spec i t A)) = tidied i A"
proof (cases "A i")
  case None
  then show ?thesis by (auto simp: unbind_spec_def bind_spec_def join_spec_def tidied_def)
next
  case (Some UT)
  obtain U T where UT: "A i = Some (U, T)" using Some by (cases UT) simp
  then have "t \<notin> U" "T t = None" using assms by (auto simp: used_by_def)
  then have "insert t U - {t} = U" "insert t U = {t} \<longleftrightarrow> U = {}" "T(t := None) = T" by auto
  then show ?thesis using UT by (simp add: unbind_spec_def bind_spec_def join_spec_def tidied_def fun_upd_idem)
qed

lemma used_by_bind_join: "used_by A t = {} \<Longrightarrow> used_by (bind_spec i t b (join_spec i t A)) t = {i}"
  by (fastforce simp: used_by_def bind_spec_def join_spec_def split: option.splits if_splits)

lemma dom_bind: "dom (bind_spec i t b A) = dom A"
  by (auto simp: bind_spec_def split: option.splits if_splits)

lemma dom_join: "dom (join_spec i t A) = insert i (dom A)"
  by (simp add: join_spec_def)

text \<open>
  After a publish that succeeded, one mount has the target, and forgetting it gives the registry
  before, without the mount of an ephemeral volume if that had no user.
\<close>

definition publish_undone :: "config \<Rightarrow> publish_request \<Rightarrow> registry \<Rightarrow> registry" where
  "publish_undone C req A = (if np_staging_path req = [] then tidied (the (ephemeral_mount C req)) A else A)"

lemma published_undone:
  assumes "publish_call_spec C req A None A'" and unused: "used_by A (np_target_path req) = {}"
  obtains i where "used_by A' (np_target_path req) = {i}" "unbind_spec i (np_target_path req) A' = publish_undone C req A"
    "dom A' = dom A \<or> np_staging_path req = [] \<and> ephemeral_mount C req = Some i \<and> dom A' = insert i (dom A)"
proof (cases "np_staging_path req = []")
  case True
  let ?b = "np_readonly req \<or> isReadOnly (the (np_capability req))"
  have "ephemeral_spec (ephemeral_mount C req) (np_target_path req) ?b A None A'"
    using assms(1) True by (simp add: publish_call_spec_def)
  then obtain i where i: "ephemeral_mount C req = Some i"
      "A' = bind_spec i (np_target_path req) ?b (join_spec i (np_target_path req) A)"
    by (cases "ephemeral_mount C req") (simp_all add: ephemeral_spec_def)
  have "unbind_spec i (np_target_path req) A' = publish_undone C req A"
    using unbind_bind_join [OF unused, of i ?b] True by (simp add: i publish_undone_def)
  moreover have "dom A' = insert i (dom A)" by (simp only: i(2) dom_bind dom_join)
  ultimately show thesis using that [of i] used_by_bind_join [OF unused, of i] True i by simp
next
  case False
  let ?b = "np_readonly req \<or> isReadOnly (the (np_capability req))"
  obtain i where i: "i \<in> used_by A (np_staging_path req)" "A' = bind_spec i (np_target_path req) ?b A"
    using assms(1) False by (auto simp: publish_call_spec_def publish_spec_def)
  then have "A i \<noteq> None" by (auto simp: used_by_def)
  then show thesis
    using that [of i] used_by_bind [OF unused, of i ?b] unbind_bind [OF unused, of i ?b] i(2) dom_bind [of i _ ?b A] False by (simp add: publish_undone_def)
qed

text \<open>
  Claim C13. Publishing a volume at a target that is not in use and unpublishing it again leaves the
  registry as it was, for staged volumes and for ephemeral ones; only if the mount of an ephemeral
  volume was there without a user is it gone afterwards.
\<close>

theorem publish_unpublish_roundtrip:
  assumes law: "store_law C E" and unused: "used_by (registry_of C (history w)) (np_target_path pub) = {}"
    and dirs: "distinct_dirs C (dom (registry_of C (history w)))"
      "\<And>i. np_staging_path pub = [] \<Longrightarrow> ephemeral_mount C pub = Some i \<Longrightarrow>
        distinct_dirs C (insert i (dom (registry_of C (history w))))"
    and same: "nup_target_path unpub = np_target_path pub" "\<And>i. statePath C i \<noteq> np_target_path pub"
    and ok: "result (NodePublishVolume C E pub) w = None"
      "result (NodeUnpublishVolume C E unpub) (after (NodePublishVolume C E pub) w) = None"
  shows "registry_of C (history (after (NodeUnpublishVolume C E unpub) (after (NodePublishVolume C E pub) w)))
    = publish_undone C pub (registry_of C (history w))"
proof -
  let ?A = "registry_of C (history w)" and ?t = "np_target_path pub" and ?w = "after (NodePublishVolume C E pub) w"
  let ?A' = "registry_of C (history ?w)"
  have "publish_call_spec C pub ?A None ?A'"
    using runs_after [OF NodePublishVolume_reg [OF law, of pub "history w"]] dirs(2) ok(1) by simp
  then obtain i where i: "used_by ?A' ?t = {i}" "unbind_spec i ?t ?A' = publish_undone C pub ?A"
      "dom ?A' = dom ?A \<or> np_staging_path pub = [] \<and> ephemeral_mount C pub = Some i \<and> dom ?A' = insert i (dom ?A)"
    using unused by (rule published_undone)
  then have "distinct_dirs C (dom ?A')" using dirs by metis
  then have "unpublish_spec ?t ?A' None (registry_of C (history (after (NodeUnpublishVolume C E unpub) ?w)))"
    using runs_after [OF NodeUnpublishVolume_reg [OF law, of "history ?w" unpub]] ok(2) same by metis
  then show ?thesis using i(1,2) by (simp add: unpublish_spec_def departed_def)
qed

section \<open>Examples\<close>

text \<open>On the example node no call fails, so that leaving a mount succeeds.\<close>

lemma runs_sim_err: "Q None (h @ [ErrEv c None]) \<Longrightarrow> runs (err_op (sim_env C) c) h Q"
  by (simp add: err_op_def sim_env_def runs_emit)

lemma runs_sim_remove_all: "Q None (h @ [RemoveAllEv d True None]) \<Longrightarrow> runs (remove_all_op (sim_env C) d) h Q"
  unfolding remove_all_op_def by (rule runs_bind, rule runs_emit) (simp add: sim_env_def runs_return)

lemma sim_quiet: "emits_quiet m \<Longrightarrow> (\<And>x h'. Q x h') \<Longrightarrow> runs m h Q"
  by (erule runs_emits) simp

lemma detach_sim: "(\<And>h'. Q None h') \<Longrightarrow> runs (detach (sim_env C) p) h Q"
  unfolding detach_def by (intro runs_bind runs_sim_err) (auto intro!: runs_rules)

lemma release_sim: "(\<And>h'. Q None h') \<Longrightarrow> runs (release C' (sim_env C) st u) h Q"
  unfolding release_def unmount_def saveState_def stopScope_def Let_def
  by (auto intro!: runs_if runs_bind runs_check_err runs_sim_err runs_sim_remove_all detach_sim runs_return sim_quiet [OF waitForUploads_quiet])

lemma unlock_sim: "runs m h (\<lambda>r h'. r = None) \<Longrightarrow> runs (defer_unlock i m) h (\<lambda>r h'. r = None)"
  unfolding defer_unlock_def by (rule runs_bind, erule runs_mono) (auto intro!: runs_rules)

lemma unstage_sim:
  assumes "nu_volume_id req \<noteq> []" "nu_staging_path req \<noteq> []"
  shows "result (NodeUnstageVolume C (sim_env C) req) w = None"
  unfolding result_def NodeUnstageVolume_def Let_def
  by (rule runsD [unfolded result_def])
    (use assms in \<open>auto intro!: runs_lockMountOf [OF sim_env_store] unlock_sim runs_check_err release_sim runs_return\<close>)

lemma unpublish_sim:
  assumes "nup_volume_id req \<noteq> []" "nup_target_path req \<noteq> []"
  shows "result (NodeUnpublishVolume C (sim_env C) req) w = None"
proof -
  have "runs (unpublish C (sim_env C) found t) h (\<lambda>r h'. r = None)" for found t h
    unfolding unpublish_def Let_def saveState_def
    by (auto intro!: runs_check_err detach_sim runs_bind runs_sim_err runs_return runs_case_option runs_if release_sim)
  then have "runs (NodeUnpublishVolume C (sim_env C) req) (history w) (\<lambda>r h'. r = None)"
    unfolding NodeUnpublishVolume_def Let_def
    by (intro runs_if runs_lockMountOf [OF sim_env_store] unlock_sim) (use assms in auto)
  from runsD [OF this] show ?thesis .
qed

theorem stage_unstage_roundtrip_witness:
  "registry_of plain_config (history (after (NodeUnstageVolume plain_config (sim_env plain_config) example_unstage)
     (after (NodeStageVolume plain_config (sim_env plain_config) example_kube example_stage) empty_node)))
   = tidied (the (stage_mount plain_config example_kube example_stage)) (registry_of plain_config (history empty_node))"
proof (rule stage_unstage_roundtrip [OF sim_env_store])
  show "result (NodeStageVolume plain_config (sim_env plain_config) example_kube example_stage) empty_node = None"
    using stage_example by (simp only: empty_node_def)
  show "nu_staging_path example_unstage = ns_staging_path example_stage" by (simp add: example_unstage_def example_stage_def)
  show "result (NodeUnstageVolume plain_config (sim_env plain_config) example_unstage)
      (after (NodeStageVolume plain_config (sim_env plain_config) example_kube example_stage) empty_node) = None"
    by (rule unstage_sim) (simp_all add: example_unstage_def)
qed (simp_all add: one_dir used_by_def)

lemma ephemeral_args_example:
  "ephemeralArgs plain_config \<lparr>cap_mode = SINGLE_NODE_WRITER, cap_type = MountVolume []\<rparr> example_ephemeral =
     Inr \<lparr>arg_remote = ''s3'', arg_remotePath = ''bucket'', arg_configData = [], arg_flags = [], arg_readOnly = False\<rparr>"
  by code_simp

lemma ephemeral_example:
  "result (NodePublishVolume plain_config (sim_env plain_config) example_ephemeral) empty_node = None"
proof -
  have "gget (np_context example_ephemeral) ''csi.storage.k8s.io/ephemeral'' = ''true''" by code_simp
  moreover have "np_staging_path example_ephemeral = []" "np_volume_id example_ephemeral \<noteq> []" "np_target_path example_ephemeral \<noteq> []"
      "np_capability example_ephemeral = Some \<lparr>cap_mode = SINGLE_NODE_WRITER, cap_type = MountVolume []\<rparr>"
    by (simp_all add: example_ephemeral_def)
  ultimately show ?thesis
    by (simp add: result_def NodePublishVolume_def ephemeral_args_example empty_node_def loadState_def sim_env_def acquire_def acquire_new_def mountRclone_def
        mount_def startRclone_def add_user_def not_found_def detach_def saveState_def defer_unlock_def addLegacyUser_def reread_def omitempty_def
        run_ops Let_def mount_state_of_def publish_def live_def)
qed

theorem publish_unpublish_roundtrip_witness:
  "registry_of plain_config (history (after (NodeUnpublishVolume plain_config (sim_env plain_config) example_unpublish)
     (after (NodePublishVolume plain_config (sim_env plain_config) example_ephemeral) empty_node)))
   = publish_undone plain_config example_ephemeral (registry_of plain_config (history empty_node))"
proof (rule publish_unpublish_roundtrip [OF sim_env_store])
  show "nup_target_path example_unpublish = np_target_path example_ephemeral" by (simp add: example_unpublish_def example_ephemeral_def)
  show "statePath plain_config i \<noteq> np_target_path example_ephemeral" for i by (simp add: example_ephemeral_def target_no_state)
  show "result (NodeUnpublishVolume plain_config (sim_env plain_config) example_unpublish)
      (after (NodePublishVolume plain_config (sim_env plain_config) example_ephemeral) empty_node) = None"
    by (rule unpublish_sim) (simp_all add: example_unpublish_def)
  show "result (NodePublishVolume plain_config (sim_env plain_config) example_ephemeral) empty_node = None"
    by (rule ephemeral_example)
qed (simp_all add: one_dir used_by_def distinct_dirs_def)

end
