(* ===== verification/Node_Runs.thy ===== *)
theory Node_Runs
  imports Node_Roundtrip
begin

text \<open>
  Runs of the node service: sequences of volume calls with passes of reconcile between them, as a
  state machine on the registry. The machine has the set of the targets of ephemeral volumes as a
  parameter, since publishing such a volume does not look for other mounts that have its target.
\<close>

section \<open>The state machine\<close>

inductive registry_step :: "string set \<Rightarrow> registry \<Rightarrow> registry \<Rightarrow> bool" for X where
  join: "used_by A path = {} \<Longrightarrow> registry_step X A (join_spec i path A)"
| attach: "path \<in> X \<Longrightarrow> registry_step X A (join_spec i path A)"
| create: "A i = None \<Longrightarrow> registry_step X A (A(i \<mapsto> ({}, Map.empty)))"
| leave: "i \<in> used_by A path \<Longrightarrow> registry_step X A (leave_spec i path A)"
| bind: "i \<in> used_by A path \<Longrightarrow> registry_step X A (bind_spec i target readOnly A)"
| unbind: "i \<in> used_by A target \<Longrightarrow> registry_step X A (unbind_spec i target A)"
| shrink: "A i = Some (U, T) \<Longrightarrow> U' \<subseteq> U \<Longrightarrow> U' \<noteq> {} \<Longrightarrow> dom T' \<subseteq> dom T \<Longrightarrow> registry_step X A (A(i \<mapsto> (U', T')))"
| drop: "registry_step X A (A(i := None))"

text \<open>No path outside the given set is a user of two mounts.\<close>

definition exclusive :: "string set \<Rightarrow> registry \<Rightarrow> bool" where
  "exclusive X A \<longleftrightarrow> (\<forall>i j U T V S. A i = Some (U, T) \<longrightarrow> A j = Some (V, S) \<longrightarrow> i \<noteq> j \<longrightarrow> U \<inter> V \<subseteq> X)"

lemma exclusiveD: "exclusive X A \<Longrightarrow> A i = Some (U, T) \<Longrightarrow> A j = Some (V, S) \<Longrightarrow> p \<in> U \<Longrightarrow> p \<in> V \<Longrightarrow> p \<notin> X \<Longrightarrow> i = j"
  unfolding exclusive_def by blast

lemma exclusive_sub:
  assumes "exclusive X A" "\<And>j V S. A' j = Some (V, S) \<Longrightarrow> V \<noteq> {} \<Longrightarrow> \<exists>U T. A j = Some (U, T) \<and> V \<subseteq> U"
  shows "exclusive X A'"
  unfolding exclusive_def
proof (intro allI impI subsetI, rule ccontr)
  fix i j U T V S p
  assume *: "A' i = Some (U, T)" "A' j = Some (V, S)" "i \<noteq> j" "p \<in> U \<inter> V" "p \<notin> X"
  have old: "\<exists>U T. A l = Some (U, T) \<and> p \<in> U" if "A' l = Some (W, R)" "p \<in> W" for l W R
    using assms(2) [OF that(1)] that(2) by blast
  obtain U' T' where "A i = Some (U', T')" "p \<in> U'" using old *(1,4) by blast
  moreover obtain V' S' where "A j = Some (V', S')" "p \<in> V'" using old *(2,4) by blast
  ultimately show False using exclusiveD [OF assms(1)] *(3,5) by blast
qed

lemma exclusive_join:
  assumes "exclusive X A" "used_by A p = {} \<or> p \<in> X"
  shows "exclusive X (join_spec i p A)"
  unfolding exclusive_def
proof (intro allI impI subsetI, rule ccontr)
  fix j k U T V S q
  assume *: "join_spec i p A j = Some (U, T)" "join_spec i p A k = Some (V, S)" "j \<noteq> k" "q \<in> U \<inter> V" "q \<notin> X"
  have old: "q = p \<and> l = i \<or> (\<exists>U' T'. A l = Some (U', T') \<and> q \<in> U')" if "join_spec i p A l = Some (W, R)" "q \<in> W" for l W R
    using that by (auto simp: join_spec_def split: if_splits option.splits)
  show False
  proof (cases "q = p")
    case True
    then have "\<nexists>l U' T'. A l = Some (U', T') \<and> q \<in> U'" using assms(2) *(5) by (auto simp: used_by_def)
    then show False using old * by blast
  next
    case False
    then show False using old exclusiveD [OF assms(1)] * by blast
  qed
qed

lemma exclusive_step: "registry_step X A A' \<Longrightarrow> exclusive X A \<Longrightarrow> exclusive X A'"
proof (induction rule: registry_step.induct)
  case (join A path i)
  then show ?case by (simp add: exclusive_join)
next
  case (attach path A i)
  then show ?case by (simp add: exclusive_join)
qed (erule exclusive_sub; auto simp: leave_spec_def bind_spec_def unbind_spec_def split: if_splits option.splits)+

lemma exclusive_steps: "(registry_step X)\<^sup>*\<^sup>* A A' \<Longrightarrow> exclusive X A \<Longrightarrow> exclusive X A'"
  by (induction rule: rtranclp_induct) (blast intro: exclusive_step)+

section \<open>Reconcile on the registry\<close>

definition keys_of :: "'v gomap \<Rightarrow> string set" where
  "keys_of kvs = dom (map_of kvs)"

lemma keys_of_Cons: "keys_of ((k, v) # kvs) = insert k (keys_of kvs)"
  by (simp add: keys_of_def)

lemma rebind_idle:
  "emits (rebind_targets E p xs) (\<lambda>r tr. list_all (inert C) tr \<and> keys_of (fst r) \<subseteq> keys_of xs)"
proof (induction xs)
  case (Cons x xs)
  obtain t b where x: "x = (t, b)" by fastforce
  have "idle C (check_err (detach E t) (\<lambda>_. ()) (do { _ \<leftarrow> err_op E (Bind p t b); ret () }))"
    by (auto intro!: emits_rules emits_mono [OF detach_idle])
  then show ?case
    unfolding x rebind_targets.simps
    by (auto simp: keys_of_Cons split: if_splits intro!: emits_rules emits_mono [OF Cons.IH] elim!: emits_mono)
qed (auto intro!: emits_rules)

lemma drop_users_idle:
  "emits (drop_gone_users E xs) (\<lambda>r tr. list_all (inert C) tr \<and> keys_of (fst r) \<subseteq> keys_of xs)"
  by (induction xs) (auto simp: keys_of_Cons split: if_splits intro!: emits_rules elim!: emits_mono)

lemma rebind_runs:
  "(\<And>kept b h'. registry_of C h' = registry_of C h \<Longrightarrow> keys_of kept \<subseteq> keys_of xs \<Longrightarrow> Q (kept, b) h') \<Longrightarrow>
   runs (rebind_targets E p xs) h Q"
  by (rule runs_emits [OF rebind_idle [of E p xs C]]) (auto simp: registry_inert)

lemma drop_users_runs:
  "(\<And>kept b h'. registry_of C h' = registry_of C h \<Longrightarrow> keys_of kept \<subseteq> keys_of xs \<Longrightarrow> Q (kept, b) h') \<Longrightarrow>
   runs (drop_gone_users E xs) h Q"
  by (rule runs_emits [OF drop_users_idle [of E xs C]]) (auto simp: registry_inert)

text \<open>What a pass may do to the entry of its mount: nothing, remove it, or drop users and targets.\<close>

definition reconciled :: "string \<Rightarrow> registry \<Rightarrow> registry \<Rightarrow> bool" where
  "reconciled i A A' \<longleftrightarrow> A' = A \<or> A' = A(i := None) \<or>
     (\<exists>U T U' T'. A i = Some (U, T) \<and> U' \<subseteq> U \<and> U' \<noteq> {} \<and> dom T' \<subseteq> dom T \<and> A' = A(i \<mapsto> (U', T')))"

lemma reconciledI:
  "A' = A \<Longrightarrow> reconciled i A A'"
  "A' = A(i := None) \<Longrightarrow> reconciled i A A'"
  "A i = Some u \<Longrightarrow> fst v \<subseteq> fst u \<Longrightarrow> fst v \<noteq> {} \<Longrightarrow> dom (snd v) \<subseteq> dom (snd u) \<Longrightarrow> A' = A(i \<mapsto> v) \<Longrightarrow> reconciled i A A'"
  unfolding reconciled_def by (simp, simp) (cases u; cases v; simp; blast)

lemma departed_reconciled: "departed i A (A(i := None)) r A' \<Longrightarrow> reconciled i A A'"
  by (auto simp: departed_def intro: reconciledI split: if_splits)

lemma reconcile_users_reg:
  assumes A: "registry_of C h = A" and st: "VolumeID st = i" "current C A st" and dirs: "distinct_dirs C (insert i (dom A))"
  shows "runs (reconcile_users C E i st) h (\<lambda>_ h'. reconciled i A (registry_of C h'))"
proof -
  have un: "runs (unmount C E i p) h' (\<lambda>_ h'. runs (ret ()) h' (\<lambda>_ h'. reconciled i A (registry_of C h')))"
    if "registry_of C h' = A" for p h'
    by (intro runs_mono [OF unmount_reg] runs_return) (use that dirs in \<open>auto intro: departed_reconciled\<close>)
  have save: "runs (saveState C E (st\<lparr>Targets := map_option (\<lambda>_. ts) (Targets st), Users := map_option (\<lambda>_. us) (Users st)\<rparr>)) h'
      (\<lambda>_ h'. runs (ret ()) h' (\<lambda>_ h'. reconciled i A (registry_of C h')))" (is "runs (saveState C E ?st) _ _")
    if h': "registry_of C h' = A" and kept: "keys_of ts \<subseteq> keys_of (entries (Targets st))" "keys_of us \<subseteq> keys_of (entries (Users st))" "us \<noteq> []"
    for ts us h'
  proof -
    have "keys_of us \<noteq> {}" using \<open>us \<noteq> []\<close> by (cases us) (auto simp: keys_of_def)
    then have "Users st \<noteq> None" using kept(2) by (cases "Users st") (simp_all add: keys_of_def)
    then have users: "fst (maps_of ?st) = keys_of us" by (auto simp: maps_of_def keys_of_def)
    have "dom (snd (maps_of ?st)) \<subseteq> dom (snd (maps_of st))"
      using kept(1) by (cases "Targets st") (auto simp: maps_of_def keys_of_def)
    moreover have "fst (maps_of ?st) \<subseteq> fst (maps_of st)" using kept(2) unfolding users by (simp add: maps_of_def keys_of_def)
    moreover have "A i = Some (maps_of st)" using st by (simp add: current_def)
    moreover have "usage C ?st = maps_of ?st" using users \<open>keys_of us \<noteq> {}\<close> by (simp add: usage_nonempty)
    ultimately have "reconciled i A (A(i \<mapsto> usage C ?st))"
      using users \<open>keys_of us \<noteq> {}\<close> by (intro reconciledI(3)) simp_all
    then show ?thesis
      by (intro runs_mono [OF saveState_reg] runs_return) (use h' st in \<open>auto intro: reconciledI(1)\<close>)
  qed
  show ?thesis
    unfolding reconcile_users_def
    by (intro runs_bind rebind_runs [where C = C] drop_users_runs [where C = C] runs_case_prod runs_if runs_return un save)
      (auto simp: A intro: reconciledI(1))
qed

lemma reconcile_reg:
  assumes law: "store_law C E" and dirs: "distinct_dirs C (insert i (dom (registry_of C h)))"
  shows "runs (reconcile C E i) h (\<lambda>_ h'. reconciled i (registry_of C h) (registry_of C h'))"
proof -
  let ?A = "registry_of C h"
  let ?Q = "\<lambda>_ h'. reconciled i ?A (registry_of C h')"
  have same: "runs (ret x) h' ?Q" if "registry_of C h' = ?A" for x h'
    by (rule runs_return) (simp add: that reconciledI(1))
  have gone: "runs (do { stopScope E i; _ \<leftarrow> remove_all_op E (volumeDir C i); ret () }) h' ?Q" if "registry_of C h' = ?A" for h'
  proof (intro runs_bind idle_runs [OF stopScope_idle, of C] runs_remove_all runs_return)
    fix h'' g r
    assume "registry_of C h'' = registry_of C h'"
    then show "reconciled i ?A (registry_of C (h'' @ [RemoveAllEv (volumeDir C i) g r]))"
      using registry_remove_all [of C i h'' r g] dirs that by (auto intro: departed_reconciled)
  qed
  have body: "runs (reconcile_known C E i st) h' ?Q"
    if "registry_of C h' = ?A" "VolumeID st = i" "current C ?A st" for st h'
    unfolding reconcile_known_def
    by (intro runs_bind idle_runs [OF check_idle, of C] runs_case_sum runs_if gone same runs_check_err
        idle_runs [OF remount_idle, of C] conjI allI impI reconcile_users_reg [OF _ that(2,3) dirs])
      (use that(1) in \<open>simp_all add: reconciledI(1)\<close>)
  have load: "runs (loadState C E i) h (\<lambda>r h'. registry_of C h' = ?A \<and> (\<forall>st. r = Inr st \<longrightarrow> VolumeID st = i \<and> current C ?A st))"
    by (rule runs_mono [OF loadState_reg [OF law]]) (auto split: if_splits)
  show ?thesis
    unfolding reconcile_def
    by (rule runs_bind, rule runs_mono [OF load], elim conjE, intro runs_case_sum same body) simp_all
qed

section \<open>Runs\<close>

datatype node_step =
    Stage stage_request
  | Unstage unstage_request
  | Publish publish_request
  | Unpublish unpublish_request
  | Reconcile string

definition run_step :: "config \<Rightarrow> environment \<Rightarrow> kube \<Rightarrow> node_step \<Rightarrow> node \<Rightarrow> node" where
  "run_step C E K s w =
     (case s of
        Stage req \<Rightarrow> after (NodeStageVolume C E K req) w
      | Unstage req \<Rightarrow> after (NodeUnstageVolume C E req) w
      | Publish req \<Rightarrow> after (NodePublishVolume C E req) w
      | Unpublish req \<Rightarrow> after (NodeUnpublishVolume C E req) w
      | Reconcile i \<Rightarrow> after (reconcile C E i) w)"

definition run_steps :: "config \<Rightarrow> environment \<Rightarrow> kube \<Rightarrow> node_step list \<Rightarrow> node \<Rightarrow> node" where
  "run_steps C E K ss w = foldl (\<lambda>w s. run_step C E K s w) w ss"

text \<open>
  The steps of volumes with all their mounts in a set whose directories are distinct, with the
  targets of ephemeral volumes in another set, and with targets that are not state files.
\<close>

fun step_within :: "config \<Rightarrow> kube \<Rightarrow> string set \<Rightarrow> string set \<Rightarrow> node_step \<Rightarrow> bool" where
  "step_within C K I X (Stage req) = (\<forall>i. stage_mount C K req = Some i \<longrightarrow> i \<in> I)"
| "step_within C K I X (Unstage req) = True"
| "step_within C K I X (Publish req) =
     (np_staging_path req = [] \<longrightarrow> np_target_path req \<in> X \<and> (\<forall>i. ephemeral_mount C req = Some i \<longrightarrow> i \<in> I))"
| "step_within C K I X (Unpublish req) = (\<forall>i. statePath C i \<noteq> nup_target_path req)"
| "step_within C K I X (Reconcile i) = (i \<in> I)"

lemma distinct_dirs_sub: "distinct_dirs C I \<Longrightarrow> J \<subseteq> I \<Longrightarrow> distinct_dirs C J"
  unfolding distinct_dirs_def by (blast intro: inj_on_subset)

definition stepped :: "string set \<Rightarrow> string set \<Rightarrow> registry \<Rightarrow> registry \<Rightarrow> bool" where
  "stepped X I A A' \<longleftrightarrow> (registry_step X)\<^sup>*\<^sup>* A A' \<and> dom A' \<subseteq> I"

lemma steppedI: "dom A \<subseteq> I \<Longrightarrow> stepped X I A A" "registry_step X A A' \<Longrightarrow> dom A' \<subseteq> I \<Longrightarrow> stepped X I A A'"
  by (auto simp: stepped_def)

lemma stepped_trans: "stepped X I A A' \<Longrightarrow> stepped X I A' A'' \<Longrightarrow> stepped X I A A''"
  unfolding stepped_def by (meson rtranclp_trans)

lemma dom_specs:
  "dom (join_spec i p A) = insert i (dom A)" "dom (leave_spec i p A) \<subseteq> dom A"
  "dom (bind_spec i p b A) \<subseteq> dom A" "dom (unbind_spec i p A) \<subseteq> dom A"
  by (auto simp: join_spec_def leave_spec_def bind_spec_def unbind_spec_def split: option.splits if_splits)

lemma stepped_ops:
  assumes "dom A \<subseteq> I"
  shows "used_by A p = {} \<Longrightarrow> i \<in> I \<Longrightarrow> stepped X I A (join_spec i p A)"
    "p \<in> X \<Longrightarrow> i \<in> I \<Longrightarrow> stepped X I A (join_spec i p A)"
    "A i = None \<Longrightarrow> i \<in> I \<Longrightarrow> stepped X I A (A(i \<mapsto> ({}, Map.empty)))"
    "i \<in> used_by A p \<Longrightarrow> stepped X I A (leave_spec i p A)"
    "i \<in> used_by A p \<Longrightarrow> stepped X I A (bind_spec i t b A)"
    "i \<in> used_by A p \<Longrightarrow> stepped X I A (unbind_spec i p A)"
proof -
  have sub: "stepped X I A A'" if "registry_step X A A'" "dom A' \<subseteq> dom A" for A'
    by (rule steppedI(2) [OF that(1)]) (rule subset_trans [OF that(2) assms])
  show "stepped X I A (join_spec i p A)" if "used_by A p = {}" "i \<in> I"
    using that assms by (simp add: steppedI(2) registry_step.join dom_specs(1))
  show "stepped X I A (join_spec i p A)" if "p \<in> X" "i \<in> I"
    using that assms by (simp add: steppedI(2) registry_step.attach dom_specs(1))
  show "stepped X I A (A(i \<mapsto> ({}, Map.empty)))" if "A i = None" "i \<in> I"
    using that assms by (simp add: steppedI(2) registry_step.create)
  show "stepped X I A (leave_spec i p A)" if "i \<in> used_by A p" by (intro sub registry_step.leave [OF that] dom_specs)
  show "stepped X I A (bind_spec i t b A)" if "i \<in> used_by A p" by (intro sub registry_step.bind [OF that] dom_specs)
  show "stepped X I A (unbind_spec i p A)" if "i \<in> used_by A p" by (intro sub registry_step.unbind [OF that] dom_specs)
qed

lemma ephemeral_steps:
  assumes dom: "dom A \<subseteq> I" and spec: "ephemeral_spec i t b A r A'" and t: "t \<in> X" and i: "\<And>j. i = Some j \<Longrightarrow> j \<in> I"
  shows "stepped X I A A'"
proof (cases i)
  case None
  then show ?thesis using spec dom by (simp add: ephemeral_spec_def steppedI(1))
next
  case (Some j)
  then have j: "j \<in> I" using i by simp
  have join: "stepped X I A (join_spec j t A)" by (rule stepped_ops(2) [OF dom t j])
  moreover have "stepped X I (join_spec j t A) (bind_spec j t b (join_spec j t A))"
    by (rule stepped_ops(5)) (use dom j in \<open>auto simp: dom_specs(1) used_by_def join_spec_def split: option.splits\<close>)
  ultimately show ?thesis
    using spec Some j dom by (auto simp: ephemeral_spec_def intro: steppedI(1) stepped_ops(3) stepped_trans)
qed

lemma reconciled_steps:
  assumes dom: "dom A \<subseteq> I" and spec: "reconciled k A A'" and k: "k \<in> I"
  shows "stepped X I A A'"
  using spec unfolding reconciled_def
proof (elim disjE exE conjE)
  assume "A' = A"
  then show ?thesis using dom by (simp add: steppedI(1))
next
  assume "A' = A(k := None)"
  moreover have "dom (A(k := None)) \<subseteq> I" using dom by auto
  ultimately show ?thesis by (simp only: steppedI(2) registry_step.drop)
next
  fix U T U' T'
  assume kept: "A k = Some (U, T)" "U' \<subseteq> U" "U' \<noteq> {}" "dom T' \<subseteq> dom T" and A': "A' = A(k \<mapsto> (U', T'))"
  have "registry_step X A A'" unfolding A' by (rule registry_step.shrink [where A = A, OF kept])
  moreover have "dom A' \<subseteq> I" using A' dom k by simp
  ultimately show ?thesis by (rule steppedI(2))
qed

lemma spec_steps:
  assumes "dom A \<subseteq> I"
  shows "stage_spec i p A r A' \<Longrightarrow> (\<And>j. i = Some j \<Longrightarrow> j \<in> I) \<Longrightarrow> stepped X I A A'"
    "unstage_spec p A r A' \<Longrightarrow> stepped X I A A'"
    "publish_spec (used_by A p) t b A r A' \<Longrightarrow> stepped X I A A'"
    "unpublish_spec p A r A' \<Longrightarrow> stepped X I A A'"
proof -
  show "stepped X I A A'" if "stage_spec i p A r A'" "\<And>j. i = Some j \<Longrightarrow> j \<in> I"
    using that assms unfolding stage_spec_def by (cases i) (auto split: if_splits intro: steppedI(1) stepped_ops)
  have gone: "stepped X I A A'" if "departed i A B r A'" "stepped X I A B" for i B r
    using that assms by (auto simp: departed_def intro: steppedI(1) split: if_splits)
  show "unstage_spec p A r A' \<Longrightarrow> stepped X I A A'" "publish_spec (used_by A p) t b A r A' \<Longrightarrow> stepped X I A A'"
    "unpublish_spec p A r A' \<Longrightarrow> stepped X I A A'"
    using assms unfolding unstage_spec_def publish_spec_def unpublish_spec_def
    by (auto split: if_splits intro: steppedI(1) stepped_ops gone)
qed

lemma run_step_stepped:
  assumes law: "store_law C E" and dirs: "distinct_dirs C I" and s: "step_within C K I X s"
    and dom: "dom (registry_of C (history w)) \<subseteq> I"
  shows "stepped X I (registry_of C (history w)) (registry_of C (history (run_step C E K s w)))"
proof (cases s)
  case (Stage req)
  have "stage_spec (stage_mount C K req) (ns_staging_path req) (registry_of C (history w)) (result (NodeStageVolume C E K req) w)
      (registry_of C (history (after (NodeStageVolume C E K req) w)))"
    by (rule runs_after [OF NodeStageVolume_reg [OF law]], rule distinct_dirs_sub [OF dirs]) (use Stage s dom in auto)
  then show ?thesis using spec_steps(1) [OF dom] Stage s by (simp add: run_step_def)
next
  case (Unstage req)
  show ?thesis
    unfolding run_step_def Unstage node_step.case
    by (rule spec_steps(2) [OF dom], rule runs_after [OF NodeUnstageVolume_reg [OF law distinct_dirs_sub [OF dirs dom]]])
next
  case (Publish req)
  have "publish_call_spec C req (registry_of C (history w)) (result (NodePublishVolume C E req) w)
      (registry_of C (history (after (NodePublishVolume C E req) w)))"
    by (rule runs_after [OF NodePublishVolume_reg [OF law]], rule distinct_dirs_sub [OF dirs]) (use Publish s dom in auto)
  then show ?thesis
    using Publish s by (auto simp: run_step_def publish_call_spec_def intro: spec_steps(3) [OF dom] ephemeral_steps [OF dom] split: if_splits)
next
  case (Unpublish req)
  have "statePath C i \<noteq> nup_target_path req" for i using s Unpublish by simp
  then show ?thesis
    unfolding run_step_def Unpublish node_step.case
    by (rule spec_steps(4) [OF dom runs_after [OF NodeUnpublishVolume_reg [OF law distinct_dirs_sub [OF dirs dom]]]])
next
  case (Reconcile i)
  have i: "i \<in> I" using s Reconcile by simp
  have "distinct_dirs C (insert i (dom (registry_of C (history w))))" using i dom by (auto intro: distinct_dirs_sub [OF dirs])
  from runs_after [OF reconcile_reg [OF law this]] show ?thesis
    unfolding run_step_def Reconcile node_step.case by (rule reconciled_steps [OF dom _ i])
qed

lemma run_steps_stepped:
  assumes law: "store_law C E" and dirs: "distinct_dirs C I"
  shows "\<forall>s\<in>set ss. step_within C K I X s \<Longrightarrow> dom (registry_of C (history w)) \<subseteq> I \<Longrightarrow>
    stepped X I (registry_of C (history w)) (registry_of C (history (run_steps C E K ss w)))"
proof (induction ss arbitrary: w)
  case (Cons s ss)
  let ?w = "run_step C E K s w"
  have one: "stepped X I (registry_of C (history w)) (registry_of C (history ?w))"
    using run_step_stepped [OF law dirs _ Cons.prems(2)] Cons.prems(1) by simp
  then have "stepped X I (registry_of C (history ?w)) (registry_of C (history (run_steps C E K ss ?w)))"
    using Cons.IH Cons.prems(1) by (simp add: stepped_def)
  with one show ?case unfolding run_steps_def foldl_Cons by (rule stepped_trans)
qed (simp add: run_steps_def steppedI)

text \<open>
  Claim C3. Every run of staging, unstaging, publishing, unpublishing and reconciling, of staged and
  ephemeral volumes, is a path of the state machine on the registry.
\<close>

theorem runs_follow_machine:
  assumes "store_law C E" "distinct_dirs C I" "\<forall>s\<in>set ss. step_within C K I X s" "dom (registry_of C (history w)) \<subseteq> I"
  shows "(registry_step X)\<^sup>*\<^sup>* (registry_of C (history w)) (registry_of C (history (run_steps C E K ss w)))"
  using run_steps_stepped [OF assms] by (simp add: stepped_def)

text \<open>
  Claim C11. In every state that a run from an empty node reaches, no path is a user of two mounts
  but the target of an ephemeral volume, so unstaging a path cannot leave it behind in another mount.
\<close>

theorem runs_keep_exclusive:
  assumes "store_law C E" "distinct_dirs C I" "\<forall>s\<in>set ss. step_within C K I X s" "registry_of C (history w) = Map.empty"
  shows "exclusive X (registry_of C (history (run_steps C E K ss w)))"
proof -
  have "(registry_step X)\<^sup>*\<^sup>* Map.empty (registry_of C (history (run_steps C E K ss w)))"
    using run_steps_stepped [OF assms(1-3), of w] assms(4) by (simp add: stepped_def)
  moreover have "exclusive X Map.empty" by (simp add: exclusive_def)
  ultimately show ?thesis by (rule exclusive_steps)
qed

section \<open>Examples\<close>

definition example_mount :: string where
  "example_mount = mountID plain_config ''pv''
     \<lparr>arg_remote = ''s3'', arg_remotePath = ''bucket'', arg_configData = [], arg_flags = [], arg_readOnly = False\<rparr>"

definition example_run :: "node_step list" where
  "example_run = [Stage example_stage, Publish example_publish, Publish example_ephemeral, Reconcile example_mount,
     Unpublish example_unpublish, Unstage example_unstage]"

lemma example_run_within: "\<forall>s\<in>set example_run. step_within plain_config example_kube {example_mount} {''/target''} s"
proof -
  have "stage_mount plain_config example_kube example_stage = Some example_mount"
    by (simp add: stage_mount_def example_stage_def args_example example_kube_def getSecret_def example_mount_def)
  moreover have "ephemeral_mount plain_config example_ephemeral = Some example_mount"
    using ephemeral_args_example
    by (simp add: ephemeral_mount_def example_mount_def mountID_def example_ephemeral_def plain_config_def default_config_def)
  moreover have "np_target_path example_ephemeral = ''/target''" by (simp add: example_ephemeral_def)
  ultimately show ?thesis by (simp add: example_run_def example_publish_def example_unpublish_def target_no_state)
qed

theorem runs_follow_machine_witness:
  "(registry_step {''/target''})\<^sup>*\<^sup>* (registry_of plain_config (history empty_node))
     (registry_of plain_config (history (run_steps plain_config (sim_env plain_config) example_kube example_run empty_node)))"
  by (rule runs_follow_machine [OF sim_env_store one_dir example_run_within]) simp

theorem runs_keep_exclusive_witness:
  "exclusive {''/target''} (registry_of plain_config
     (history (run_steps plain_config (sim_env plain_config) example_kube example_run empty_node)))"
  by (rule runs_keep_exclusive [OF sim_env_store one_dir example_run_within]) simp

end
