(* ===== verification/Node_States.thy ===== *)
theory Node_States
  imports Registry
begin

text \<open>
  What the states have in common that the driver writes and that it starts rclone for: a property
  of states that loading, the updates of the operations and the construction of a new state keep
  holds of every state saved and of every rclone started.
\<close>

section \<open>Events that carry a state\<close>

text \<open>
  Arguments that a volume's context and secret give. A configuration that is written is that of such
  arguments, a state that is saved or started from has the property in question.
\<close>

definition args_from :: "config \<Rightarrow> rcloneArgs \<Rightarrow> bool" where
  "args_from C a \<longleftrightarrow> (\<exists>capability volumeContext sec. volume_args C capability volumeContext sec = Inr a)"

fun state_event :: "config \<Rightarrow> environment \<Rightarrow> (volumeState \<Rightarrow> bool) \<Rightarrow> event \<Rightarrow> bool" where
  "state_event C E P (ErrEv (Save s i st) r) = (s = stateStore C \<and> i = VolumeID st \<and> P st)"
| "state_event C E P (IntEv (Start i args env path t) r) =
     (\<exists>st h. P st \<and> i = VolumeID st \<and> args = Args st \<and> env = ans_environ E h @ Env st \<and> path = StagingPath st)"
| "state_event C E P (ErrEv (WriteFile f content m) r) = (\<exists>a. args_from C a \<and> content = arg_configData a)"
| "state_event C E P _ = True"

abbreviation states_ok :: "config \<Rightarrow> environment \<Rightarrow> (volumeState \<Rightarrow> bool) \<Rightarrow> event list \<Rightarrow> bool" where
  "states_ok C E P tr \<equiv> list_all (state_event C E P) tr"

abbreviation keeps :: "config \<Rightarrow> environment \<Rightarrow> (volumeState \<Rightarrow> bool) \<Rightarrow> 'a node_op \<Rightarrow> ('a \<Rightarrow> bool) \<Rightarrow> bool" where
  "keeps C E P m Q \<equiv> emits m (\<lambda>r tr. states_ok C E P tr \<and> Q r)"

lemma quiet_state_event: "quiet ev \<Longrightarrow> state_event C E P ev"
  by (erule quiet.elims) simp_all

lemma started_ok:
  "P st \<Longrightarrow> state_event C E P (IntEv (Start (VolumeID st) (Args st) (ans_environ E h @ Env st) (StagingPath st) t) r)"
  by auto

lemma small_keeps:
  "keeps C E P (detach E p) (\<lambda>_. True)" "keeps C E P (live E p) (\<lambda>_. True)" "keeps C E P (check C' E st) (\<lambda>_. True)"
  "keeps C E P (stopScope E i) (\<lambda>_. True)" "keeps C E P (waitForUploads C' E i) (\<lambda>_. True)" "keeps C E P (readLog E f n) (\<lambda>_. True)"
  unfolding detach_def live_def check_def stopScope_def
  by (auto simp: list_all_iff quiet_state_event intro!: emits_rules emits_mono [OF waitForUploads_quiet] emits_mono [OF readLog_quiet])

lemmas small_ops = small_keeps [THEN emits_mono]

text \<open>The parts of a map that a loop over it leaves.\<close>

definition part_of :: "'v gomap \<Rightarrow> 'v gomap \<Rightarrow> bool" where
  "part_of kept xs \<longleftrightarrow> set (map fst kept) \<subseteq> set (map fst xs) \<and> (gomap_ok xs \<longrightarrow> gomap_ok kept)"

lemma part_of_Cons: "part_of kept xs \<Longrightarrow> part_of kept (x # xs)" "part_of kept xs \<Longrightarrow> part_of (x # kept) (x # xs)"
  by (auto simp: part_of_def)

lemma rebind_keys: "keeps C E P (rebind_targets E p xs) (\<lambda>r. part_of (fst r) xs)"
proof (induction xs)
  case (Cons x xs)
  obtain t b where x: "x = (t, b)" by fastforce
  have bind: "keeps C E P (check_err (detach E t) (\<lambda>_. ()) (do { _ \<leftarrow> err_op E (Bind p t b); ret () })) (\<lambda>_. True)"
    by (auto intro!: emits_rules small_ops)
  have rest: "keeps C E P (do { (kept, changed) \<leftarrow> rebind_targets E p xs;
      ret (if gone then (kept, True) else ((t, b) # kept, changed)) }) (\<lambda>r. part_of (fst r) ((t, b) # xs))" for gone
    by (auto intro!: emits_bind emits_mono [OF Cons.IH] emits_return intro: part_of_Cons split: prod.splits if_splits)
  show ?case
    unfolding x rebind_targets.simps
    by (rule emits_bind, rule emits_probe, rule emits_bind, rule emits_if, rule emits_mono [OF bind], rule emits_mono [OF rest],
        simp, rule emits_return, rule emits_mono [OF rest], simp)
qed (auto intro!: emits_rules simp: part_of_def)

lemma drop_users_keys: "keeps C E P (drop_gone_users E xs) (\<lambda>r. part_of (fst r) xs)"
proof (induction xs)
  case (Cons x xs)
  have rest: "keeps C E P (do { (kept, changed) \<leftarrow> drop_gone_users E xs;
      ret (if gone then (kept, True) else (x # kept, changed)) }) (\<lambda>r. part_of (fst r) (x # xs))" for gone
    by (auto intro!: emits_bind emits_mono [OF Cons.IH] emits_return intro: part_of_Cons split: prod.splits if_splits)
  show ?case
    unfolding drop_gone_users.simps
    by (rule emits_bind, rule emits_probe, rule emits_mono [OF rest], simp)
qed (auto intro!: emits_rules simp: part_of_def)

section \<open>A type of states\<close>

text \<open>States as they are decoded.\<close>

definition decodes :: "(volumeState \<Rightarrow> bool) \<Rightarrow> environment \<Rightarrow> bool" where
  "decodes raw E \<longleftrightarrow> (\<forall>h s i st. ans_load E h s i = Inr st \<longrightarrow> raw st)"

locale state_type =
  fixes C :: config and P raw :: "volumeState \<Rightarrow> bool"
  assumes loaded: "raw st \<Longrightarrow> P (addLegacyUser C st)"
    and new: "args_from C a \<Longrightarrow> P (mount_state_of C i a (mountPath C i))"
    and marked: "P st \<Longrightarrow> P (st\<lparr>Mounted := m\<rparr>)"
    and joined: "P st \<Longrightarrow> P (st\<lparr>Users := store_in (Users st) u ()\<rparr>)"
    and left: "P st \<Longrightarrow> entries (delete_from (Users st) u) \<noteq> [] \<Longrightarrow> P (st\<lparr>Users := delete_from (Users st) u\<rparr>)"
    and bound: "P st \<Longrightarrow> P (st\<lparr>Targets := store_in (Targets st) t b\<rparr>)"
    and unbound: "P st \<Longrightarrow> P (st\<lparr>Targets := delete_from (Targets st) t\<rparr>)"
    and shrunk: "P st \<Longrightarrow> part_of ts (entries (Targets st)) \<Longrightarrow> part_of us (entries (Users st)) \<Longrightarrow> us \<noteq> [] \<Longrightarrow>
      P (st\<lparr>Targets := map_option (\<lambda>_. ts) (Targets st), Users := map_option (\<lambda>_. us) (Users st)\<rparr>)"
begin

lemma saveState_states: "P st \<Longrightarrow> keeps C E P (saveState C E st) (\<lambda>_. True)"
  unfolding saveState_def by (auto intro!: emits_rules)

lemma loadState_states:
  assumes "decodes raw E"
  shows "keeps C E P (loadState C E i) (\<lambda>r. \<forall>st. r = Inr st \<longrightarrow> P st)"
  using assms unfolding loadState_def decodes_def
  by (auto intro!: emits_rules loaded split: sum.splits)

lemma lock_first_use_states:
  assumes "decodes raw E"
  shows "keeps C E P (lock_first_use C E path sts) (\<lambda>r. \<forall>st. r = Some st \<longrightarrow> P st)"
  by (induction sts)
    (auto intro!: emits_rules emits_mono [OF loadState_states [OF assms]] elim!: emits_mono split: sum.splits)

lemma lockMountOf_states:
  assumes "decodes raw E"
  shows "keeps C E P (lockMountOf C E path) (\<lambda>r. \<forall>st. r = Some st \<longrightarrow> P st)"
  unfolding lockMountOf_def loadStates_def
  by (auto intro!: emits_rules emits_mono [OF lock_first_use_states [OF assms]])

lemma startRclone_states: "P st \<Longrightarrow> keeps C E P (startRclone C E st) (\<lambda>_. True)"
  unfolding startRclone_def Let_def
  by (auto simp: started_ok simp del: state_event.simps(2) intro!: emits_rules small_ops)

lemma remount_states: "P st \<Longrightarrow> keeps C E P (remount C E st) (\<lambda>_. True)"
  unfolding remount_def by (auto intro!: emits_rules small_ops emits_mono [OF startRclone_states])

lemma unmount_states: "keeps C E P (unmount C E i p) (\<lambda>_. True)"
  unfolding unmount_def by (auto intro!: emits_rules small_ops)

lemma release_states: "P st \<Longrightarrow> keeps C E P (release C E st u) (\<lambda>_. True)"
  unfolding release_def Let_def
  by (auto intro!: emits_if emits_mono [OF saveState_states] emits_mono [OF unmount_states] left)

lemma mount_states: "args_from C a \<Longrightarrow> keeps C E P (mount C E i a (mountPath C i)) (\<lambda>_. True)"
  unfolding mount_def Let_def
  by (auto intro!: emits_rules emits_mono [OF saveState_states] emits_mono [OF startRclone_states] new marked [OF new])

lemma mountRclone_states: "args_from C a \<Longrightarrow> keeps C E P (mountRclone C E i a) (\<lambda>_. True)"
  unfolding mountRclone_def by (auto intro!: emits_rules small_ops emits_mono [OF mount_states])

lemma add_user_states: "P st \<Longrightarrow> keeps C E P (add_user C E st u) (\<lambda>r. \<forall>st'. r = Inr st' \<longrightarrow> P st')"
  unfolding add_user_def Let_def
  by (auto intro!: emits_rules emits_mono [OF saveState_states] joined)

lemma acquire_states:
  assumes "decodes raw E" "args_from C a"
  shows "keeps C E P (acquire C E i a u) (\<lambda>r. \<forall>st. r = Inr st \<longrightarrow> P st)"
  unfolding acquire_def acquire_new_def acquire_known_def
  by (auto intro!: emits_rules small_ops emits_mono [OF loadState_states [OF assms(1)]] emits_mono [OF mountRclone_states [OF assms(2)]]
      emits_mono [OF add_user_states] emits_mono [OF remount_states] marked)

lemma defer_unlock_states: "keeps C E P m (\<lambda>_. True) \<Longrightarrow> keeps C E P (defer_unlock i m) (\<lambda>_. True)"
  unfolding defer_unlock_def by (auto intro!: emits_rules elim!: emits_mono)

lemma publish_states: "P st \<Longrightarrow> keeps C E P (publish C E st v t b) (\<lambda>_. True)"
  unfolding publish_def by (auto intro!: emits_rules small_ops emits_mono [OF saveState_states] bound)

lemma unpublish_states: "\<forall>st. found = Some st \<longrightarrow> P st \<Longrightarrow> keeps C E P (unpublish C E found t) (\<lambda>_. True)"
  unfolding unpublish_def Let_def
  by (auto intro!: emits_rules small_ops emits_mono [OF saveState_states] emits_mono [OF release_states] unbound)

lemma reconcile_users_states: "P st \<Longrightarrow> keeps C E P (reconcile_users C E i st) (\<lambda>_. True)"
  unfolding reconcile_users_def
  by (auto intro!: emits_bind emits_mono [OF rebind_keys] emits_mono [OF drop_users_keys] emits_case_prod emits_if emits_return
      emits_mono [OF unmount_states] emits_mono [OF saveState_states] shrunk)

lemma reconcile_states:
  assumes "decodes raw E"
  shows "keeps C E P (reconcile C E i) (\<lambda>_. True)"
  unfolding reconcile_def reconcile_known_def
  by (auto intro!: emits_rules small_ops emits_mono [OF loadState_states [OF assms]] emits_mono [OF remount_states]
      emits_mono [OF reconcile_users_states])

lemma args_request:
  "volume_args C capability volumeContext sec = Inr a \<Longrightarrow> args_from C a"
  "ephemeralArgs C capability req = Inr a \<Longrightarrow> args_from C a"
  by (auto simp: args_from_def ephemeralArgs_def)

lemma node_calls_keep:
  assumes "decodes raw E"
  shows "keeps C E P (NodeStageVolume C E K stage) (\<lambda>_. True)" "keeps C E P (NodeUnstageVolume C E unstage) (\<lambda>_. True)"
    "keeps C E P (NodePublishVolume C E pub) (\<lambda>_. True)" "keeps C E P (NodeUnpublishVolume C E unpub) (\<lambda>_. True)"
  unfolding NodeStageVolume_def NodeUnstageVolume_def NodePublishVolume_def NodeUnpublishVolume_def Let_def
  by (auto intro!: emits_rules emits_mono [OF lockMountOf_states [OF assms]] emits_mono [OF acquire_states [OF assms]]
      emits_mono [OF defer_unlock_states] emits_mono [OF release_states] emits_mono [OF publish_states] emits_mono [OF unpublish_states]
      intro: args_request)

text \<open>Every call and every pass of reconcile.\<close>

lemma all_keep:
  assumes "decodes raw E"
  shows "states_ok C E P (trace (NodeStageVolume C E K stage) w) \<and> states_ok C E P (trace (NodeUnstageVolume C E unstage) w)
    \<and> states_ok C E P (trace (NodePublishVolume C E pub) w) \<and> states_ok C E P (trace (NodeUnpublishVolume C E unpub) w)
    \<and> states_ok C E P (trace (reconcile C E i) w)"
  using node_calls_keep [OF assms, THEN emitsD] reconcile_states [OF assms, THEN emitsD] by blast

end

end
