(* ===== verification/Node_Types.thy ===== *)
theory Node_Types
  imports Node_States Node_Example
begin

text \<open>
  The type of the states that the driver writes: maps with one entry per key, no empty map of
  users, and users wherever rclone is not mounted in its own directory. Every save keeps it.
\<close>

section \<open>Well-formed states\<close>

definition maps_ok :: "volumeState \<Rightarrow> bool" where
  "maps_ok st \<longleftrightarrow> gomap_ok (entries (Users st)) \<and> gomap_ok (entries (Targets st)) \<and> Users st \<noteq> Some []"

definition state_ok :: "config \<Rightarrow> volumeState \<Rightarrow> bool" where
  "state_ok C st \<longleftrightarrow> maps_ok st \<and> (Users st = None \<longrightarrow> StagingPath st = mountPath C (VolumeID st))"

lemma gset_nonempty: "gset m k v \<noteq> []"
proof
  assume "gset m k v = []"
  then have "map_of (gset m k v) k = None" by simp
  then show False by (simp add: gset_look)
qed

lemma map_updates_ok [simp]:
  "gomap_ok (entries m) \<Longrightarrow> gomap_ok (entries (store_in m k v))"
  "gomap_ok (entries m) \<Longrightarrow> gomap_ok (entries (delete_from m k))"
  "store_in m k v \<noteq> Some []" "store_in m k v \<noteq> None"
  "delete_from m k = None \<longleftrightarrow> m = None"
  using gset_nonempty [of "entries m" k v]
  by (cases m; simp add: store_in_def delete_from_def)+

lemma shrunk_map_ok:
  "part_of kept (entries m) \<Longrightarrow> gomap_ok (entries m) \<Longrightarrow> gomap_ok (entries (map_option (\<lambda>_. kept) m))"
  by (cases m) (simp_all add: part_of_def)

lemmas state_ok_defs = state_ok_def maps_ok_def

interpretation wf: state_type C "state_ok C" maps_ok for C
proof
  fix st us ts u
  assume st: "state_ok C st"
  show "state_ok C (st\<lparr>Users := delete_from (Users st) u\<rparr>)" if "entries (delete_from (Users st) u) \<noteq> []"
    using st that by (auto simp: state_ok_defs)
  show "state_ok C (st\<lparr>Targets := map_option (\<lambda>_. ts) (Targets st), Users := map_option (\<lambda>_. us) (Users st)\<rparr>)"
    if "part_of ts (entries (Targets st))" "part_of us (entries (Users st))" "us \<noteq> []"
    using st that by (auto simp: state_ok_defs shrunk_map_ok)
qed (auto simp: state_ok_defs addLegacyUser_def mount_state_of_def)

section \<open>The calls\<close>

text \<open>
  Claim C18. Whatever happens, the driver writes only well-formed states, each under the ID in it, and
  starts rclone only for such a state: one entry per key, no empty map of users, and users
  wherever rclone is not mounted in the directory of its state, so that a state is never taken for
  one of release 4.0.0. A state decoded from JSON has distinct keys, and \<^verbatim>\<open>omitempty\<close> keeps an
  empty map of users out of the file.
\<close>

theorem saved_states_ok:
  assumes "decodes maps_ok E"
  shows "states_ok C E (state_ok C) (trace (NodeStageVolume C E K stage) w)
    \<and> states_ok C E (state_ok C) (trace (NodeUnstageVolume C E unstage) w)
    \<and> states_ok C E (state_ok C) (trace (NodePublishVolume C E pub) w)
    \<and> states_ok C E (state_ok C) (trace (NodeUnpublishVolume C E unpub) w)
    \<and> states_ok C E (state_ok C) (trace (reconcile C E i) w)"
  by (rule wf.all_keep [OF assms])

section \<open>An example\<close>

text \<open>The example node, with a decoder that refuses what is not a state.\<close>

definition decoding_env :: "config \<Rightarrow> environment" where
  "decoding_env C = (sim_env C)\<lparr>ans_load := (\<lambda>h s i. case stored C h i of
     Some st \<Rightarrow> if maps_ok (reread st) then Inr (reread st) else Inl (Errorf ''invalid state'')
   | None \<Rightarrow> Inl not_found)\<rparr>"

definition unstaged_request :: unstage_request where
  "unstaged_request = \<lparr>nu_volume_id = ''pv'', nu_staging_path = ''/staging''\<rparr>"

theorem saved_states_ok_witness:
  "states_ok plain_config (decoding_env plain_config) (state_ok plain_config) (trace (NodeUnstageVolume plain_config (decoding_env plain_config) unstaged_request) \<lparr>history = [], clock = 0\<rparr>)
   \<and> states_ok plain_config (decoding_env plain_config) (state_ok plain_config) (trace (reconcile plain_config (decoding_env plain_config) ''pv'') \<lparr>history = [], clock = 0\<rparr>)"
proof -
  have "decodes maps_ok (decoding_env plain_config)"
    by (auto simp: decodes_def decoding_env_def split: option.splits if_splits)
  from saved_states_ok [OF this] show ?thesis by blast
qed

end
