(* ===== verification/Node_Repair.thy ===== *)
theory Node_Repair
  imports Node_Types
begin

text \<open>
  That reconcile repairs: on a node where unmounting, binding and starting rclone work again, one
  pass brings back every path of its mount that it finds dead.
\<close>

section \<open>What is found dead\<close>

text \<open>
  The paths that were probed, and those whose first probe said that a dead mount is there and that
  nothing was mounted at since.
\<close>

fun dead_step :: "string set \<times> string set \<Rightarrow> event \<Rightarrow> string set \<times> string set" where
  "dead_step (seen, dead) (ProbeEv p s e) = (insert p seen, if s = Dead \<and> p \<notin> seen then insert p dead else dead)"
| "dead_step (seen, dead) (IntEv (Start _ _ _ p _) r) = (seen, if isl r then dead else dead - {p})"
| "dead_step (seen, dead) (ErrEv (Bind _ p _) r) = (seen, if r = None then dead - {p} else dead)"
| "dead_step s _ = s"

definition left_dead :: "event list \<Rightarrow> string set" where
  "left_dead tr = snd (foldl dead_step ({}, {}) tr)"

text \<open>The paths that rclone serves for a mount: its mount point and the targets bound from it.\<close>

definition served :: "volumeState \<Rightarrow> string set" where
  "served st = insert (StagingPath st) (dom (map_of (entries (Targets st))))"

text \<open>
  A node that works again: the calls that take a mount down and bring it up succeed, and no
  mount hangs.
\<close>

definition recovered :: "environment \<Rightarrow> bool" where
  "recovered E \<longleftrightarrow>
     (\<forall>h p. ans_err E h (Unmount p) = None) \<and> (\<forall>h i. ans_err E h (StopScope i) = None)
     \<and> (\<forall>h p q b. ans_err E h (Bind p q b) = None)
     \<and> (\<forall>h i args env p t. \<not> isl (ans_int E h (Start i args env p t)))
     \<and> (\<forall>h p e. snd (ans_probe E h p) = Some e \<longrightarrow> \<not> IsHung e)"

section \<open>Runs on a node that works\<close>

text \<open>The paths probed and left dead since a point of the history.\<close>

definition since :: "nat \<Rightarrow> event list \<Rightarrow> string set \<times> string set" where
  "since k h = foldl dead_step ({}, {}) (drop k h)"

lemma since_append: "k \<le> length h \<Longrightarrow> since k (h @ tr) = foldl dead_step (since k h) tr"
  by (simp add: since_def)

lemma seen_mono: "fst s \<subseteq> fst (dead_step s ev)"
  by (induction s ev rule: dead_step.induct) auto

text \<open>Once all of a set was probed, nothing of it is found dead any more.\<close>

lemma all_seen_step: "S \<subseteq> fst s \<Longrightarrow> snd s \<inter> S = {} \<Longrightarrow> S \<subseteq> fst (dead_step s ev) \<and> snd (dead_step s ev) \<inter> S = {}"
  by (induction s ev rule: dead_step.induct) auto

lemma all_seen: "S \<subseteq> fst s \<Longrightarrow> snd s \<inter> S = {} \<Longrightarrow> snd (foldl dead_step s tr) \<inter> S = {}"
proof (induction tr arbitrary: s)
  case (Cons ev tr)
  from all_seen_step [OF Cons.prems, of ev] show ?case by (simp add: Cons.IH)
qed simp

text \<open>Invariant of a pass: nothing of the mount is left dead so far, and these paths were probed.\<close>

definition alive :: "nat \<Rightarrow> string set \<Rightarrow> string set \<Rightarrow> event list \<Rightarrow> bool" where
  "alive k S P h \<longleftrightarrow> k \<le> length h \<and> snd (since k h) \<inter> S = {} \<and> P \<subseteq> fst (since k h)"

lemma alive_all: "alive k S S h \<Longrightarrow> alive k S {} (h @ tr)"
  by (simp add: alive_def since_append all_seen)

lemma recoveredD:
  assumes "recovered E"
  shows "ans_err E h (Unmount p) = None" "ans_err E h (StopScope i) = None" "ans_err E h (Bind p q b) = None"
    "\<not> isl (ans_int E h (Start i args env p t))" "snd (ans_probe E h p) = Some e \<Longrightarrow> \<not> IsHung e"
  using assms unfolding recovered_def by blast+

lemma runs_err_works: "ans_err E h c = None \<Longrightarrow> Q None (h @ [ErrEv c None]) \<Longrightarrow> runs (err_op E c) h Q"
  unfolding err_op_def by (rule runs_emit) simp

lemma runs_start_works:
  assumes "recovered E" "\<And>n. Q (Inr n) (h @ [IntEv (Start i args env p t) (Inr n)])"
  shows "runs (int_op E (Start i args env p t)) h Q"
  unfolding int_op_def
  by (rule runs_emit, cases "ans_int E h (Start i args env p t)") (use recoveredD(4) [OF assms(1), of h i args env p t] assms(2) in auto)

lemma runs_probe_works:
  assumes "recovered E" "\<And>s e. (case e of Some x \<Rightarrow> IsHung x | None \<Rightarrow> False) = False \<Longrightarrow> Q (s, e) (h @ [ProbeEv p s e])"
  shows "runs (probe_op E p) h Q"
  unfolding probe_op_def
  by (rule runs_emit, cases "ans_probe E h p")
    (use recoveredD(5) [OF assms(1), of h p] assms(2) in \<open>auto split: option.splits\<close>)

lemma detach_works:
  assumes "recovered E" "Q None (h @ [ErrEv (Unmount p) None, UnitEv (Forget p)])"
  shows "runs (detach E p) h Q"
  unfolding detach_def
  by (intro runs_bind runs_err_works recoveredD(1) [OF assms(1)]) (use assms(2) in \<open>simp add: runs_bind runs_unit runs_return\<close>)

lemma runs_environ [runs_rules]: "(\<And>vs. Q vs (h @ [EnvironEv vs])) \<Longrightarrow> runs (environ_op E) h Q"
  unfolding environ_op_def by (rule runs_emit)

lemma startRclone_works:
  assumes E: "recovered E" and h: "k \<le> length h" "since k h = (seen, dead)"
  shows "runs (startRclone C E st) h (\<lambda>r h'. r = None \<and> k \<le> length h' \<and> since k h' = (seen, dead - {StagingPath st}))"
  unfolding startRclone_def Let_def
  by (intro runs_bind runs_int runs_err runs_environ runs_start_works [OF E])
    (use h in \<open>auto simp: since_append intro!: runs_return\<close>)

lemma remount_works:
  assumes E: "recovered E" and h: "k \<le> length h" "since k h = (seen, dead)"
  shows "runs (remount C E st) h (\<lambda>r h'. r = None \<and> k \<le> length h' \<and> since k h' = (seen, dead - {StagingPath st}))"
  unfolding remount_def
  by (intro runs_check_err detach_works [OF E] runs_err_works recoveredD(2) [OF E] conjI impI allI
      runs_mono [OF startRclone_works [where k = k and seen = seen and dead = dead, OF E]]) (use h in \<open>auto simp: since_append\<close>)

lemma check_works:
  assumes E: "recovered E" and h: "k \<le> length h" "since k h = ({}, {})"
  shows "runs (check C E st) h (\<lambda>r h'. k \<le> length h' \<and>
    (r = Inr Dead \<and> since k h' = ({StagingPath st}, {StagingPath st})
     \<or> r \<noteq> Inr Dead \<and> since k h' = ({StagingPath st}, {})))"
  unfolding check_def
  by (intro runs_bind runs_probe_works [OF E])
    (use h in \<open>auto simp: since_append intro!: runs_return runs_bind runs_if runs_pid\<close>)

section \<open>A pass\<close>

lemma alive_step:
  assumes "alive k S P h"
  shows "s \<noteq> Dead \<Longrightarrow> alive k S (insert t P) (h @ [ProbeEv t s e])"
    "alive k S (insert t P) (h @ [ProbeEv t s e, ErrEv (Unmount t) r, UnitEv u, ErrEv (Bind p t b) None])"
  using assms by (cases "since k h"; auto simp: alive_def since_append)+

lemma rebind_works:
  assumes E: "recovered E"
  shows "alive k S P h \<Longrightarrow> runs (rebind_targets E p xs) h (\<lambda>_ h'. alive k S (P \<union> dom (map_of xs)) h')"
proof (induction xs arbitrary: h P)
  case (Cons x xs)
  obtain t b where x: "x = (t, b)" by fastforce
  have rest: "runs (do { (kept, changed) \<leftarrow> rebind_targets E p xs;
      ret (if gone then (kept, True) else ((t, b) # kept, changed)) }) h' (\<lambda>_ h'. alive k S (P \<union> dom (map_of (x # xs))) h')"
    if "alive k S (insert t P) h'" for h' gone
    by (rule runs_bind, rule runs_mono [OF Cons.IH [OF that]]) (auto simp: x intro!: runs_case_prod runs_return)
  show ?case
    unfolding x rebind_targets.simps
    by (rule runs_bind, rule runs_probe_works [OF E], rule runs_bind, rule runs_if, rule runs_check_err,
        rule detach_works [OF E], intro conjI impI allI, simp, rule runs_bind, rule runs_err_works [OF recoveredD(3) [OF E]],
        rule runs_return, rule rest [unfolded x], use alive_step(2) [OF Cons.prems] in simp,
        rule runs_return, rule rest [unfolded x], use alive_step(1) [OF Cons.prems] in simp)
qed (auto intro: runs_return)

lemma reconcile_users_works:
  assumes E: "recovered E" and h: "alive k (served st) {StagingPath st} h"
  shows "runs (reconcile_users C E i st) h (\<lambda>_ h'. alive k (served st) {} h')"
proof -
  have rest: "emits (do { (users, changed') \<leftarrow> drop_gone_users E (entries (Users st));
     if users = [] then do { _ \<leftarrow> unmount C E i (StagingPath st); ret () }
     else if changed \<or> changed' then do {
       _ \<leftarrow> saveState C E (st\<lparr>Targets := map_option (\<lambda>_. targets) (Targets st), Users := map_option (\<lambda>_. users) (Users st)\<rparr>);
       ret () } else ret () }) (\<lambda>_ _. True)" for targets changed
    unfolding saveState_def
    by (intro emits_bind emits_mono [OF drop_users_keys] emits_case_prod emits_if emits_return emits_mono [OF wf.unmount_states] emits_err)
      simp_all
  have "runs (rebind_targets E (StagingPath st) (entries (Targets st))) h (\<lambda>_ h'. alive k (served st) (served st) h')"
    using rebind_works [OF E h] by (auto simp: served_def)
  then show ?thesis
    unfolding reconcile_users_def
    by (intro runs_bind, elim runs_mono) (intro runs_case_prod runs_emits [OF rest] alive_all)
qed

lemma reconcile_known_works:
  assumes E: "recovered E" and h: "k \<le> length h" "since k h = ({}, {})"
  shows "runs (reconcile_known C E i st) h (\<lambda>_ h'. alive k (served st) {} h')"
proof -
  let ?p = "StagingPath st" and ?Q = "\<lambda>_ h'. alive k (served st) {} h'"
  have users: "runs (reconcile_users C E i st) h' ?Q" if "k \<le> length h'" "since k h' = ({?p}, {})" for h'
    using reconcile_users_works [OF E, of k st h' C i] that by (simp add: alive_def)
  have stop: "runs (do { stopScope E i; _ \<leftarrow> remove_all_op E (volumeDir C i); ret () }) h' ?Q"
    if "k \<le> length h'" "since k h' = ({?p}, {})" for h'
    unfolding stopScope_def by (intro runs_bind runs_err runs_remove_all runs_return) (use that in \<open>simp add: alive_def since_append\<close>)
  have ok: "alive k (served st) {} h'" if "k \<le> length h'" "since k h' = ({?p}, {})" for h'
    using that by (simp add: alive_def)
  have again: "runs (check_err (remount C E st) (\<lambda>_. ()) (reconcile_users C E i st)) h' ?Q"
    if "k \<le> length h'" "since k h' = ({?p}, dead)" "dead \<subseteq> {?p}" for h' dead
    by (intro runs_check_err runs_mono [OF remount_works [OF E that(1,2)]] conjI allI impI users) (use that(3) in auto)
  show ?thesis
    unfolding reconcile_known_def
  proof (rule runs_bind, rule runs_mono [OF check_works [OF E h]], elim conjE disjE, goal_cases)
    case (1 r h')
    then show ?case using again [of h' "{?p}"] by simp
  next
    case (2 r h')
    then show ?case
      by (intro runs_case_sum runs_if runs_return ok [OF 2(1,3)] users [OF 2(1,3)] stop [OF 2(1,3)] again [OF 2(1,3) empty_subsetI])
  qed
qed

lemma reconcile_works:
  assumes E: "recovered E" and load: "ans_load E h (stateStore C) i = Inr st"
  shows "runs (reconcile C E i) h (\<lambda>_ h'. alive (length h) (served st) {} h')"
proof -
  have "served (addLegacyUser C st) = served st" by (simp add: addLegacyUser_def served_def)
  moreover have "since (length h) (h @ [LoadEv ss i r]) = ({}, {})" for ss r by (simp add: since_def)
  ultimately have "runs (reconcile_known C E i (addLegacyUser C st)) (h @ [LoadEv ss i r]) (\<lambda>_ h'. alive (length h) (served st) {} h')" for ss r
    using reconcile_known_works [OF E, of "length h" "h @ [LoadEv ss i r]" C i "addLegacyUser C st"] by simp
  then show ?thesis
    unfolding reconcile_def loadState_def
    by (intro runs_bind, intro runs_load runs_return, unfold load sum.case)
qed

text \<open>
  Claim C17. On a node that works again, one pass of reconcile leaves nothing dead that it finds dead:
  the mount point of the mount gets an rclone, and each target a new bind.
\<close>

theorem reconcile_revives:
  assumes "recovered E" "ans_load E (history w) (stateStore C) i = Inr st"
  shows "left_dead (trace (reconcile C E i) w) \<inter> served st = {}"
proof -
  have "alive (length (history w)) (served st) {} (history (snd (run_state (reconcile C E i) w)))"
    by (rule runsD [OF reconcile_works [OF assms]])
  then show ?thesis by (simp add: alive_def since_def left_dead_def trace_def)
qed

section \<open>A mount that is not marked as mounted\<close>

text \<open>A state with one more user.\<close>

definition joined :: "config \<Rightarrow> volumeState \<Rightarrow> string \<Rightarrow> volumeState" where
  "joined C st user = (addLegacyUser C st)\<lparr>Users := store_in (Users (addLegacyUser C st)) user ()\<rparr>"

lemma joined_simps [simp]:
  "VolumeID (joined C st user) = VolumeID st" "StagingPath (joined C st user) = StagingPath st"
  "Mounted (joined C st user) = Mounted st" "addLegacyUser C (joined C st user) = joined C st user"
  by (simp_all add: joined_def addLegacyUser_def)

text \<open>
  Claim C40. A state whose mount came up, but that is not marked as mounted because the plugin ended
  between the start of rclone and the save, is not marked by a volume that takes the live mount
  either. When this rclone later exits cleanly, reconcile takes the mount for one that never came up
  and leaves it down, with its users.
\<close>

theorem unmarked_mount_left_down:
  assumes "ans_load E (history w) (stateStore C) i = Inr st" "\<not> Mounted st" "\<And>h. ans_probe E h (StagingPath st) = (Live, None)"
    "\<And>h s. ans_err E h (Save (stateStore C) (VolumeID st) s) = None"
    and "ans_load E' (history w') (stateStore C) i = Inr (joined C st user)" "\<And>h. ans_probe E' h (StagingPath st) = (Other, None)"
  shows "result (acquire C E i a user) w = Inr (joined C st user) \<and> uses (joined C st user) user
    \<and> last (trace (acquire C E i a user) w) = ErrEv (Save (stateStore C) (VolumeID st) (joined C st user)) None
    \<and> trace (reconcile C E' i) w' = [LoadEv (stateStore C) i (Inr (joined C st user)), ProbeEv (StagingPath st) Other None]"
proof -
  have st: "VolumeID (addLegacyUser C st) = VolumeID st" "StagingPath (addLegacyUser C st) = StagingPath st"
      "Mounted (addLegacyUser C st) = Mounted st"
    by (simp_all add: addLegacyUser_def)
  have "uses (joined C st user) user" by (simp add: joined_def uses_maps maps_of_updates)
  moreover have "result (acquire C E i a user) w = Inr (joined C st user)
      \<and> last (trace (acquire C E i a user) w) = ErrEv (Save (stateStore C) (VolumeID st) (joined C st user)) None"
    by (simp add: joined_def result_def trace_def acquire_def acquire_known_def loadState_def check_def add_user_def saveState_def check_err_def
        load_op_def probe_op_def err_op_def emit_def run_simps Let_def assms(1-4) st)
  moreover have "trace (reconcile C E' i) w' = [LoadEv (stateStore C) i (Inr (joined C st user)), ProbeEv (StagingPath st) Other None]"
    by (simp add: trace_def reconcile_def reconcile_known_def loadState_def check_def load_op_def probe_op_def emit_def run_simps Let_def
        assms(2,5,6))
  ultimately show ?thesis by blast
qed

section \<open>An example\<close>

text \<open>A node on which an rclone has died, with a mount point and a bound target.\<close>

definition dead_state :: volumeState where
  "dead_state = \<lparr>VolumeID = ''pv'', StagingPath = ''/mnt'', Args = [''mount''], Env = [],
     Users = Some [(''/staging'', ())], Targets = Some [(''/target'', True)], Mounted = True\<rparr>"

definition dead_env :: environment where
  "dead_env = (sim_env plain_config)\<lparr>ans_load := (\<lambda>h s i. Inr dead_state),
     ans_probe := (\<lambda>h p. (if mounted_at (rev h) p then Live else if p \<in> {''/mnt'', ''/target''} then Dead else Other, None))\<rparr>"

theorem reconcile_revives_witness:
  "left_dead (trace (reconcile plain_config dead_env ''pv'') \<lparr>history = [], clock = 0\<rparr>) \<inter> served dead_state = {}"
proof (rule reconcile_revives)
  show "recovered dead_env" by (auto simp: recovered_def dead_env_def sim_env_def)
  show "ans_load dead_env (history \<lparr>history = [], clock = 0\<rparr>) (stateStore plain_config) ''pv'' = Inr dead_state"
    by (simp add: dead_env_def)
qed

definition unmarked_state :: volumeState where
  "unmarked_state = \<lparr>VolumeID = ''pv'', StagingPath = ''/mnt'', Args = [''mount''], Env = [],
     Users = Some [(''/staging'', ())], Targets = None, Mounted = False\<rparr>"

definition fixed_env :: "volumeState \<Rightarrow> mount_state \<Rightarrow> environment" where
  "fixed_env st s = (sim_env plain_config)\<lparr>ans_load := (\<lambda>_ _ _. Inr st), ans_probe := (\<lambda>_ _. (s, None))\<rparr>"

definition any_args :: rcloneArgs where
  "any_args = \<lparr>arg_remote = ''s3'', arg_remotePath = ''bucket'', arg_configData = [], arg_flags = [], arg_readOnly = False\<rparr>"

theorem unmarked_mount_left_down_witness:
  "result (acquire plain_config (fixed_env unmarked_state Live) ''pv'' any_args ''/other'') \<lparr>history = [], clock = 0\<rparr>
      = Inr (joined plain_config unmarked_state ''/other'')
   \<and> trace (reconcile plain_config (fixed_env (joined plain_config unmarked_state ''/other'') Other) ''pv'') \<lparr>history = [], clock = 0\<rparr>
      = [LoadEv (stateStore plain_config) ''pv'' (Inr (joined plain_config unmarked_state ''/other'')), ProbeEv ''/mnt'' Other None]"
  using unmarked_mount_left_down [of "fixed_env unmarked_state Live" "\<lparr>history = [], clock = 0\<rparr>" plain_config "''pv''" unmarked_state
      "fixed_env (joined plain_config unmarked_state ''/other'') Other" "\<lparr>history = [], clock = 0\<rparr>" "''/other''" any_args]
  by (simp add: fixed_env_def sim_env_def unmarked_state_def)

end
