(* ===== verification/Allow_List.thy ===== *)
theory Allow_List
  imports Gen_Options Mounts
begin

text \<open>
  What the allow-list of options keeps from rclone: the entries of the environment that accepted
  flags give, and the options that the generator denies.
\<close>

section \<open>Environment variables of accepted flags\<close>

text \<open>The variable of a flag written as in the allow-list, and of an option of a backend.\<close>

definition dash_to_underscore :: "char \<Rightarrow> char" where
  "dash_to_underscore c = (if c = CHR ''-'' then CHR ''_'' else c)"

definition underscore_to_dash :: "char \<Rightarrow> char" where
  "underscore_to_dash c = (if c = CHR ''_'' then CHR ''-'' else c)"

definition env_word :: "string \<Rightarrow> string" where
  "env_word name = map (\<lambda>c. upper_byte (dash_to_underscore c)) name"

definition env_of_name :: "string \<Rightarrow> string" where
  "env_of_name name = ''RCLONE_'' @ env_word name"

definition env_of_option :: "backendSchema \<Rightarrow> string \<Rightarrow> string" where
  "env_of_option s opt = ''RCLONE_'' @ map upper_byte (bs_prefix s @ CHR ''_'' # opt)"

text \<open>
  What is relied on of Go's tables of upper and lower case: they map a string rune by rune, the
  runes beyond ASCII that have an ASCII lower case (U+0130 and U+212A) are their own upper case, and
  neither table gives or takes an equals sign. So a string beyond ASCII whose lower case is ASCII has
  no ASCII upper case, dashes and underscores aside.
\<close>

definition case_law :: "unicode \<Rightarrow> bool" where
  "case_law U \<longleftrightarrow> (\<forall>s t. map dash_to_underscore s = map dash_to_underscore t \<longrightarrow> \<not> is_ascii s \<longrightarrow> is_ascii (uni_lower U s) \<longrightarrow>
     \<not> is_ascii (uni_upper U t) \<and> (CHR ''='' \<in> set (uni_upper U t) \<longrightarrow> CHR ''='' \<in> set (uni_lower U s)))"

text \<open>
  The entries of an environment that the allow-list permits beside a configuration with the given
  sections: the variable of a mount flag of the list, or that of an option in the table of an
  allowed backend with a value that the policy permits. A name beyond ASCII is that of no option of
  rclone.
\<close>

definition allowed_entry :: "config \<Rightarrow> sections \<Rightarrow> string \<Rightarrow> bool" where
  "allowed_entry C sections e \<longleftrightarrow>
     (\<exists>name val. e = name @ CHR ''='' # val \<and> CHR ''='' \<notin> set name
        \<and> (name \<in> set (map env_of_name mountFlags)
           \<or> (\<exists>n s opt. (n, s) \<in> set backendSchemas \<and> backend_allowed C (n, s) \<and> name = env_of_option s opt
                \<and> option_ok C sections s opt val)
           \<or> \<not> is_ascii name))"

lemma split_unique: "a @ c # x = b @ c # y \<Longrightarrow> c \<notin> set a \<Longrightarrow> c \<notin> set b \<Longrightarrow> a = b"
proof (induction a arbitrary: b)
  case (Cons d a)
  then show ?case by (cases b) auto
next
  case Nil
  then show ?case by (cases b) auto
qed

lemma upper_lower_byte: "upper_byte (lower_byte c) = upper_byte c"
  by (simp add: upper_byte_def lower_byte_def code_of_char_of char_of_code_of)

lemma lower_byte_other: "code_of d < 65 \<or> 122 < code_of d \<or> 90 < code_of d \<and> code_of d < 97 \<Longrightarrow> lower_byte c = d \<Longrightarrow> c = d"
  by (auto simp: lower_byte_def code_of_char_of split: if_splits)

lemma canonical_byte:
  "upper_byte (dash_to_underscore c) = upper_byte (dash_to_underscore (lower_byte (underscore_to_dash c)))"
proof -
  have codes: "code_of (CHR ''-'') = 45" "code_of (CHR ''_'') = 95" by code_simp+
  have dash: "lower_byte (CHR ''-'') = CHR ''-''" by (simp add: lower_byte_def codes)
  have "lower_byte c = CHR ''-'' \<Longrightarrow> c = CHR ''-''" by (rule lower_byte_other) (simp add: codes)
  then show ?thesis
    by (simp add: dash_to_underscore_def underscore_to_dash_def dash upper_lower_byte)
qed

lemma env_of_flag_name:
  assumes "is_ascii key"
  shows "flagToEnvName C key = env_of_name (flag_name C key)"
proof -
  let ?k = "TrimPrefix key ''--''"
  have k: "\<And>c. c \<in> set ?k \<Longrightarrow> code_of c < 128"
    using assms by (simp add: TrimPrefix_def is_ascii_def list_all_iff split: if_splits) (meson in_set_dropD)
  have "code_of (CHR ''-'') < 128" "code_of (CHR ''_'') < 128" by code_simp+
  then have ascii: "is_ascii (map dash_to_underscore ?k)" "is_ascii (map underscore_to_dash ?k)"
    using k by (auto simp: is_ascii_def list_all_iff dash_to_underscore_def underscore_to_dash_def)
  have "map (upper_byte \<circ> dash_to_underscore) ?k = map (upper_byte \<circ> dash_to_underscore \<circ> lower_byte \<circ> underscore_to_dash) ?k"
    using canonical_byte by simp
  then show ?thesis
    using ascii
    by (simp add: flagToEnvName_def flag_name_def env_of_name_def env_word_def ToUpper_def ToLower_def ReplaceAll_char
        dash_to_underscore_def [abs_def, symmetric] underscore_to_dash_def [abs_def, symmetric] comp_def)
qed

definition apart :: "string \<Rightarrow> string \<Rightarrow> bool" where
  "apart x y \<longleftrightarrow> \<not> prefix x y \<and> \<not> prefix y x"

lemma apart_extends: "apart x y \<Longrightarrow> \<not> prefix x (y @ z)"
  by (auto simp: apart_def prefix_append)

lemma table_undenied: "(n, s) \<in> set backendSchemas \<Longrightarrow> opt \<in> set (bs_options s) \<Longrightarrow> \<not> denied opt"
  using table_allowed unfolding list_all_iff by blast

lemma env_of_option_name:
  assumes "(n, s) \<in> set backendSchemas" "HasPrefix name (bs_prefix s @ ''-'')"
  shows "env_of_name name = env_of_option s (flag_option s name)"
proof -
  obtain z where z: "name = bs_prefix s @ CHR ''-'' # z" using assms(2) by (auto simp: HasPrefix_iff)
  have "CHR ''-'' \<notin> set (bs_prefix s)"
    using table_ok_backendSchemas assms(1) unfolding table_ok_def list_all_iff by fastforce
  then have "map dash_to_underscore (bs_prefix s) = bs_prefix s"
    by (intro map_idI) (auto simp: dash_to_underscore_def)
  moreover have "env_word (bs_prefix s) = map upper_byte (map dash_to_underscore (bs_prefix s))" by (simp add: env_word_def)
  ultimately have "env_word (bs_prefix s) = map upper_byte (bs_prefix s)" by simp
  moreover have "upper_byte (CHR ''_'') = CHR ''_''" by code_simp
  moreover have "TrimPrefix name (bs_prefix s @ ''-'') = z" by (simp add: z TrimPrefix_def)
  then have "flag_option s name = map dash_to_underscore z"
    by (simp add: flag_option_def ReplaceAll_char dash_to_underscore_def [abs_def])
  ultimately show ?thesis
    by (simp add: z env_of_name_def env_of_option_def env_word_def dash_to_underscore_def)
qed

text \<open>No byte of a name in the tables, nor its upper case, is an equals sign or beyond ASCII.\<close>

definition plain_name :: "string \<Rightarrow> bool" where
  "plain_name v \<longleftrightarrow> CHR ''='' \<notin> set v \<and> is_ascii v"

lemma mount_flag_bytes: "list_all (\<lambda>f. list_all (\<lambda>c. c \<in> set option_bytes) f) mountFlags"
  by code_simp

lemma option_bytes_plain:
  "list_all (\<lambda>c. code_of c < 128 \<and> c \<noteq> CHR ''='' \<and> lower_byte (upper_byte c) = c
     \<and> code_of (upper_byte (dash_to_underscore c)) < 128 \<and> upper_byte (dash_to_underscore c) \<noteq> CHR ''='') option_bytes"
  by code_simp

lemma bytes_plain:
  assumes "set name \<subseteq> set option_bytes"
  shows "plain_name name" "plain_name (env_of_name name)" "map lower_byte (map upper_byte name) = name"
proof -
  note facts = option_bytes_plain [unfolded list_all_iff, rule_format, OF subsetD [OF assms]]
  show "plain_name name" using facts by (auto simp: plain_name_def is_ascii_def list_all_iff)
  have "plain_name ''RCLONE_''" by code_simp
  then show "plain_name (env_of_name name)"
    by (auto simp: plain_name_def env_of_name_def env_word_def is_ascii_def list_all_iff dest: facts)
  show "map lower_byte (map upper_byte name) = name" using facts by (simp add: map_idI)
qed

lemma option_bytes_table:
  assumes "(n, s) \<in> set backendSchemas"
  shows "set (bs_prefix s) \<subseteq> set option_bytes" "opt \<in> set (bs_options s) \<Longrightarrow> set opt \<subseteq> set option_bytes"
  using bspec [OF table_bytes(1) [unfolded list_all_iff] assms] bspec [OF table_bytes(2) [unfolded list_all_iff] assms] by auto

lemma flag_name_bytes:
  assumes "flag_ok C sections k v"
  shows "set (flag_name C k) \<subseteq> set option_bytes"
proof (cases "flag_name C k \<in> set mountFlags")
  case True
  then show ?thesis using mount_flag_bytes unfolding list_all_iff by blast
next
  case False
  let ?name = "flag_name C k"
  obtain n s where s: "(n, s) \<in> set backendSchemas" "HasPrefix ?name (bs_prefix s @ ''-'')"
    and opt: "flag_option s ?name \<in> set (bs_options s)"
    using False assms by (auto simp: flag_ok_def option_ok_def)
  obtain z where z: "?name = bs_prefix s @ CHR ''-'' # z" using s(2) by (auto simp: HasPrefix_iff)
  have "flag_option s ?name = map dash_to_underscore z"
    by (simp add: z flag_option_def TrimPrefix_def ReplaceAll_char dash_to_underscore_def [abs_def])
  then have "set (map dash_to_underscore z) \<subseteq> set option_bytes" using option_bytes_table(2) [OF s(1) opt] by (simp only:)
  moreover have dash: "CHR ''-'' \<in> set option_bytes" by code_simp
  ultimately have "set z \<subseteq> set option_bytes" by (auto simp: dash_to_underscore_def split: if_splits)
  then show ?thesis using option_bytes_table(1) [OF s(1)] dash z by simp
qed

lemmas flag_name_plain = flag_name_bytes [THEN bytes_plain(1)] flag_name_bytes [THEN bytes_plain(2)]

text \<open>A key beyond ASCII that the checks accept sets a variable beyond ASCII.\<close>

lemma foreign_flag_name:
  assumes "case_law (go_unicode C)" "flag_ok C sections k v" "\<not> is_ascii k"
  shows "\<not> is_ascii (flagToEnvName C k)" "CHR ''='' \<notin> set (flagToEnvName C k)"
proof -
  let ?k = "TrimPrefix k ''--''" and ?U = "go_unicode C"
  have codes: "code_of (CHR ''-'') < 128" "code_of (CHR ''_'') < 128" by code_simp+
  have kept: "is_ascii (map underscore_to_dash ?k) \<longleftrightarrow> is_ascii ?k" "is_ascii (map dash_to_underscore ?k) \<longleftrightarrow> is_ascii ?k"
    using codes by (auto simp: is_ascii_def list_all_iff dash_to_underscore_def underscore_to_dash_def)
  have "\<not> is_ascii ?k"
    using assms(3) codes(1) by (auto simp: TrimPrefix_def is_ascii_def prefix_def split: if_splits)
  then have lower: "flag_name C k = uni_lower ?U (map underscore_to_dash ?k)"
    and upper: "flagToEnvName C k = ''RCLONE_'' @ uni_upper ?U (map dash_to_underscore ?k)"
    using kept by (simp_all add: flag_name_def flagToEnvName_def ToLower_def ToUpper_def ReplaceAll_char
        dash_to_underscore_def [abs_def, symmetric] underscore_to_dash_def [abs_def, symmetric])
  have "map dash_to_underscore (map underscore_to_dash ?k) = map dash_to_underscore (map dash_to_underscore ?k)"
    by (simp add: dash_to_underscore_def underscore_to_dash_def)
  moreover have "\<not> is_ascii (map underscore_to_dash ?k)" using \<open>\<not> is_ascii ?k\<close> kept(1) by simp
  moreover have "is_ascii (uni_lower ?U (map underscore_to_dash ?k))" "CHR ''='' \<notin> set (uni_lower ?U (map underscore_to_dash ?k))"
    using flag_name_plain(1) [OF assms(2)] lower by (simp_all add: plain_name_def)
  ultimately have "\<not> is_ascii (uni_upper ?U (map dash_to_underscore ?k))" "CHR ''='' \<notin> set (uni_upper ?U (map dash_to_underscore ?k))"
    using assms(1) unfolding case_law_def by blast+
  then show "\<not> is_ascii (flagToEnvName C k)" "CHR ''='' \<notin> set (flagToEnvName C k)"
    by (simp_all add: upper is_ascii_def)
qed

lemma flag_entry_allowed:
  assumes "case_law (go_unicode C)" "flag_ok C sections k v"
  shows "allowed_entry C sections (env_entry C (k, v))"
proof (cases "is_ascii k")
  case False
  then show ?thesis
    using foreign_flag_name [OF assms] by (auto simp: allowed_entry_def env_entry_def)
next
  case True
  let ?name = "flag_name C k"
  have entry: "env_entry C (k, v) = env_of_name ?name @ CHR ''='' # v" by (simp add: env_entry_def env_of_flag_name [OF True])
  have "CHR ''='' \<notin> set (env_of_name ?name)" using flag_name_plain(2) [OF assms(2)] by (simp add: plain_name_def)
  moreover have "env_of_name ?name \<in> set (map env_of_name mountFlags)
      \<or> (\<exists>n s opt. (n, s) \<in> set backendSchemas \<and> backend_allowed C (n, s) \<and> env_of_name ?name = env_of_option s opt
          \<and> option_ok C sections s opt v)"
    using assms(2) env_of_option_name unfolding flag_ok_def by fastforce
  ultimately show ?thesis unfolding allowed_entry_def entry by blast
qed

text \<open>
  Variables that give rclone access to the node: those that name its configuration and remotes, its
  remote control, caches, logs, commands, and files of lists, certificates and keys, each standing
  for every variable that it starts, and the options of backends that the generator denies.
\<close>

definition sensitive_words :: "string list" where
  "sensitive_words = [''CONFIG'', ''RC'', ''PASSWORD_COMMAND'', ''CACHE_DIR'', ''TEMP_DIR'', ''LOG_FILE'', ''CA_CERT'',
     ''CLIENT_CERT'', ''CLIENT_KEY'', ''EXCLUDE_FROM'', ''EXCLUDE_IF'', ''INCLUDE_FROM'', ''FILTER_FROM'', ''FILES_FROM'',
     ''METADATA_MAPPER'', ''LOCAL'', ''BACKUP_DIR'']"

definition sensitive_env :: "string \<Rightarrow> bool" where
  "sensitive_env v \<longleftrightarrow> list_ex (\<lambda>x. HasPrefix v (''RCLONE_'' @ x)) sensitive_words
     \<or> list_ex (\<lambda>e. HasPrefix v (env_of_option (snd e) []) \<and> denied (map lower_byte (TrimPrefix v (env_of_option (snd e) []))))
         backendSchemas"

lemma sensitive_examples:
  "list_all sensitive_env [''RCLONE_SFTP_SSH'', ''RCLONE_SFTP_SERVER_COMMAND'', ''RCLONE_SFTP_KEY_FILE'', ''RCLONE_S3_ENV_AUTH'',
     ''RCLONE_CONFIG'', ''RCLONE_RC_ADDR'', ''RCLONE_PASSWORD_COMMAND'']"
  by code_simp

lemma mount_flags_apart:
  "list_all (\<lambda>v. list_all (\<lambda>x. \<not> prefix x v) (sensitive_words @ map (\<lambda>e. env_word (bs_prefix (snd e) @ ''-'')) backendSchemas))
     (map env_word mountFlags)"
  by code_simp

lemma prefixes_apart:
  "list_all (\<lambda>v. list_all (\<lambda>x. apart x v) sensitive_words) (map (\<lambda>e. env_word (bs_prefix (snd e) @ ''-'')) backendSchemas)"
  by code_simp

lemma prefixes_one_word: "list_all (\<lambda>e. CHR ''_'' \<notin> set (map upper_byte (bs_prefix (snd e)))) backendSchemas"
  by code_simp

lemma env_of_prefix:
  assumes "(n, s) \<in> set backendSchemas"
  shows "env_of_option s [] = ''RCLONE_'' @ env_word (bs_prefix s @ ''-'')"
proof -
  have "env_of_name (bs_prefix s @ ''-'') = env_of_option s (flag_option s (bs_prefix s @ ''-''))"
    by (rule env_of_option_name [OF assms]) (simp add: HasPrefix_def)
  then show ?thesis by (simp add: env_of_name_def flag_option_def TrimPrefix_def)
qed

lemma mount_flag_not_sensitive:
  assumes "f \<in> set mountFlags"
  shows "\<not> sensitive_env (env_of_name f)"
proof -
  have apart: "\<not> prefix x (env_word f)" if "x \<in> set sensitive_words \<or> (\<exists>e\<in>set backendSchemas. x = env_word (bs_prefix (snd e) @ ''-''))" for x
    using mount_flags_apart assms that by (auto simp: list_all_iff)
  then have "\<not> HasPrefix (env_of_name f) (env_of_option s [])" if "(n, s) \<in> set backendSchemas" for n s
    using that by (fastforce simp: env_of_name_def env_of_prefix [OF that] HasPrefix_def)
  with apart show ?thesis
    by (auto simp: sensitive_env_def list_ex_iff env_of_name_def HasPrefix_def)
qed

lemma option_not_sensitive:
  assumes s: "(n, s) \<in> set backendSchemas" and opt: "opt \<in> set (bs_options s)"
  shows "\<not> sensitive_env (env_of_option s opt)"
proof -
  have v: "env_of_option s opt = env_of_option s [] @ map upper_byte opt" by (simp add: env_of_option_def)
  have "apart (''RCLONE_'' @ x) (env_of_option s [])" if "x \<in> set sensitive_words" for x
    using prefixes_apart s that by (fastforce simp: list_all_iff env_of_prefix [OF s] apart_def)
  then have words: "\<not> HasPrefix (env_of_option s opt) (''RCLONE_'' @ x)" if "x \<in> set sensitive_words" for x
    unfolding v HasPrefix_def using that by (blast intro: apart_extends [THEN notE])
  have "\<not> denied (map lower_byte (TrimPrefix (env_of_option s opt) (env_of_option t [])))"
    if t: "(m, t) \<in> set backendSchemas" and pre: "HasPrefix (env_of_option s opt) (env_of_option t [])" for m t
  proof -
    have low: "upper_byte (CHR ''_'') = CHR ''_''" by code_simp
    obtain z where z: "map upper_byte (bs_prefix s) @ CHR ''_'' # map upper_byte opt = map upper_byte (bs_prefix t) @ CHR ''_'' # z"
      using pre by (auto simp: HasPrefix_iff env_of_option_def low)
    moreover have "CHR ''_'' \<notin> set (map upper_byte (bs_prefix s))" "CHR ''_'' \<notin> set (map upper_byte (bs_prefix t))"
      using bspec [OF prefixes_one_word [unfolded list_all_iff] s] bspec [OF prefixes_one_word [unfolded list_all_iff] t] by simp_all
    ultimately have "map upper_byte (bs_prefix s) = map upper_byte (bs_prefix t)" by (rule split_unique)
    then have "TrimPrefix (env_of_option s opt) (env_of_option t []) = map upper_byte opt"
      by (simp add: env_of_option_def TrimPrefix_def)
    moreover have "map lower_byte (map upper_byte opt) = opt"
      by (rule bytes_plain(3) [OF option_bytes_table(2) [OF s opt]])
    ultimately show ?thesis using table_undenied [OF s opt] by (simp only: not_False_eq_True)
  qed
  then show ?thesis using words unfolding sensitive_env_def list_ex_iff by fastforce
qed

text \<open>No entry that the allow-list permits has such a variable.\<close>

theorem allowed_entry_harmless:
  assumes "allowed_entry C sections (name @ CHR ''='' # val)" "CHR ''='' \<notin> set name" "is_ascii name"
  shows "\<not> sensitive_env name"
proof -
  obtain name' val' where e: "name @ CHR ''='' # val = name' @ CHR ''='' # val'" "CHR ''='' \<notin> set name'"
    and ok: "name' \<in> set (map env_of_name mountFlags)
      \<or> (\<exists>n s opt. (n, s) \<in> set backendSchemas \<and> backend_allowed C (n, s) \<and> name' = env_of_option s opt
          \<and> option_ok C sections s opt val')
      \<or> \<not> is_ascii name'"
    using assms(1) unfolding allowed_entry_def by blast
  have "name = name'" by (rule split_unique [OF e(1) assms(2) e(2)])
  with ok assms(3) consider f where "f \<in> set mountFlags" "name = env_of_name f"
    | n s opt where "(n, s) \<in> set backendSchemas" "opt \<in> set (bs_options s)" "name = env_of_option s opt"
    by (auto simp: option_ok_def)
  then show ?thesis
  proof cases
    case 1
    then show ?thesis using mount_flag_not_sensitive by simp
  next
    case 2
    then show ?thesis using option_not_sensitive by simp
  qed
qed

text \<open>
  Unless the administrator lifts the allow-list, every flag of a volume gives an entry that the list
  permits, however the flag is spelled.
\<close>

theorem accepted_flags_allowed:
  assumes "\<not> UnrestrictedOptions C" "case_law (go_unicode C)"
    and "volume_args C capability volumeContext sec = Inr a"
  shows "\<exists>sections. parseConfig C (arg_configData a) = Inr sections \<and> options_ok C (arg_remote a) sections []
    \<and> (\<forall>kv\<in>set (arg_flags a). allowed_entry C sections (env_entry C kv))"
proof -
  have "validateOptions C (arg_remote a) (arg_configData a) (arg_flags a) = None"
    using assms(3) by (auto simp: volume_args_def extractFlags_def Let_def split: sum.splits option.splits)
  with assms(1) obtain sections where s: "parseConfig C (arg_configData a) = Inr sections"
      "options_ok C (arg_remote a) sections (arg_flags a)"
    by (auto simp: validateOptions_ok)
  then have "allowed_entry C sections (env_entry C kv)" if "kv \<in> set (arg_flags a)" for kv
    using that by (cases kv) (auto simp: options_ok_def intro: flag_entry_allowed [OF assms(2)])
  moreover have "options_ok C (arg_remote a) sections []" using s(2) by (simp add: options_ok_def)
  ultimately show ?thesis using s(1) by blast
qed

definition flagged_args :: rcloneArgs where
  "flagged_args = \<lparr>arg_remote = ''s3'', arg_remotePath = ''bucket'', arg_configData = [],
     arg_flags = [(''--S3_region'', ''eu'')], arg_readOnly = False\<rparr>"

lemma flags_example:
  "volume_args plain_config \<lparr>cap_mode = SINGLE_NODE_WRITER, cap_type = MountVolume []\<rparr>
     [(''remote'', ''s3''), (''remotePath'', ''bucket''), (''--S3_region'', ''eu'')] None = Inr flagged_args"
  by code_simp

lemma plain_settings: "\<not> UnrestrictedOptions plain_config" "case_law (go_unicode plain_config)"
  by (simp_all add: plain_config_def default_config_def case_law_def plain_unicode_def)

theorem accepted_flags_allowed_witness:
  "\<exists>sections. parseConfig plain_config [] = Inr sections
     \<and> allowed_entry plain_config sections (env_entry plain_config (''--S3_region'', ''eu''))"
  using accepted_flags_allowed [OF plain_settings flags_example] by (auto simp: flagged_args_def)

text \<open>The keys of sections and the flags for backends, as options of the table, without a denied one.\<close>

definition sections_undenied :: "sections \<Rightarrow> bool" where
  "sections_undenied sections \<longleftrightarrow>
     (\<forall>(name, sec)\<in>set sections. \<forall>(key, val)\<in>set sec. \<not> denied (ReplaceAll key ''-'' ''_''))"

definition flags_undenied :: "config \<Rightarrow> string gomap \<Rightarrow> bool" where
  "flags_undenied C flags \<longleftrightarrow>
     (\<forall>(key, val)\<in>set flags. flag_name C key \<in> set mountFlags
        \<or> (\<exists>(n, s)\<in>set backendSchemas. HasPrefix (flag_name C key) (bs_prefix s @ ''-'')
             \<and> \<not> denied (flag_option s (flag_name C key))))"

lemma section_undenied:
  assumes "section_ok C sections sec" "(key, val) \<in> set sec"
  shows "\<not> denied (ReplaceAll key ''-'' ''_'')"
proof -
  have plain: "\<not> denied (ReplaceAll ''type'' ''-'' ''_'')" "\<not> denied (ReplaceAll ''description'' ''-'' ''_'')" by code_simp+
  obtain s where s: "backend_ok C (gget sec ''type'') s" and keys: "\<forall>(key, val)\<in>set sec. key = ''type'' \<or> key = ''description''
      \<or> option_ok C sections s (ReplaceAll key ''-'' ''_'') val"
    using assms(1) unfolding section_ok_def by (elim exE conjE)
  obtain n where n: "(n, s) \<in> set backendSchemas" using s unfolding backend_ok_def by (elim exE conjE)
  have "key = ''type'' \<or> key = ''description'' \<or> option_ok C sections s (ReplaceAll key ''-'' ''_'') val"
    using bspec [OF keys assms(2)] by (simp only: prod.case)
  then show ?thesis
  proof (elim disjE)
    assume "option_ok C sections s (ReplaceAll key ''-'' ''_'') val"
    then show ?thesis by (intro table_undenied [OF n]) (simp only: option_ok_def)
  qed (simp_all only: plain not_False_eq_True)
qed

lemma flag_undenied:
  assumes "flag_ok C sections key val"
  shows "flag_name C key \<in> set mountFlags
    \<or> (\<exists>(n, s)\<in>set backendSchemas. HasPrefix (flag_name C key) (bs_prefix s @ ''-'') \<and> \<not> denied (flag_option s (flag_name C key)))"
  using assms unfolding flag_ok_def
proof (elim disjE exE conjE)
  fix n s
  assume ns: "(n, s) \<in> set backendSchemas" and pre: "HasPrefix (flag_name C key) (bs_prefix s @ ''-'')"
    and opt: "option_ok C sections s (flag_option s (flag_name C key)) val"
  have "\<not> denied (flag_option s (flag_name C key))" by (intro table_undenied [OF ns]) (use opt in \<open>simp only: option_ok_def\<close>)
  with pre show ?thesis by (intro disjI2 bexI [OF _ ns]) (simp only: prod.case simp_thms)
qed (rule disjI1)

text \<open>
  Claim C16. Neither a section of the configuration nor a flag of an accepted volume sets an option
  that the generator of the table denies: options that name local files, commands, sockets,
  the node's cloud identity or where credentials are sent.
\<close>

theorem accepted_options_not_denied:
  assumes "\<not> UnrestrictedOptions C" "validateOptions C remote configData flags = None"
    "parseConfig C configData = Inr sections"
  shows "sections_undenied sections \<and> flags_undenied C flags"
proof -
  have "options_ok C remote sections flags" using assms by (simp add: validateOptions_ok)
  then have "\<forall>(name, sec)\<in>set sections. section_ok C sections sec" "\<forall>(key, val)\<in>set flags. flag_ok C sections key val"
    unfolding options_ok_def by blast+
  then show ?thesis
    unfolding sections_undenied_def flags_undenied_def using section_undenied flag_undenied by blast
qed

definition store_conf :: string where
  "store_conf = ''[store]'' @ [CHR 0x0A] @ ''type = s3'' @ [CHR 0x0A] @ ''Access-Key-ID = k''"

definition store_sections :: sections where
  "store_sections = [(''store'', [(''type'', ''s3''), (''access-key-id'', ''k'')])]"

definition store_flags :: "string gomap" where
  "store_flags = [(''s3-region'', ''eu''), (''umask'', ''077'')]"

theorem accepted_options_not_denied_witness:
  "sections_undenied store_sections \<and> flags_undenied plain_config store_flags"
proof (rule accepted_options_not_denied)
  show "\<not> UnrestrictedOptions plain_config" by code_simp
  show "validateOptions plain_config ''store'' store_conf store_flags = None" by code_simp
  show "parseConfig plain_config store_conf = Inr store_sections" by code_simp
qed

end
