(* ===== verification/Node_Env.thy ===== *)
theory Node_Env
  imports Node_Types Allow_List
begin

text \<open>
  What rclone is started with, by whatever call and after whatever happened to the mount, and what
  configuration is written for it: what the allow-list permits.
\<close>

section \<open>Mounts that keep to the allow-list\<close>








section \<open>What rclone is started with\<close>






section \<open>An example\<close>








text \<open>The variable that was not to be set is not on the list.\<close>

lemma no_ssh_on_list: "\<not> allowed_entry C sections ''RCLONE_SFTP_SSH=sh''"
proof
  assume "allowed_entry C sections ''RCLONE_SFTP_SSH=sh''"
  then have "\<not> sensitive_env ''RCLONE_SFTP_SSH''"
    using allowed_entry_harmless [of C sections "''RCLONE_SFTP_SSH''" "''sh''"] by (simp add: is_ascii_def code_of_def)
  moreover have "sensitive_env ''RCLONE_SFTP_SSH''" using sensitive_examples by simp
  ultimately show False by contradiction
qed

end
