(* ===== verification/Config_File.thy ===== *)
theory Config_File
  imports Options
begin

text \<open>
  The parser of \<^verbatim>\<open>configData\<close> against a printer of rclone's configuration format: what is printed
  is read back as it was.
\<close>

section \<open>Trimmed strings\<close>

text \<open>No word of the list starts the string.\<close>

definition edges :: "string list \<Rightarrow> string \<Rightarrow> bool" where
  "edges ws s \<longleftrightarrow> (\<forall>p\<in>set ws. \<not> prefix p s)"

lemma trim_left_edges: "edges ws s \<Longrightarrow> trim_left_fuel ws n s = s"
proof (cases n)
  case (Suc m)
  assume "edges ws s"
  then have "find (\<lambda>p. prefix p s) ws = None" by (auto simp: edges_def find_None_iff)
  then show ?thesis using Suc by simp
qed simp

lemma trim_left_drops: "\<exists>k. trim_left_fuel ws n s = drop k s"
proof (induction ws n s rule: trim_left_fuel.induct)
  case (1 ws s)
  show ?case by (rule exI [of _ 0]) simp
next
  case (2 ws n s)
  show ?case
  proof (cases "find (\<lambda>p. prefix p s) ws")
    case None
    then show ?thesis by (intro exI [of _ 0]) simp
  next
    case (Some p)
    then obtain k where "trim_left_fuel ws n (drop (length p) s) = drop k (drop (length p) s)" using 2 by blast
    with Some show ?thesis by auto
  qed
qed

lemma trim_left_fixed:
  assumes "trim_left_fuel ws (length s) s = s" "[] \<notin> set ws"
  shows "edges ws s"
proof (rule ccontr)
  assume "\<not> edges ws s"
  then have "find (\<lambda>p. prefix p s) ws \<noteq> None" by (auto simp: edges_def find_None_iff)
  then obtain p where p: "find (\<lambda>p. prefix p s) ws = Some p" by blast
  then have "prefix p s" "p \<in> set ws" by (auto simp: find_Some_iff)
  then have "p \<noteq> []" "s \<noteq> []" using assms(2) by auto
  then obtain m where m: "length s = Suc m" by (cases s) auto
  obtain k where "trim_left_fuel ws m (drop (length p) s) = drop k (drop (length p) s)" using trim_left_drops by blast
  then have "s = drop k (drop (length p) s)" using assms(1) m p by simp
  then have "length s = length (drop k (drop (length p) s))" by (rule arg_cong)
  then show False using \<open>p \<noteq> []\<close> \<open>s \<noteq> []\<close> by (cases p; cases s) simp_all
qed

abbreviation trimmed :: "string \<Rightarrow> bool" where
  "trimmed s \<equiv> edges space_runes s \<and> edges (map rev space_runes) (rev s)"

lemma space_runes_words: "list_all (\<lambda>p. p \<noteq> [] \<and> (CHR '' '' \<in> set p \<longrightarrow> length p = 1) \<and> set p \<inter> set ''=[]'' = {}) space_runes"
  by code_simp

lemma blank_space_rune: "'' '' \<in> set space_runes"
  by code_simp

lemma space_words:
  assumes "ws \<in> {space_runes, map rev space_runes}"
  shows "p \<in> set ws \<Longrightarrow> p \<noteq> []" "p \<in> set ws \<Longrightarrow> CHR '' '' \<in> set p \<Longrightarrow> length p = 1"
    "p \<in> set ws \<Longrightarrow> c \<in> set ''=[]'' \<Longrightarrow> c \<notin> set p" "'' '' \<in> set ws"
proof -
  have words: "p \<noteq> [] \<and> (CHR '' '' \<in> set p \<longrightarrow> length p = 1) \<and> set p \<inter> set ''=[]'' = {}" if "p \<in> set ws" for p
    using that assms space_runes_words unfolding list_all_iff by auto
  then show "p \<in> set ws \<Longrightarrow> p \<noteq> []" "p \<in> set ws \<Longrightarrow> CHR '' '' \<in> set p \<Longrightarrow> length p = 1" by simp_all
  show "p \<in> set ws \<Longrightarrow> c \<in> set ''=[]'' \<Longrightarrow> c \<notin> set p" using words by blast
  show "'' '' \<in> set ws" using assms blank_space_rune by (auto simp: image_iff intro!: bexI [of _ "'' ''"])
qed

lemma TrimSpace_fixed: "TrimSpace s = s \<longleftrightarrow> trimmed s"
proof
  assume fixed: "TrimSpace s = s"
  let ?l = "trim_left_fuel space_runes (length s) s"
  obtain k where k: "?l = drop k s" using trim_left_drops by blast
  obtain j where j: "trim_left_fuel (map rev space_runes) (length ?l) (rev ?l) = drop j (rev ?l)" using trim_left_drops by blast
  have s: "rev (drop j (rev ?l)) = s" using fixed j by (simp add: TrimSpace_def Let_def)
  have "length (rev (drop j (rev ?l))) \<le> length ?l" by simp
  then have "length s \<le> length ?l" by (simp only: s)
  then have "k = 0 \<or> s = []" unfolding k by (cases s; cases k) simp_all
  then have l: "?l = s" using k by auto
  then have "trim_left_fuel (map rev space_runes) (length (rev s)) (rev s) = rev s"
    using fixed by (simp add: TrimSpace_def Let_def rev_swap)
  then have "edges (map rev space_runes) (rev s)" by (rule trim_left_fixed) (use space_words(1) in blast)
  moreover have "edges space_runes s" using l by (rule trim_left_fixed) (use space_words(1) in blast)
  ultimately show "trimmed s" by blast
next
  assume "trimmed s"
  then show "TrimSpace s = s" by (simp add: TrimSpace_def Let_def trim_left_edges)
qed

text \<open>What spaces around text do, and what is not space.\<close>

lemma edges_append:
  assumes "edges ws k" "k \<noteq> []" "\<And>p. p \<in> set ws \<Longrightarrow> c \<in> set p \<Longrightarrow> length p = 1"
  shows "edges ws (k @ c # rest)"
  unfolding edges_def
proof (intro ballI notI)
  fix p
  assume p: "p \<in> set ws" "prefix p (k @ c # rest)"
  then obtain us where us: "p = k @ us" "prefix us (c # rest)" "us \<noteq> []"
    using assms(1) by (auto simp: edges_def prefix_append)
  then have "c \<in> set p" by (cases us) auto
  then have "length p = 1" using assms(3) p(1) by blast
  with us assms(2) show False by (cases k; cases us) auto
qed

lemma edges_Cons:
  assumes "ws \<in> {space_runes, map rev space_runes}" "c \<in> set ''=[]''"
  shows "edges ws (c # s)"
  unfolding edges_def
proof (intro ballI notI)
  fix p
  assume p: "p \<in> set ws" "prefix p (c # s)"
  then have "p \<noteq> []" "c \<notin> set p" using space_words [OF assms(1)] assms(2) by blast+
  with p(2) show False by (cases p) auto
qed

lemma trim_blank:
  assumes "ws \<in> {space_runes, map rev space_runes}" "edges ws s"
  shows "trim_left_fuel ws (length (CHR '' '' # s)) (CHR '' '' # s) = s"
proof -
  have only: "p = '' ''" if "p \<in> set ws" "prefix p (CHR '' '' # s)" for p
    using space_words(1,2) [OF assms(1) that(1)] that(2) by (cases p) auto
  have "find (\<lambda>p. prefix p (CHR '' '' # s)) ws \<noteq> None"
    using space_words(4) [OF assms(1)] by (auto simp: find_None_iff)
  then obtain p where "find (\<lambda>p. prefix p (CHR '' '' # s)) ws = Some p" by blast
  moreover from this have "p = '' ''" using only by (auto simp: find_Some_iff)
  ultimately show ?thesis using trim_left_edges [OF assms(2)] by simp
qed

lemma edges_blank: "edges ws k \<Longrightarrow> k \<noteq> [] \<Longrightarrow> ws \<in> {space_runes, map rev space_runes} \<Longrightarrow> edges ws (k @ CHR '' '' # rest)"
  by (rule edges_append) (use space_words(2) in blast)+

lemma TrimSpace_lead: "trimmed v \<Longrightarrow> TrimSpace (CHR '' '' # v) = v"
  using trim_blank [of space_runes v] by (simp only: TrimSpace_def Let_def) (simp add: trim_left_edges)

lemma TrimSpace_trail:
  assumes "edges space_runes k" "edges (map rev space_runes) (rev k)" "k \<noteq> []"
  shows "TrimSpace (k @ '' '') = k"
proof -
  have "edges space_runes (k @ '' '')" using edges_blank [OF assms(1,3)] by simp
  then have "trim_left_fuel space_runes (length (k @ '' '')) (k @ '' '') = k @ '' ''" by (rule trim_left_edges)
  moreover have "rev (k @ '' '') = CHR '' '' # rev k" "length (k @ '' '') = length (CHR '' '' # rev k)" by simp_all
  ultimately show ?thesis
    using trim_blank [of "map rev space_runes" "rev k"] assms(2) by (simp only: TrimSpace_def Let_def) simp
qed

text \<open>Blanks on both sides.\<close>

lemma trim_blanks:
  assumes "ws \<in> {space_runes, map rev space_runes}" "edges ws s"
  shows "length (replicate n (CHR '' '') @ s) \<le> m \<Longrightarrow> trim_left_fuel ws m (replicate n (CHR '' '') @ s) = s"
proof (induction n arbitrary: m)
  case 0
  then show ?case using trim_left_edges [OF assms(2)] by simp
next
  case (Suc n)
  let ?t = "replicate n (CHR '' '') @ s"
  obtain m' where m: "m = Suc m'" "length ?t \<le> m'" using Suc.prems by (cases m) auto
  have only: "p = '' ''" if "p \<in> set ws" "prefix p (CHR '' '' # ?t)" for p
    using space_words(1,2) [OF assms(1) that(1)] that(2) by (cases p) auto
  have "find (\<lambda>p. prefix p (CHR '' '' # ?t)) ws \<noteq> None"
    using space_words(4) [OF assms(1)] by (auto simp: find_None_iff)
  then obtain p where p: "find (\<lambda>p. prefix p (CHR '' '' # ?t)) ws = Some p" by blast
  moreover from this have "p = '' ''" using only by (auto simp: find_Some_iff)
  ultimately show ?case using Suc.IH [OF m(2)] m(1) by simp
qed

lemma TrimSpace_blanks:
  assumes "trimmed k" "k \<noteq> []"
  shows "TrimSpace (replicate i (CHR '' '') @ k @ replicate j (CHR '' '')) = k"
proof -
  have "edges space_runes (k @ replicate j (CHR '' ''))"
  proof (cases j)
    case (Suc n)
    then show ?thesis using edges_blank [of space_runes k "replicate n (CHR '' '')"] assms by simp
  qed (use assms in simp)
  then have "trim_left_fuel space_runes (length (replicate i (CHR '' '') @ k @ replicate j (CHR '' '')))
      (replicate i (CHR '' '') @ k @ replicate j (CHR '' '')) = k @ replicate j (CHR '' '')"
    by (intro trim_blanks) simp_all
  moreover have "trim_left_fuel (map rev space_runes) (length (k @ replicate j (CHR '' ''))) (replicate j (CHR '' '') @ rev k) = rev k"
    using assms(1) by (intro trim_blanks) simp_all
  ultimately show ?thesis by (simp only: TrimSpace_def Let_def rev_append rev_replicate rev_rev_ident)
qed

section \<open>Printing\<close>

definition entry_line :: "string \<times> string \<Rightarrow> string" where
  "entry_line kv = fst kv @ '' = '' @ snd kv"

definition header_line :: "string \<Rightarrow> string" where
  "header_line name = ''['' @ name @ '']''"

definition section_lines :: "string \<times> string gomap \<Rightarrow> string list" where
  "section_lines ns = header_line (fst ns) # map entry_line (snd ns)"

definition render :: "sections \<Rightarrow> string" where
  "render sections = concat (map (\<lambda>l. l @ [CHR 0x0A]) (concat (map section_lines sections)))"

text \<open>What a line can hold: it fits the scanner's buffer and has no line feed.\<close>

definition line_ok :: "string \<Rightarrow> bool" where
  "line_ok l \<longleftrightarrow> length l < MaxScanTokenSize \<and> CHR 0x0A \<notin> set l"

definition entry_ok :: "unicode \<Rightarrow> string \<times> string \<Rightarrow> bool" where
  "entry_ok U kv \<longleftrightarrow> line_ok (entry_line kv) \<and> fst kv \<noteq> [] \<and> hd (fst kv) \<notin> set ''#;['' \<and> CHR ''='' \<notin> set (fst kv)
     \<and> ToLower U (fst kv) = fst kv \<and> TrimSpace (fst kv) = fst kv \<and> TrimSpace (snd kv) = snd kv"

definition section_printable :: "unicode \<Rightarrow> string \<times> string gomap \<Rightarrow> bool" where
  "section_printable U ns \<longleftrightarrow> line_ok (header_line (fst ns)) \<and> remoteName (fst ns) \<and> TrimSpace (fst ns) = fst ns
     \<and> gomap_ok (snd ns) \<and> list_all (entry_ok U) (snd ns)"

definition printable :: "unicode \<Rightarrow> sections \<Rightarrow> bool" where
  "printable U sections \<longleftrightarrow> gomap_ok sections \<and> list_all (section_printable U) sections"

section \<open>Reading back\<close>

lemma raw_lines_line: "CHR 0x0A \<notin> set l \<Longrightarrow> raw_lines (l @ CHR 0x0A # rest) = l # raw_lines rest"
  by (induction l) auto

lemma raw_lines_concat:
  "list_all (\<lambda>l. CHR 0x0A \<notin> set l) ls \<Longrightarrow> raw_lines (concat (map (\<lambda>l. l @ [CHR 0x0A]) ls)) = ls"
  by (induction ls) (simp_all add: raw_lines_line)

lemma last_not_CR:
  assumes "edges (map rev space_runes) (rev v)" "v \<noteq> []"
  shows "last v \<noteq> CHR 0x0D"
proof
  assume "last v = CHR 0x0D"
  then have "prefix [CHR 0x0D] (rev v)" using assms(2) by (cases v rule: rev_cases) auto
  moreover have "[CHR 0x0D] \<in> set (map rev space_runes)" by code_simp
  ultimately show False using assms(1) unfolding edges_def by blast
qed

lemma TrimSpace_header: "TrimSpace (header_line name) = header_line name"
  unfolding TrimSpace_fixed header_line_def by (simp add: edges_Cons)

lemma parse_header:
  assumes "line_ok (header_line name)" "remoteName name" "TrimSpace name = name" "\<not> ghas secs name"
  shows "parse_lines C n secs cur (header_line name # rest) = parse_lines C (Suc n) (gset secs name []) (Some name) rest"
proof -
  have cr: "drop_CR (header_line name) = header_line name" by (simp add: drop_CR_def header_line_def)
  have shape: "header_line name \<noteq> []" "\<not> HasPrefix (header_line name) ''#''" "\<not> HasPrefix (header_line name) '';''"
      "HasPrefix (header_line name) ''[''" "HasSuffix (header_line name) '']''" "butlast (tl (header_line name)) = name"
    by (simp_all add: header_line_def HasPrefix_def HasSuffix_def)
  show ?thesis
    using assms shape by (simp add: cr TrimSpace_header line_ok_def Let_def)
qed

text \<open>A line of a section as the parser sees it: without a value, it ends in the equals sign.\<close>

lemma TrimSpace_entry:
  assumes "TrimSpace k = k" "TrimSpace v = v" "k \<noteq> []"
  shows "\<exists>rest. TrimSpace (drop_CR (entry_line (k, v))) = (k @ '' '') @ CHR ''='' # rest \<and> TrimSpace rest = v"
proof (cases "v = []")
  case True
  have k: "edges space_runes (k @ '' ='')" using edges_blank [of space_runes k "''=''"] assms(1,3) by (simp add: TrimSpace_fixed)
  have "TrimSpace (entry_line (k, v)) = k @ '' =''"
  proof -
    have "trimmed (k @ '' ='')" using k by (simp add: edges_Cons)
    then show ?thesis using TrimSpace_trail [of "k @ '' =''"] True by (simp add: entry_line_def)
  qed
  moreover have "drop_CR (entry_line (k, v)) = entry_line (k, v)" by (simp add: drop_CR_def entry_line_def True)
  ultimately show ?thesis using True assms(2) by auto
next
  case False
  have "edges space_runes (entry_line (k, v))"
    using edges_blank [of space_runes k "''= '' @ v"] assms(1,3) by (simp add: TrimSpace_fixed entry_line_def)
  moreover have "edges (map rev space_runes) (rev (entry_line (k, v)))"
    using edges_blank [of "map rev space_runes" "rev v" "''= '' @ rev k"] assms(2) False by (simp add: TrimSpace_fixed entry_line_def)
  ultimately have "TrimSpace (entry_line (k, v)) = entry_line (k, v)" by (simp only: TrimSpace_fixed)
  moreover have "drop_CR (entry_line (k, v)) = entry_line (k, v)"
    using last_not_CR [of v] assms(2) False by (simp add: drop_CR_def entry_line_def TrimSpace_fixed)
  moreover have "TrimSpace (CHR '' '' # v) = v" using assms(2) by (simp add: TrimSpace_lead TrimSpace_fixed)
  ultimately show ?thesis by (intro exI [of _ "CHR '' '' # v"]) (simp add: entry_line_def)
qed

lemma parse_entry:
  assumes "entry_ok (go_unicode C) (k, v)" "map_of secs cur = Some sec"
  shows "parse_lines C n secs (Some cur) (entry_line (k, v) # rest)
    = parse_lines C (Suc n) (gset secs cur (gset sec k v)) (Some cur) rest"
proof -
  have ok: "line_ok (entry_line (k, v))" "k \<noteq> []" "hd k \<notin> set ''#;[''" "CHR ''='' \<notin> set k" "ToLower (go_unicode C) k = k"
      "TrimSpace k = k" "TrimSpace v = v"
    using assms(1) by (simp_all add: entry_ok_def)
  obtain r where line: "TrimSpace (drop_CR (entry_line (k, v))) = (k @ '' '') @ CHR ''='' # r" "TrimSpace r = v"
    using TrimSpace_entry [OF ok(6,7,2)] by blast
  have cut: "Cut ((k @ '' '') @ CHR ''='' # r) ''='' = (k @ '' '', r, True)" using ok(4) by (intro Cut_char) simp
  have key: "TrimSpace (k @ '' '') = k" using ok(2,6) by (simp add: TrimSpace_trail TrimSpace_fixed)
  have shape: "\<not> HasPrefix ((k @ '' '') @ CHR ''='' # r) [c]" if "c \<in> set ''#;[''" for c
    using ok(2,3) that by (cases k) (auto simp: HasPrefix_def)
  show ?thesis
    using ok(1,5) shape assms(2) by (simp add: line(1) cut key line(2) line_ok_def Let_def del: append_assoc)
qed

lemma gset_new: "k \<notin> fst ` set m \<Longrightarrow> gset m k v = m @ [(k, v)]"
  by (induction m) (auto simp: gset_def)

lemma gset_last: "k \<notin> fst ` set m \<Longrightarrow> gset (m @ [(k, x)]) k v = m @ [(k, v)]"
  by (induction m) (auto simp: gset_def)

lemma parse_entries:
  assumes "name \<notin> fst ` set pre"
  shows "list_all (entry_ok (go_unicode C)) kvs \<Longrightarrow> gomap_ok (seen @ kvs) \<Longrightarrow>
    parse_lines C n (pre @ [(name, seen)]) (Some name) (map entry_line kvs @ rest)
      = parse_lines C (n + length kvs) (pre @ [(name, seen @ kvs)]) (Some name) rest"
proof (induction kvs arbitrary: seen n)
  case (Cons kv kvs)
  obtain k v where kv: "kv = (k, v)" by fastforce
  have "map_of pre name = None" using assms by (simp add: map_of_eq_None_iff)
  then have "map_of (pre @ [(name, seen)]) name = Some seen" by (simp add: map_add_def)
  moreover have "gset seen k v = seen @ [(k, v)]" using Cons.prems(2) kv by (intro gset_new) auto
  ultimately have "parse_lines C n (pre @ [(name, seen)]) (Some name) (entry_line kv # map entry_line kvs @ rest)
      = parse_lines C (Suc n) (pre @ [(name, seen @ [kv])]) (Some name) (map entry_line kvs @ rest)"
    using Cons.prems(1) kv parse_entry [of C k v "pre @ [(name, seen)]" name seen n] by (simp add: gset_last [OF assms] del: parse_lines.simps)
  then show ?case using Cons.IH [of "seen @ [kv]" "Suc n"] Cons.prems by simp
qed simp

lemma parse_section:
  assumes "section_printable (go_unicode C) (name, kvs)" "name \<notin> fst ` set pre"
  shows "\<exists>n'. parse_lines C n pre cur (section_lines (name, kvs) @ rest) = parse_lines C n' (pre @ [(name, kvs)]) (Some name) rest"
proof -
  have "\<not> ghas pre name" using assms(2) by (simp add: ghas_def map_of_eq_None_iff)
  then have "parse_lines C n pre cur (section_lines (name, kvs) @ rest)
      = parse_lines C (Suc n) (pre @ [(name, [])]) (Some name) (map entry_line kvs @ rest)"
    using assms by (simp add: section_lines_def section_printable_def parse_header gset_new del: parse_lines.simps)
  then show ?thesis using parse_entries [OF assms(2), of C kvs "[]" "Suc n"] assms(1) by (auto simp: section_printable_def)
qed

lemma parse_rendered:
  "list_all (section_printable (go_unicode C)) secs \<Longrightarrow> gomap_ok (pre @ secs) \<Longrightarrow>
   parse_lines C n pre cur (concat (map section_lines secs)) = Inr (pre @ secs)"
proof (induction secs arbitrary: pre n cur)
  case (Cons ns secs)
  obtain name kvs where ns: "ns = (name, kvs)" by fastforce
  have "section_printable (go_unicode C) (name, kvs)" "name \<notin> fst ` set pre" using Cons.prems ns by auto
  then obtain n' where "parse_lines C n pre cur (section_lines ns @ concat (map section_lines secs))
      = parse_lines C n' (pre @ [ns]) (Some name) (concat (map section_lines secs))"
    unfolding ns using parse_section by blast
  then show ?case using Cons.IH [of "pre @ [ns]"] Cons.prems by simp
qed simp

text \<open>
  Claim C28. The parser reads a configuration of distinct sections with distinct keys back as it was
  printed, in the order in which it was printed.
\<close>

theorem parseConfig_render:
  assumes "printable (go_unicode C) sections"
  shows "parseConfig C (render sections) = Inr sections"
proof -
  have lines: "list_all (\<lambda>l. CHR 0x0A \<notin> set l) (concat (map section_lines sections))"
    using assms
    by (fastforce simp: printable_def section_printable_def section_lines_def entry_ok_def line_ok_def list_all_iff)
  show ?thesis
    using assms unfolding parseConfig_def render_def raw_lines_concat [OF lines] printable_def
    by (intro parse_rendered [where pre = "[]", simplified]) simp_all
qed

definition example_sections :: sections where
  "example_sections = [(''store'', [(''type'', ''s3''), (''region'', [])]), (''my crypt'', [(''type'', ''crypt''), (''remote'', ''store:b = c'')])]"

theorem parseConfig_render_witness: "parseConfig plain_config (render example_sections) = Inr example_sections"
proof (rule parseConfig_render)
  show "printable (go_unicode plain_config) example_sections" by code_simp
qed

end
