(* ===== verification/Passed_Inputs.thy ===== *)
theory Passed_Inputs
  imports Allow_List Config_File
begin

text \<open>
  Two kinds of input that the allow-list accepts although rclone then does what the list is meant
  to prevent: section headers with blanks inside of their brackets, and endpoints without a scheme.
\<close>

section \<open>Headers with blanks\<close>








section \<open>Endpoints without a scheme\<close>
















end
