(* ===== verification/Volume_Flags.thy ===== *)
theory Volume_Flags
  imports Volume_Args
begin

text \<open>
  Where the flags of a volume come from: the volume's own attributes over the defaults of the
  secret, without the keys that Kubernetes adds.
\<close>

definition effective :: "string gomap \<Rightarrow> secret option \<Rightarrow> string \<Rightarrow> string option" where
  "effective volumeContext sec k =
     (case (if Contains k ''/'' then None else map_of volumeContext k) of
        Some v \<Rightarrow> Some v
      | None \<Rightarrow> (case sec of Some kvs \<Rightarrow> map_of kvs k | None \<Rightarrow> None))"

definition or_empty :: "string option \<Rightarrow> string" where
  "or_empty v = (case v of Some s \<Rightarrow> s | None \<Rightarrow> [])"

lemma or_empty_simps [simp]: "or_empty (Some s) = s" "or_empty None = []"
  by (simp_all add: or_empty_def)

text \<open>The keys that are not flags of rclone.\<close>

definition volume_keys :: "string set" where
  "volume_keys = {''remote'', ''remotePath'', ''remotePathSuffix'', ''configData''}"

lemma map_of_filter_key: "map_of (filter (\<lambda>(k, v). P k) kvs) k = (if P k then map_of kvs k else None)"
  by (induction kvs) auto

lemma distinct_filter_keys: "gomap_ok kvs \<Longrightarrow> gomap_ok (filter P kvs)"
  by (induction kvs) auto

lemma merged_look:
  assumes "gomap_ok volumeContext" "\<And>kvs. sec = Some kvs \<Longrightarrow> gomap_ok kvs"
  shows "map_of (merged_flags volumeContext sec) k = effective volumeContext sec k"
proof -
  have "map_of (case sec of Some kvs \<Rightarrow> gputall [] kvs | None \<Rightarrow> []) k = (case sec of Some kvs \<Rightarrow> map_of kvs k | None \<Rightarrow> None)"
    using assms(2) by (auto simp: gputall_look split: option.splits)
  then show ?thesis
    using distinct_filter_keys [OF assms(1)]
    by (auto simp: merged_flags_def gputall_look effective_def map_of_filter_key map_add_def split: option.splits)
qed

lemma gget_or_empty: "gget m k = or_empty (map_of m k)"
  by (simp add: gget_def or_empty_def)

lemma rest_look:
  "map_of (gdel (gdel (gdel (gdel m ''remotePathSuffix'') ''configData'') ''remote'') ''remotePath'') = map_of m |` (- volume_keys)"
  by (auto simp: gdel_look fun_eq_iff restrict_map_def volume_keys_def)

text \<open>
  Claim C19. The remote, its path with the suffix, the configuration and the flags of a volume are the
  effective values of their keys; a volume is refused if it has no remote or path, or if the
  options fail their checks, and for no other reason.
\<close>

theorem extractFlags_effective:
  assumes "gomap_ok volumeContext" "\<And>kvs. sec = Some kvs \<Longrightarrow> gomap_ok kvs"
  shows "case extractFlags C volumeContext sec of
      Inl e \<Rightarrow> effective volumeContext sec ''remote'' = None \<or> effective volumeContext sec ''remotePath'' = None
        \<or> (\<exists>flags. map_of flags = effective volumeContext sec |` (- volume_keys)
             \<and> validateOptions C (or_empty (effective volumeContext sec ''remote''))
                 (or_empty (effective volumeContext sec ''configData'')) flags = Some e)
    | Inr (remote, remotePath, configData, flags) \<Rightarrow>
        effective volumeContext sec ''remote'' = Some remote
        \<and> (\<exists>path. effective volumeContext sec ''remotePath'' = Some path
             \<and> remotePath = path @ or_empty (effective volumeContext sec ''remotePathSuffix''))
        \<and> configData = or_empty (effective volumeContext sec ''configData'')
        \<and> map_of flags = effective volumeContext sec |` (- volume_keys)
        \<and> validateOptions C remote configData flags = None"
proof -
  let ?m = "merged_flags volumeContext sec"
  let ?rest = "gdel (gdel (gdel (gdel ?m ''remotePathSuffix'') ''configData'') ''remote'') ''remotePath''"
  have m: "map_of ?m = effective volumeContext sec" using merged_look [OF assms] by blast
  have rest: "map_of ?rest = effective volumeContext sec |` (- volume_keys)" by (simp only: rest_look m)
  show ?thesis
  proof (cases "effective volumeContext sec ''remote'' = None \<or> effective volumeContext sec ''remotePath'' = None")
    case True
    then have "isl (extractFlags C volumeContext sec)" by (auto simp: extractFlags_def validateFlags_def ghas_def m Let_def)
    then show ?thesis using True by (auto simp: isl_def)
  next
    case False
    then obtain remote path where v: "effective volumeContext sec ''remote'' = Some remote"
        "effective volumeContext sec ''remotePath'' = Some path" by auto
    have "extractFlags C volumeContext sec = (case validateOptions C remote (or_empty (effective volumeContext sec ''configData'')) ?rest of
        Some e \<Rightarrow> Inl e
      | None \<Rightarrow> Inr (remote, path @ or_empty (effective volumeContext sec ''remotePathSuffix''),
          or_empty (effective volumeContext sec ''configData''), ?rest))"
      by (simp add: extractFlags_def validateFlags_def ghas_def gget_or_empty m v Let_def)
    then show ?thesis using rest v by (auto split: option.splits)
  qed
qed

section \<open>An example\<close>

definition own_context :: "string gomap" where
  "own_context = [(''remote'', ''s3''), (''remotePath'', ''bucket''), (''storage.kubernetes.io/csiProvisionerIdentity'', ''x'')]"

definition default_secret :: secret where
  "default_secret = [(''remote'', ''b2''), (''umask'', ''077'')]"

theorem extractFlags_effective_witness:
  "\<exists>remotePath flags. extractFlags plain_config own_context (Some default_secret) = Inr (''s3'', remotePath, [], flags)
     \<and> (\<exists>path. effective own_context (Some default_secret) ''remotePath'' = Some path
          \<and> remotePath = path @ or_empty (effective own_context (Some default_secret) ''remotePathSuffix''))
     \<and> map_of flags = effective own_context (Some default_secret) |` (- volume_keys)"
proof -
  have "extractFlags plain_config own_context (Some default_secret) = Inr (''s3'', ''bucket'', [], [(''umask'', ''077'')])"
    by code_simp
  moreover have "gomap_ok own_context" "gomap_ok default_secret" by code_simp+
  ultimately show ?thesis
    using extractFlags_effective [of own_context "Some default_secret" plain_config] by (simp only: sum.case prod.case option.inject) blast
qed

end
