(* ===== verification/Mount_Id.thy ===== *)
theory Mount_Id
  imports Volume_Args
begin

text \<open>
  The name of a shared mount, \<^verbatim>\<open>mountID\<close> of \<^verbatim>\<open>pkg/rclone/nodeserver.go\<close>: volumes get the same mount
  exactly when their rclone arguments are the same, up to collisions of SHA-256. For this the
  marshalled arguments are shown to determine the arguments: a decoder undoes the escapes.
\<close>

section \<open>Decoding a marshalled string\<close>

definition unhex :: "char \<Rightarrow> nat" where
  "unhex c = (if code_of c < 58 then code_of c - 48 else code_of c - 87)"

text \<open>The escape after a backslash: the decoded text and what follows.\<close>

definition unescape1 :: "char \<Rightarrow> string \<Rightarrow> string \<times> string" where
  "unescape1 e rest =
     (if e = CHR ''u''
      then (if take 4 rest = ''2028'' then line_sep
            else if take 4 rest = ''2029'' then par_sep
            else [char_of (16 * unhex (rest ! 2) + unhex (rest ! 3))], drop 4 rest)
      else if e = CHR ''b'' then ([char_of (8 :: nat)], rest)
      else if e = CHR ''f'' then ([char_of (12 :: nat)], rest)
      else if e = CHR ''n'' then ([char_of (10 :: nat)], rest)
      else if e = CHR ''r'' then ([char_of (13 :: nat)], rest)
      else if e = CHR ''t'' then ([char_of (9 :: nat)], rest)
      else ([e], rest))"

lemma unescape1_shorter: "unescape1 e rest = (t, rest') \<Longrightarrow> length rest' \<le> length rest"
  by (auto simp: unescape1_def split: if_splits)

text \<open>The text up to the closing quote, decoded, and what follows the quote.\<close>

function unescape :: "string \<Rightarrow> string \<times> string" where
  "unescape [] = ([], [])"
| "unescape (c # cs) =
     (if c = CHR 0x22 then ([], cs)
      else if c = CHR 0x5C \<and> cs \<noteq> []
      then (let (t, rest) = unescape1 (hd cs) (tl cs); (u, rest') = unescape rest in (t @ u, rest'))
      else (let (u, rest') = unescape cs in (c # u, rest')))"
  by pat_completeness auto
termination
  by (relation "measure length") (auto simp: less_Suc_eq_le neq_Nil_conv dest!: sym [of "(_, _)"] unescape1_shorter)

declare unescape.simps(2) [simp del]

lemma unescape_quote: "unescape (CHR 0x22 # cs) = ([], cs)"
  by (simp add: unescape.simps)

lemma unescape_plain:
  "c \<noteq> CHR 0x22 \<Longrightarrow> c \<noteq> CHR 0x5C \<Longrightarrow> unescape (c # cs) = (c # fst (unescape cs), snd (unescape cs))"
  by (simp add: unescape.simps Let_def split_beta)

lemma unescape_backslash:
  "unescape1 e cs = (t, rest) \<Longrightarrow> unescape (CHR 0x5C # e # cs) = (t @ fst (unescape rest), snd (unescape rest))"
  by (simp add: unescape.simps Let_def split_beta)

lemma unhex_digit: "n < 16 \<Longrightarrow> unhex (hex_digit n) = n"
proof -
  have "list_all (\<lambda>n. unhex (hex_digit n) = n) [0..<16]" by code_simp
  then show "n < 16 \<Longrightarrow> unhex (hex_digit n) = n" by (simp add: list_all_iff)
qed

lemma hex_digit_mod: "hex_digit (n mod 16) = hex_digit n"
  by (simp add: hex_digit_def)

text \<open>The characters that are escaped with a letter or with themselves, each with its escape.\<close>

definition short_escapes :: "(nat \<times> char) list" where
  "short_escapes = [(34, CHR 0x22), (92, CHR 0x5C), (8, CHR ''b''), (12, CHR ''f''), (10, CHR ''n''), (13, CHR ''r''), (9, CHR ''t'')]"

lemma short_escape:
  "(n, e) \<in> set short_escapes \<Longrightarrow> escape_ascii (char_of n) = [CHR 0x5C, e] \<and> unescape1 e X = ([char_of n], X)"
proof -
  have "list_all (\<lambda>(n, e). escape_ascii (char_of n) = [CHR 0x5C, e]) short_escapes" by code_simp
  moreover have "(n, e) \<in> set short_escapes \<Longrightarrow> unescape1 e X = ([char_of n], X)"
  proof -
    have "char_of (34 :: nat) = CHR 0x22" "char_of (92 :: nat) = CHR 0x5C" by code_simp+
    then show "(n, e) \<in> set short_escapes \<Longrightarrow> unescape1 e X = ([char_of n], X)"
      by (simp only: short_escapes_def list.set insert_iff empty_iff prod.inject simp_thms)
        (elim disjE conjE; simp add: unescape1_def)
  qed
  ultimately show "(n, e) \<in> set short_escapes \<Longrightarrow> escape_ascii (char_of n) = [CHR 0x5C, e] \<and> unescape1 e X = ([char_of n], X)"
    by (auto simp: list_all_iff)
qed

lemma escape_ascii_hex:
  assumes "n < 128" "n \<notin> fst ` set short_escapes" "n < 32 \<or> n = 60 \<or> n = 62 \<or> n = 38"
  shows "escape_ascii (char_of n) = CHR 0x5C # CHR ''u'' # ''00'' @ [hex_digit (n div 16), hex_digit n]"
proof -
  have "bytes [92, 117, 48, 48] = CHR 0x5C # CHR ''u'' # ''00''" by code_simp
  with assms show ?thesis
    by (simp add: escape_ascii_def code_of_char_of short_escapes_def Let_def)
qed

lemma escape_ascii_plain:
  assumes "n < 128" "n \<notin> fst ` set short_escapes" "\<not> (n < 32 \<or> n = 60 \<or> n = 62 \<or> n = 38)"
  shows "escape_ascii (char_of n) = [char_of n]"
  using assms by (simp add: escape_ascii_def code_of_char_of short_escapes_def Let_def)

lemma unescape_ascii:
  assumes "code_of c < 128"
  shows "unescape (escape_ascii c @ X) = (c # fst (unescape X), snd (unescape X))"
proof -
  define n where "n = code_of c"
  have c: "c = char_of n" and n: "n < 128" using assms by (simp_all add: n_def char_of_code_of)
  consider e where "(n, e) \<in> set short_escapes"
    | "n \<notin> fst ` set short_escapes" "n < 32 \<or> n = 60 \<or> n = 62 \<or> n = 38"
    | "n \<notin> fst ` set short_escapes" "\<not> (n < 32 \<or> n = 60 \<or> n = 62 \<or> n = 38)" by force
  then show ?thesis
  proof cases
    case 1
    then show ?thesis
      using unescape_backslash [of e X "[char_of n]" X] by (simp add: short_escape c)
  next
    case 2
    have "16 * unhex (hex_digit (n div 16)) + unhex (hex_digit n) = n"
      using n unhex_digit [of "n div 16"] unhex_digit [of "n mod 16"] by (simp add: hex_digit_mod)
    then have "unescape1 (CHR ''u'') (''00'' @ hex_digit (n div 16) # hex_digit n # X) = ([c], X)"
      by (simp add: unescape1_def c)
    from unescape_backslash [OF this] show ?thesis
      using escape_ascii_hex [OF n 2] by (simp add: c)
  next
    case 3
    have "code_of (CHR 0x22) = 34" "code_of (CHR 0x5C) = 92" by code_simp+
    with 3 have "c \<noteq> CHR 0x22" "c \<noteq> CHR 0x5C" by (auto simp: n_def short_escapes_def)
    with escape_ascii_plain [OF n 3] show ?thesis by (simp add: unescape_plain c)
  qed
qed

lemma unescape_high:
  "list_all (\<lambda>b. 128 \<le> code_of b) r \<Longrightarrow> unescape (r @ X) = (r @ fst (unescape X), snd (unescape X))"
proof (induction r)
  case (Cons b r)
  have "code_of (CHR 0x22) = 34" "code_of (CHR 0x5C) = 92" by code_simp+
  with Cons.prems have "b \<noteq> CHR 0x22" "b \<noteq> CHR 0x5C" by auto
  with Cons show ?case by (simp add: unescape_plain)
qed simp

lemma rune_bytes:
  assumes "rune_tail (c # cs) = Some n"
  shows "list_all (\<lambda>b. 128 \<le> code_of b) (c # take n cs)"
proof -
  obtain b rest where cs: "cs = b # rest" using assms by (cases cs) (simp_all add: rune_tail_def)
  consider "between 0xC2 0xDF c \<and> cont b" "n = 1"
    | d rest' where "rest = d # rest'" "(between 0xE0 0xE0 c \<and> between 0xA0 0xBF b
          \<or> (between 0xE1 0xEC c \<or> between 0xEE 0xEF c) \<and> cont b \<or> between 0xED 0xED c \<and> between 0x80 0x9F b) \<and> cont d" "n = 2"
    | d e rest' where "rest = d # e # rest'" "(between 0xF0 0xF0 c \<and> between 0x90 0xBF b
          \<or> between 0xF1 0xF3 c \<and> cont b \<or> between 0xF4 0xF4 c \<and> between 0x80 0x8F b) \<and> cont d \<and> cont e" "n = 3"
    using assms unfolding rune_tail_def cs list.case by (auto split: list.splits if_split_asm)
  then show ?thesis
  proof cases
    case 1
    then show ?thesis by (auto simp: cs between_def cont_def)
  next
    case 2
    then show ?thesis by (auto simp: cs between_def cont_def)
  next
    case 3
    then show ?thesis by (auto simp: cs between_def cont_def)
  qed
qed

lemma unescape_line_sep: "unescape (CHR 0x5C # ''u2028'' @ X) = (line_sep @ fst (unescape X), snd (unescape X))"
  using unescape_backslash [of "CHR ''u''" "''2028'' @ X" line_sep X] by (simp add: unescape1_def)

lemma unescape_par_sep: "unescape (CHR 0x5C # ''u2029'' @ X) = (par_sep @ fst (unescape X), snd (unescape X))"
  using unescape_backslash [of "CHR ''u''" "''2029'' @ X" par_sep X] by (simp add: unescape1_def)

text \<open>Decoding undoes the escapes of a string that is valid UTF-8.\<close>

lemma escape_high:
  assumes "\<not> code_of c < 128" "rune_tail (c # cs) = Some n"
  shows "unescape (escape_string (c # cs) @ X) = (c # take n cs @ fst (unescape (escape_string (drop n cs) @ X)),
           snd (unescape (escape_string (drop n cs) @ X)))"
proof -
  let ?rest = "escape_string (drop n cs) @ X"
  consider "c # take n cs = line_sep" | "c # take n cs \<noteq> line_sep" "c # take n cs = par_sep"
    | "c # take n cs \<noteq> line_sep" "c # take n cs \<noteq> par_sep" by blast
  then show ?thesis
  proof cases
    case 1
    then have "escape_string (c # cs) @ X = CHR 0x5C # ''u2028'' @ ?rest" using assms by (simp add: Let_def)
    then show ?thesis using unescape_line_sep [of ?rest] 1 [symmetric] by simp
  next
    case 2
    then have "escape_string (c # cs) @ X = CHR 0x5C # ''u2029'' @ ?rest" using assms by (simp add: Let_def)
    then show ?thesis using unescape_par_sep [of ?rest] 2(2) [symmetric] by simp
  next
    case 3
    then have "escape_string (c # cs) @ X = (c # take n cs) @ ?rest" using assms by (simp add: Let_def)
    then show ?thesis using unescape_high [OF rune_bytes [OF assms(2)], of ?rest] by simp
  qed
qed

lemma unescape_escape: "valid_utf8 s \<Longrightarrow> unescape (escape_string s @ CHR 0x22 # r) = (s, r)"
proof (induction s rule: valid_utf8.induct)
  case 1
  show ?case by (simp add: unescape_quote)
next
  case (2 c cs)
  show ?case
  proof (cases "code_of c < 128")
    case True
    with 2 show ?thesis by (simp add: unescape_ascii)
  next
    case False
    with 2(3) obtain n where n: "rune_tail (c # cs) = Some n" "valid_utf8 (drop n cs)"
      by (simp split: option.splits)
    with 2(2) False have "unescape (escape_string (drop n cs) @ CHR 0x22 # r) = (drop n cs, r)" by simp
    with escape_high [OF False n(1), of "CHR 0x22 # r"] show ?thesis by simp
  qed
qed

lemma marshal_string_inj:
  assumes "valid_utf8 s" "valid_utf8 t" "marshal_string s @ r = marshal_string t @ q"
  shows "s = t \<and> r = q"
proof -
  have eq: "escape_string s @ CHR 0x22 # r = escape_string t @ CHR 0x22 # q"
    using assms(3) by (simp add: marshal_string_def)
  have "(s, r) = unescape (escape_string s @ CHR 0x22 # r)" by (rule unescape_escape [OF assms(1), symmetric])
  also have "\<dots> = unescape (escape_string t @ CHR 0x22 # q)" by (simp only: eq)
  also have "\<dots> = (t, q)" by (rule unescape_escape [OF assms(2)])
  finally show ?thesis by (simp only: prod.inject)
qed

section \<open>The marshalled arguments determine the arguments\<close>

definition pair_text :: "string \<times> string \<Rightarrow> string" where
  "pair_text kv = marshal_string (fst kv) @ '':'' @ marshal_string (snd kv)"

abbreviation valid_pair :: "string \<times> string \<Rightarrow> bool" where
  "valid_pair kv \<equiv> valid_utf8 (fst kv) \<and> valid_utf8 (snd kv)"

lemma pair_text_inj:
  "valid_pair p \<Longrightarrow> valid_pair q \<Longrightarrow> pair_text p @ r = pair_text q @ r' \<Longrightarrow> p = q \<and> r = r'"
  using marshal_string_inj [of "fst p" "fst q" "'':'' @ marshal_string (snd p) @ r" "'':'' @ marshal_string (snd q) @ r'"]
    marshal_string_inj [of "snd p" "snd q" r r']
  by (simp add: pair_text_def prod_eq_iff)

lemma pair_text_head: "\<exists>u. pair_text p = CHR 0x22 # u"
  by (simp add: pair_text_def marshal_string_def)

lemma pairs_step:
  "join_with '','' (map pair_text (p # ps)) @ X =
   pair_text p @ (if ps = [] then X else CHR '','' # join_with '','' (map pair_text ps) @ X)"
  by (cases ps) simp_all

lemma pairs_head: "\<exists>u. join_with '','' (map pair_text (p # ps)) @ X = CHR 0x22 # u"
  using pair_text_head [of p] by (auto simp only: pairs_step append_Cons)

lemma pairs_inj:
  "list_all valid_pair ps \<Longrightarrow> list_all valid_pair qs \<Longrightarrow>
   join_with '','' (map pair_text ps) @ CHR 0x7D # r = join_with '','' (map pair_text qs) @ CHR 0x7D # r' \<Longrightarrow>
   ps = qs \<and> r = r'"
proof (induction ps arbitrary: qs)
  case Nil
  show ?case
  proof (cases qs)
    case (Cons q qs')
    obtain u where "join_with '','' (map pair_text qs) @ CHR 0x7D # r' = CHR 0x22 # u"
      using pairs_head [of q qs' "CHR 0x7D # r'"] Cons by auto
    with Nil.prems(3) show ?thesis by simp
  qed (use Nil.prems in simp)
next
  case (Cons p ps)
  obtain q qs' where qs: "qs = q # qs'"
    using Cons.prems(3) pairs_head [of p ps "CHR 0x7D # r"] by (cases qs) (auto simp del: list.map(2))
  have "p = q \<and> (if ps = [] then CHR 0x7D # r else CHR '','' # join_with '','' (map pair_text ps) @ CHR 0x7D # r)
      = (if qs' = [] then CHR 0x7D # r' else CHR '','' # join_with '','' (map pair_text qs') @ CHR 0x7D # r')"
    using Cons.prems unfolding qs pairs_step by (intro pair_text_inj) simp_all
  then show ?case
    using Cons.IH [of qs'] Cons.prems(1,2) unfolding qs by (auto split: if_splits)
qed

lemma marshal_map_pairs:
  "marshal_map m = CHR 0x7B # join_with '','' (map pair_text (sort_key fst m)) @ [CHR 0x7D]"
proof -
  have "pair_text = (\<lambda>(k, v). marshal_string k @ '':'' @ marshal_string v)"
    by (auto simp: pair_text_def fun_eq_iff)
  then show ?thesis by (simp only: marshal_map_def)
qed

lemma marshal_map_inj:
  assumes "list_all valid_pair m" "list_all valid_pair m'" "marshal_map m @ r = marshal_map m' @ r'"
  shows "sort_key fst m = sort_key fst m' \<and> r = r'"
proof -
  have "list_all valid_pair (sort_key fst m)" "list_all valid_pair (sort_key fst m')"
    using assms(1,2) by (simp_all add: list_all_iff)
  with assms(3) show ?thesis
    using pairs_inj [of "sort_key fst m" "sort_key fst m'" r r'] by (simp add: marshal_map_pairs)
qed

lemma marshal_bool_inj: "marshal_bool a @ r = marshal_bool b @ r \<Longrightarrow> a = b"
  by (cases a; cases b) simp_all

text \<open>Arguments are the same when their maps of flags are, in whatever order Go visits them.\<close>

definition same_args :: "rcloneArgs \<Rightarrow> rcloneArgs \<Rightarrow> bool" where
  "same_args a b \<longleftrightarrow> arg_remote a = arg_remote b \<and> arg_remotePath a = arg_remotePath b
     \<and> arg_configData a = arg_configData b \<and> map_of (arg_flags a) = map_of (arg_flags b)
     \<and> arg_readOnly a = arg_readOnly b"

definition valid_args :: "rcloneArgs \<Rightarrow> bool" where
  "valid_args a \<longleftrightarrow> valid_utf8 (arg_remote a) \<and> valid_utf8 (arg_remotePath a) \<and> valid_utf8 (arg_configData a)
     \<and> list_all valid_pair (arg_flags a) \<and> gomap_ok (arg_flags a)"

lemma sort_key_same_map:
  assumes "distinct (map fst m)" "distinct (map fst m')"
  shows "sort_key fst m = sort_key fst m' \<longleftrightarrow> map_of m = map_of m'"
proof
  assume "sort_key fst m = sort_key fst m'"
  then have "set m = set m'" by (metis set_sort)
  with assms show "map_of m = map_of m'" by (simp add: map_of_inject_set)
next
  assume "map_of m = map_of m'"
  with assms have set: "set m = set m'" by (simp add: map_of_inject_set)
  have dist: "distinct (map fst (sort_key fst m))" "distinct (map fst (sort_key fst m'))"
    using assms by (metis distinct_map distinct_sort set_sort)+
  show "sort_key fst m = sort_key fst m'"
  proof (rule map_sorted_distinct_set_unique [of fst])
    show "inj_on fst (set (sort_key fst m) \<union> set (sort_key fst m'))"
      using assms set by (simp add: distinct_map)
  qed (use dist set in simp_all)
qed

text \<open>Equal arguments are marshalled to equal text, and valid arguments only those.\<close>

lemma marshal_args_inj:
  assumes "valid_args a" "valid_args b"
  shows "marshal_args a = marshal_args b \<longleftrightarrow> same_args a b"
proof
  have flags: "sort_key fst (arg_flags a) = sort_key fst (arg_flags b) \<longleftrightarrow> map_of (arg_flags a) = map_of (arg_flags b)"
    using assms by (intro sort_key_same_map) (simp_all add: valid_args_def)
  show "marshal_args a = marshal_args b" if "same_args a b"
    using that flags by (simp add: same_args_def marshal_args_def marshal_map_def)
  assume eq: "marshal_args a = marshal_args b"
  let ?tail = "\<lambda>a. marshal_bool (arg_readOnly a) @ '']''"
  let ?map = "\<lambda>a. marshal_map (arg_flags a) @ '','' @ ?tail a"
  let ?conf = "\<lambda>a. marshal_string (arg_configData a) @ '','' @ ?map a"
  let ?path = "\<lambda>a. marshal_string (arg_remotePath a) @ '','' @ ?conf a"
  have valid: "valid_utf8 (arg_remote x)" "valid_utf8 (arg_remotePath x)" "valid_utf8 (arg_configData x)"
      "list_all valid_pair (arg_flags x)" if "valid_args x" for x
    using that by (simp_all add: valid_args_def)
  note va = valid [OF assms(1)] and vb = valid [OF assms(2)]
  from eq have "marshal_string (arg_remote a) @ '','' @ ?path a = marshal_string (arg_remote b) @ '','' @ ?path b"
    by (simp add: marshal_args_def)
  from marshal_string_inj [OF va(1) vb(1) this]
  have 1: "arg_remote a = arg_remote b" "?path a = ?path b" by (simp_all only: same_append_eq)
  from marshal_string_inj [OF va(2) vb(2) 1(2)]
  have 2: "arg_remotePath a = arg_remotePath b" "?conf a = ?conf b" by (simp_all only: same_append_eq)
  from marshal_string_inj [OF va(3) vb(3) 2(2)]
  have 3: "arg_configData a = arg_configData b" "?map a = ?map b" by (simp_all only: same_append_eq)
  from marshal_map_inj [OF va(4) vb(4) 3(2)]
  have 4: "sort_key fst (arg_flags a) = sort_key fst (arg_flags b)" "?tail a = ?tail b" by (simp_all only: same_append_eq)
  then have "arg_readOnly a = arg_readOnly b"
    by (cases "arg_readOnly a"; cases "arg_readOnly b") simp_all
  with 1(1) 2(1) 3(1) 4(1) flags show "same_args a b" by (simp add: same_args_def)
qed

section \<open>Sharing a mount\<close>

text \<open>
  Claim C20. With reuse of mounts, two volumes get the same mount exactly when their rclone
  arguments are the same, credentials included, in whatever order Go visits the flags, or
  when their marshalled arguments are a collision of SHA-256; the volume's ID plays no part.
\<close>

theorem mountID_shared:
  assumes "ReuseMounts C" "valid_args a" "valid_args b"
  shows "mountID C v a = mountID C v' b \<longleftrightarrow>
    same_args a b \<or> (marshal_args a \<noteq> marshal_args b \<and> Sum256 (marshal_args a) = Sum256 (marshal_args b))"
proof -
  have "mountID C v a = mountID C v' b \<longleftrightarrow> Sum256 (marshal_args a) = Sum256 (marshal_args b)"
    using assms(1) by (auto simp: mountID_def dest: EncodeToString_inj [OF Sum256_bytes Sum256_bytes])
  then show ?thesis using marshal_args_inj [OF assms(2,3)] by auto
qed

definition example_args :: "(string \<times> string) list \<Rightarrow> rcloneArgs" where
  "example_args flags = \<lparr>arg_remote = ''s3'', arg_remotePath = ''bucket'', arg_configData = [],
     arg_flags = flags, arg_readOnly = False\<rparr>"

theorem mountID_shared_witness:
  "mountID plain_config ''pv-1'' (example_args [(''s3-region'', ''eu''), (''umask'', ''077'')]) =
   mountID plain_config ''pv-2'' (example_args [(''umask'', ''077''), (''s3-region'', ''eu'')])"
proof -
  have "valid_args (example_args [(''s3-region'', ''eu''), (''umask'', ''077'')])"
    "valid_args (example_args [(''umask'', ''077''), (''s3-region'', ''eu'')])"
    by code_simp+
  moreover have "same_args (example_args [(''s3-region'', ''eu''), (''umask'', ''077'')])
    (example_args [(''umask'', ''077''), (''s3-region'', ''eu'')])"
    by (simp add: same_args_def example_args_def fun_upd_twist)
  ultimately show ?thesis
    using mountID_shared [of plain_config] by (simp add: plain_config_def default_config_def)
qed

section \<open>Bytes that are not UTF-8\<close>

text \<open>A byte that occurs in the encoding of no rune.\<close>

definition never_utf8 :: "char \<Rightarrow> bool" where
  "never_utf8 c \<longleftrightarrow> code_of c = 0xC0 \<or> code_of c = 0xC1 \<or> 0xF5 \<le> code_of c"

lemma never_byte: "never_utf8 d \<Longrightarrow> \<not> code_of d < 128"
  by (auto simp: never_utf8_def)

lemma never_between:
  assumes "never_utf8 d"
  shows "\<not> cont d" "\<not> between 0xA0 0xBF d" "\<not> between 0x80 0x9F d" "\<not> between 0x90 0xBF d" "\<not> between 0x80 0x8F d"
    "\<not> between 0xC2 0xDF d" "\<not> between 0xE0 0xE0 d" "\<not> between 0xE1 0xEC d" "\<not> between 0xEE 0xEF d" "\<not> between 0xED 0xED d"
    "\<not> between 0xF0 0xF0 d" "\<not> between 0xF1 0xF3 d" "\<not> between 0xF4 0xF4 d"
  using assms unfolding never_utf8_def cont_def between_def by linarith+

text \<open>Such a byte ends the search for a rune, whichever it is.\<close>

lemma rune_tail_never: "never_utf8 b \<Longrightarrow> rune_tail (b # q) = None"
  by (simp add: rune_tail_def never_between split: list.split)

lemma rune_tail_short: "rune_tail s = Some n \<Longrightarrow> n \<le> 3"
  unfolding rune_tail_def by (simp split: list.splits if_split_asm)

lemma rune_tail_stops:
  assumes "never_utf8 b" "never_utf8 c"
  shows "rune_tail ((x # p) @ b # q) = rune_tail ((x # p) @ c # q)"
    "rune_tail ((x # p) @ b # q) = Some n \<Longrightarrow> n \<le> length p"
proof -
  note stops = never_between [OF assms(1)] never_between [OF assms(2)]
  consider "p = []" | y where "p = [y]" | y z where "p = [y, z]" | y z w p' where "p = y # z # w # p'"
    by (metis list.exhaust)
  then have "rune_tail ((x # p) @ b # q) = rune_tail ((x # p) @ c # q) \<and>
      (\<forall>n. rune_tail ((x # p) @ b # q) = Some n \<longrightarrow> n \<le> length p)"
  proof cases
    case 4
    then have "rune_tail ((x # p) @ b # q) = rune_tail ((x # p) @ c # q)" by (simp only: rune_tail_def append_Cons list.case)
    moreover have "3 \<le> length p" using 4 by simp
    ultimately show ?thesis using rune_tail_short by fastforce
  qed (simp_all add: rune_tail_def stops split: list.split)
  then show "rune_tail ((x # p) @ b # q) = rune_tail ((x # p) @ c # q)"
    "rune_tail ((x # p) @ b # q) = Some n \<Longrightarrow> n \<le> length p" by blast+
qed

lemma escape_never:
  assumes "never_utf8 b" "never_utf8 c"
  shows "escape_string (p @ b # q) = escape_string (p @ c # q)"
proof (induction p rule: length_induct)
  case (1 p)
  show ?case
  proof (cases p)
    case Nil
    then show ?thesis using never_byte assms by (simp add: rune_tail_never)
  next
    case (Cons x p')
    have IH: "escape_string (drop n p' @ b # q) = escape_string (drop n p' @ c # q)" for n
      using 1 Cons by simp
    show ?thesis
    proof (cases "code_of x < 128")
      case True
      then show ?thesis using IH [of 0] Cons by simp
    next
      case False
      show ?thesis
      proof (cases "rune_tail ((x # p') @ b # q)")
        case None
        then show ?thesis using rune_tail_stops(1) [OF assms, of x p' q] False IH [of 0] Cons by simp
      next
        case (Some n)
        then have "n \<le> length p'" "rune_tail ((x # p') @ c # q) = Some n"
          using rune_tail_stops [OF assms] by auto
        then show ?thesis using Some False IH [of n] Cons by (simp add: Let_def)
      qed
    qed
  qed
qed

lemma marshal_string_never:
  "never_utf8 b \<Longrightarrow> never_utf8 c \<Longrightarrow> marshal_string (p @ b # q) = marshal_string (p @ c # q)"
  unfolding marshal_string_def by (drule (1) escape_never) simp

text \<open>The text of a map depends on its values only through their text.\<close>

lemma insort_pair_texts:
  assumes "\<And>x. fst (f x) = fst x"
  shows "map f (sort_key fst kvs) = sort_key fst (map f kvs)"
proof -
  have ins: "map f (insort_key fst x ys) = insort_key fst (f x) (map f ys)" for x ys
    by (induction ys) (simp_all add: assms)
  show ?thesis by (induction kvs) (simp_all add: ins)
qed

lemma marshal_map_texts:
  assumes "map (apsnd marshal_string) m = map (apsnd marshal_string) n"
  shows "marshal_map m = marshal_map n"
proof -
  have "map (\<lambda>(k, v). marshal_string k @ '':'' @ marshal_string v) (sort_key fst x)
      = map (\<lambda>(k, t). marshal_string k @ '':'' @ t) (sort_key fst (map (apsnd marshal_string) x))" for x
    by (simp add: insort_pair_texts [of "apsnd marshal_string" x, symmetric] comp_def case_prod_beta)
  then show ?thesis using assms by (simp add: marshal_map_def)
qed

text \<open>
  Claim C39. Bytes that are not UTF-8 are marshalled as the replacement character, so arguments that
  differ only in such a byte, of a flag's value such as a credential, of the configuration or of the
  remote path, have the same ID: their volumes share a mount although \<^verbatim>\<open>mountID\<close> is to tell
  volumes with different arguments apart.
\<close>

theorem mountID_merges_invalid_utf8:
  assumes "ReuseMounts C" "never_utf8 b" "never_utf8 c" "b \<noteq> c"
  shows "a\<lparr>arg_flags := fs @ (k, p @ b # q) # gs\<rparr> \<noteq> a\<lparr>arg_flags := fs @ (k, p @ c # q) # gs\<rparr>
    \<and> mountID C v (a\<lparr>arg_flags := fs @ (k, p @ b # q) # gs\<rparr>) = mountID C v' (a\<lparr>arg_flags := fs @ (k, p @ c # q) # gs\<rparr>)
    \<and> mountID C v (a\<lparr>arg_configData := p @ b # q\<rparr>) = mountID C v' (a\<lparr>arg_configData := p @ c # q\<rparr>)
    \<and> mountID C v (a\<lparr>arg_remotePath := p @ b # q\<rparr>) = mountID C v' (a\<lparr>arg_remotePath := p @ c # q\<rparr>)"
proof -
  have same: "marshal_string (p @ b # q) = marshal_string (p @ c # q)" by (rule marshal_string_never [OF assms(2,3)])
  then have "marshal_map (fs @ (k, p @ b # q) # gs) = marshal_map (fs @ (k, p @ c # q) # gs)"
    by (intro marshal_map_texts) simp
  moreover have "a\<lparr>arg_flags := fs @ (k, p @ b # q) # gs\<rparr> \<noteq> a\<lparr>arg_flags := fs @ (k, p @ c # q) # gs\<rparr>"
    using assms(4) by (cases a) simp
  ultimately show ?thesis using same assms(1) by (simp add: mountID_def marshal_args_def)
qed

theorem mountID_merges_invalid_utf8_witness:
  "mountID plain_config ''pv-1'' (example_args [(''s3-secret-access-key'', ''key'' @ [CHR 0xFE])]) =
   mountID plain_config ''pv-2'' (example_args [(''s3-secret-access-key'', ''key'' @ [CHR 0xFF])])"
proof -
  have "never_utf8 (CHR 0xFE)" "never_utf8 (CHR 0xFF)" by code_simp+
  moreover have "ReuseMounts plain_config" by (simp add: plain_config_def default_config_def)
  ultimately show ?thesis
    using mountID_merges_invalid_utf8 [where C = plain_config and b = "CHR 0xFE" and c = "CHR 0xFF" and a = "example_args []" and fs = "[]"
        and k = "''s3-secret-access-key''" and p = "''key''" and q = "[]" and gs = "[]" and v = "''pv-1''" and v' = "''pv-2''"]
    by (simp add: example_args_def)
qed

end
