(* ===== verification/Server.thy ===== *)
theory Server
  imports Config Csi_Types
begin

text \<open>
  The gRPC server, \<^verbatim>\<open>pkg/rclone/server.go\<close>: where it listens, and what it does to the file system
  before. The file system, the network and the gRPC library are parameters.
\<close>

section \<open>The server\<close>

record server_world =
  sw_remove :: "string \<Rightarrow> go_error option"
  sw_listen :: "string \<Rightarrow> string \<Rightarrow> go_error option"
  sw_serve :: "string \<Rightarrow> string \<Rightarrow> go_error option"

text \<open>What the server does, in order. \<open>Fatal\<close> ends the process.\<close>

datatype server_action =
    RemoveSocket string
  | Listen string string
  | Serve string string
  | is_Fatal: Fatal string

text \<open>The network and the address in an endpoint.\<close>

definition split_endpoint :: "unicode \<Rightarrow> string \<Rightarrow> string \<times> string" where
  "split_endpoint U endpoint =
     (let (before, after, found) = Cut endpoint ''://''
      in if found then (ToLower U before, after) else (''unix'', endpoint))"

definition listen_address :: "unicode \<Rightarrow> string \<Rightarrow> string \<times> string" where
  "listen_address U endpoint =
     (let (proto, addr) = split_endpoint U endpoint
      in (proto, if proto = ''unix'' \<and> \<not> HasPrefix addr ''/'' then ''/'' @ addr else addr))"

definition listen_and_serve :: "server_world \<Rightarrow> string \<Rightarrow> string \<Rightarrow> server_action list" where
  "listen_and_serve W proto addr =
     Listen proto addr #
       (case sw_listen W proto addr of
          Some e \<Rightarrow> [Fatal (''Failed to listen: '' @ Error e)]
        | None \<Rightarrow> Serve proto addr #
            (case sw_serve W proto addr of Some e \<Rightarrow> [Fatal (''Failed to serve: '' @ Error e)] | None \<Rightarrow> []))"

definition serve :: "unicode \<Rightarrow> server_world \<Rightarrow> string \<Rightarrow> server_action list" where
  "serve U W endpoint =
     (let (proto, addr) = listen_address U endpoint
      in if proto = ''unix''
         then RemoveSocket addr #
           (case sw_remove W addr of
              Some e \<Rightarrow> if IsNotExist e then listen_and_serve W proto addr
                        else [Fatal (''Failed to remove '' @ addr @ '': '' @ Error e)]
            | None \<Rightarrow> listen_and_serve W proto addr)
         else listen_and_serve W proto addr)"

text \<open>The interceptor: what it logs, and the handler's answer.\<close>

definition logGRPC :: "string \<Rightarrow> ('req \<Rightarrow> 'resp \<times> go_error option) \<Rightarrow> 'req \<Rightarrow> string list \<times> 'resp \<times> go_error option" where
  "logGRPC method handler req =
     (let (resp, err) = handler req
      in ((''GRPC call: '' @ method) # (case err of Some e \<Rightarrow> [''GRPC error: '' @ Error e] | None \<Rightarrow> []), resp, err))"

section \<open>Where it listens\<close>

definition own_socket_only :: "unicode \<Rightarrow> server_world \<Rightarrow> string \<Rightarrow> server_action list \<Rightarrow> bool" where
  "own_socket_only U W endpoint acts \<longleftrightarrow>
     (\<forall>p. RemoveSocket p \<in> set acts \<longrightarrow> listen_address U endpoint = (''unix'', p) \<and> HasPrefix p ''/''
        \<and> (\<forall>q a. Listen q a \<in> set acts \<longrightarrow>
             q = ''unix'' \<and> a = p \<and> (\<forall>e. sw_remove W p = Some e \<longrightarrow> IsNotExist e)))
     \<and> (\<forall>q a. Serve q a \<in> set acts \<longrightarrow> Listen q a \<in> set acts \<and> sw_listen W q a = None)"

text \<open>
  Claim C36. The server removes a file only to listen at that path as a unix socket, and the path is
  absolute; it listens only if the file is gone, and serves only what it listens at.
\<close>

theorem serve_removes_own_socket: "own_socket_only U W endpoint (serve U W endpoint)"
proof -
  obtain proto addr where pa: "listen_address U endpoint = (proto, addr)" by fastforce
  have abs: "HasPrefix addr ''/''" if "proto = ''unix''"
    using pa that by (auto simp: listen_address_def HasPrefix_def split: prod.splits if_splits)
  show ?thesis
    using abs unfolding own_socket_only_def by (auto simp: serve_def pa listen_and_serve_def split: option.splits if_splits)
qed

lemma Index_scheme: "CHR '':'' \<notin> set scheme \<Longrightarrow> Index (scheme @ ''://'' @ p) ''://'' = Some (length scheme)"
  by (induction scheme) (auto simp: prefix_def)

lemma Cut_scheme: "CHR '':'' \<notin> set scheme \<Longrightarrow> Cut (scheme @ ''://'' @ p) ''://'' = (scheme, p, True)"
  unfolding Cut_def by (subst Index_scheme) simp_all

lemma listen_unix:
  assumes "CHR '':'' \<notin> set scheme" "ToLower U scheme = ''unix''"
  shows "listen_address U (scheme @ ''://'' @ p) = (''unix'', if HasPrefix p ''/'' then p else ''/'' @ p)"
  unfolding listen_address_def split_endpoint_def Cut_scheme [OF assms(1)] by (simp add: assms(2))

text \<open>
  The spellings of a unix endpoint agree: a bare absolute path, the path after
  \<^verbatim>\<open>unix://\<close> in any case, and the path without its leading slash after it.
\<close>

theorem listen_spellings:
  assumes "CHR '':'' \<notin> set scheme" "ToLower U scheme = ''unix''" "\<not> HasPrefix p ''/''" "\<not> Contains (''/'' @ p) ''://''"
  shows "listen_address U (''/'' @ p) = (''unix'', ''/'' @ p)
    \<and> listen_address U (scheme @ ''://'' @ ''/'' @ p) = (''unix'', ''/'' @ p)
    \<and> listen_address U (scheme @ ''://'' @ p) = (''unix'', ''/'' @ p)"
proof (intro conjI)
  have "HasPrefix (''/'' @ p) ''/''" by (simp add: HasPrefix_def)
  then show "listen_address U (scheme @ ''://'' @ ''/'' @ p) = (''unix'', ''/'' @ p)"
    by (simp only: listen_unix [OF assms(1,2)] if_True)
  have "Index (''/'' @ p) ''://'' = None" using assms(4) by (simp only: Contains_def not_not)
  then show "listen_address U (''/'' @ p) = (''unix'', ''/'' @ p)"
    using \<open>HasPrefix (''/'' @ p) ''/''\<close> by (simp add: listen_address_def split_endpoint_def Cut_def)
  show "listen_address U (scheme @ ''://'' @ p) = (''unix'', ''/'' @ p)"
    using assms(3) by (simp only: listen_unix [OF assms(1,2)] if_False)
qed

theorem listen_spellings_witness:
  "listen_address plain_unicode (''/'' @ ''plugin/csi.sock'') = (''unix'', ''/'' @ ''plugin/csi.sock'')
    \<and> listen_address plain_unicode (''Unix'' @ ''://'' @ ''/'' @ ''plugin/csi.sock'') = (''unix'', ''/'' @ ''plugin/csi.sock'')
    \<and> listen_address plain_unicode (''Unix'' @ ''://'' @ ''plugin/csi.sock'') = (''unix'', ''/'' @ ''plugin/csi.sock'')"
proof (rule listen_spellings)
  show "ToLower plain_unicode ''Unix'' = ''unix''" by code_simp
  show "\<not> HasPrefix ''plugin/csi.sock'' ''/''" by code_simp
  show "\<not> Contains (''/'' @ ''plugin/csi.sock'') ''://''" by code_simp
qed simp

end
