(* ===== verification/Driver.thy ===== *)
theory Driver
  imports Registry Server Node_Example
begin

text \<open>
  The driver: \<^verbatim>\<open>pkg/rclone/driver.go\<close>, the construction of the supervisor in
  \<^verbatim>\<open>pkg/rclone/reconcile.go\<close>, and the start of the program in \<^verbatim>\<open>cmd/csi-rclone-plugin/main.go\<close>. The
  packages \<^verbatim>\<open>scope\<close>, \<^verbatim>\<open>supervisor\<close> and \<^verbatim>\<open>fusemount\<close> are parameters, as is the parser of quantities.
\<close>

section \<open>Scopes\<close>

definition scopePrefix :: string where
  "scopePrefix = ''csi-rclone-''"

record 'l scope_config =
  sc_prefix :: string
  sc_description :: string
  sc_lifetime :: 'l
  sc_memory_max :: "64 word"
  sc_tasks_max :: "64 word"
  sc_unit :: "string \<Rightarrow> string"

definition scopeConfig :: "config \<Rightarrow> 'l \<Rightarrow> 'l scope_config" where
  "scopeConfig C lifetime = \<lparr>sc_prefix = scopePrefix, sc_description = ''csi-rclone mount'', sc_lifetime = lifetime,
     sc_memory_max = ScopeMemoryMax C, sc_tasks_max = ScopeTasksMax C,
     sc_unit = (\<lambda>volumeID. scopePrefix @ volumeDirName volumeID @ ''.scope'')\<rparr>"

section \<open>The supervised mounts\<close>

text \<open>The configuration of the supervisor: the mounts it reconciles, and how.\<close>

record 's supervisor_config =
  sup_scope :: 's
  sup_ids :: "environment \<Rightarrow> (go_error + string list) node_op"
  sup_reconcile :: "environment \<Rightarrow> string \<Rightarrow> unit node_op"

definition supervisor_ids :: "config \<Rightarrow> environment \<Rightarrow> (go_error + string list) node_op" where
  "supervisor_ids C E = do {
     states \<leftarrow> loadStates C E;
     ret (Inr (map VolumeID states)) }"

record ('l, 's, 'v, 'p) driver_libs =
  ParseLifetime :: "string \<Rightarrow> go_error + 'l"
  NewProber :: "nat \<Rightarrow> 'p"
  scope_New :: "'l scope_config \<Rightarrow> go_error + 's"
  supervisor_New :: "'s supervisor_config \<Rightarrow> go_error + 'v"

record ('s, 'v, 'p) mounts =
  m_scopes :: 's
  m_sup :: 'v
  m_prober :: 'p

definition newMounts :: "config \<Rightarrow> ('l, 's, 'v, 'p) driver_libs \<Rightarrow> go_error + ('s, 'v, 'p) mounts" where
  "newMounts C L =
     (case ParseLifetime L (DaemonLifetime C) of
        Inl e \<Rightarrow> Inl e
      | Inr lifetime \<Rightarrow>
          (case scope_New L (scopeConfig C lifetime) of
             Inl e \<Rightarrow> Inl e
           | Inr scopes \<Rightarrow>
               (case supervisor_New L \<lparr>sup_scope = scopes, sup_ids = supervisor_ids C, sup_reconcile = reconcile C\<rparr> of
                  Inl e \<Rightarrow> Inl e
                | Inr s \<Rightarrow> Inr \<lparr>m_scopes = scopes, m_sup = s, m_prober = NewProber L 0\<rparr>)))"

text \<open>\<^verbatim>\<open>run\<close>, with the supervisor's own loop as an argument.\<close>

definition run_mounts :: "config \<Rightarrow> environment \<Rightarrow> unit node_op \<Rightarrow> unit node_op" where
  "run_mounts C E sup_run = do {
     fi \<leftarrow> int_op E (Stat (StateDir C));
     case fi of Inl _ \<Rightarrow> ret () | Inr _ \<Rightarrow> sup_run }"

section \<open>The driver\<close>

definition DriverName :: string where
  "DriverName = ''csi-rclone''"

record ('s, 'v, 'p) driver =
  drv_nodeID :: string
  drv_endpoint :: string
  drv_mounts :: "('s, 'v, 'p) mounts"

definition NewDriver :: "config \<Rightarrow> ('l, 's, 'v, 'p) driver_libs \<Rightarrow> string \<Rightarrow> string \<Rightarrow> go_error + ('s, 'v, 'p) driver" where
  "NewDriver C L nodeID endpoint =
     (case newMounts C L of
        Inl e \<Rightarrow> Inl e
      | Inr m \<Rightarrow> Inr \<lparr>drv_nodeID = nodeID, drv_endpoint = endpoint, drv_mounts = m\<rparr>)"

text \<open>
  \<^verbatim>\<open>Run\<close>: the goroutine that supervises the mounts, with the supervisor's loop as an argument, and
  what the calling goroutine does meanwhile.
\<close>

definition Run :: "config \<Rightarrow> environment \<Rightarrow> unit node_op \<Rightarrow> server_world \<Rightarrow> ('s, 'v, 'p) driver \<Rightarrow> unit node_op \<times> server_action list" where
  "Run C E sup_run W d = (run_mounts C E sup_run, serve (go_unicode C) W (drv_endpoint d))"

datatype plugin_capability = CONTROLLER_SERVICE

definition GetPluginInfo :: "string \<Rightarrow> string \<times> string" where
  "GetPluginInfo DriverVersion = (DriverName, DriverVersion)"

definition GetPluginCapabilities :: "plugin_capability list" where
  "GetPluginCapabilities = [CONTROLLER_SERVICE]"

text \<open>An empty answer, without the optional field \<^verbatim>\<open>ready\<close>.\<close>

definition Probe :: "bool option" where
  "Probe = None"

section \<open>The start of the program\<close>

record 'q quantities =
  ParseQuantity :: "string \<Rightarrow> go_error + 'q"
  q_Sign :: "'q \<Rightarrow> int"
  q_Value :: "'q \<Rightarrow> 64 word"

text \<open>
  \<^verbatim>\<open>handle\<close> up to the driver's \<^verbatim>\<open>Run\<close>: the message of \<^verbatim>\<open>klog.Fatalf\<close>, or the settings and
  the driver.
\<close>

definition handle :: "config \<Rightarrow> ('l, 's, 'v, 'p) driver_libs \<Rightarrow> 'q quantities \<Rightarrow> string \<Rightarrow> string \<Rightarrow> string \<Rightarrow>
    string + (config \<times> ('s, 'v, 'p) driver)" where
  "handle C L Q scopeMemoryMax nodeID endpoint =
     (let limited = (if scopeMemoryMax = [] then Inr C
            else case ParseQuantity Q scopeMemoryMax of
              Inl _ \<Rightarrow> Inl (''invalid --scope-memory-max '' @ Quote (go_unicode C) scopeMemoryMax)
            | Inr q \<Rightarrow> if q_Sign Q q \<le> 0 then Inl (''invalid --scope-memory-max '' @ Quote (go_unicode C) scopeMemoryMax)
                       else Inr (C\<lparr>ScopeMemoryMax := q_Value Q q\<rparr>))
      in case limited of
           Inl m \<Rightarrow> Inl m
         | Inr C' \<Rightarrow>
             (case NewDriver C' L nodeID endpoint of
                Inl e \<Rightarrow> Inl (''starting the driver: '' @ Error e)
              | Inr d \<Rightarrow> Inr (C', d)))"

text \<open>What the command \<^verbatim>\<open>version\<close> prints.\<close>

definition version_text :: "string \<Rightarrow> string" where
  "version_text DriverVersion =
     ''csi-rclone plugin'' @ [CHR 0x0A] @ ''Version:    '' @ DriverVersion @ [CHR 0x0A]"

section \<open>What the supervisor is told\<close>

lemma registry_dom: "dom (registry_of C h) = dom (stored C h)"
  by (simp add: registry_of_def dom_def)

text \<open>
  Claim C37. The supervisor is told of exactly the mounts in the registry, so it reconciles each of
  them and nothing else, and asking changes nothing.
\<close>

theorem supervisor_ids_registry:
  assumes "store_law C E"
  shows "\<exists>ids. result (supervisor_ids C E) w = Inr ids \<and> set ids = dom (registry_of C (history w))
    \<and> registry_of C (history (snd (run_state (supervisor_ids C E) w))) = registry_of C (history w)"
proof -
  have ids: "VolumeID ` set sts = dom (registry_of C (history w))"
    if states: "ans_states E (history w) (stateStore C) = (sts, errs)" for sts errs
    using listed_states [OF assms states] by (fastforce simp: current_def dom_def)
  have "runs (supervisor_ids C E) (history w) (\<lambda>r h'. \<exists>ids. r = Inr ids \<and> set ids = dom (registry_of C (history w))
      \<and> registry_of C h' = registry_of C (history w))"
    unfolding supervisor_ids_def loadStates_def
    by (intro runs_bind runs_load_all runs_return) (simp add: image_image ids)
  from runsD [OF this] show ?thesis .
qed

text \<open>
  A plugin without the state directory, as the controller, leaves the mounts alone: it
  looks for the directory and returns, whatever the supervisor would do.
\<close>

theorem run_without_state_dir:
  assumes "\<And>h. isl (ans_int E h (Stat (StateDir C)))"
  shows "\<exists>e. trace (run_mounts C E sup_run) w = [IntEv (Stat (StateDir C)) (Inl e)]"
proof -
  obtain e where "ans_int E (history w) (Stat (StateDir C)) = Inl e" using assms unfolding isl_def by blast
  then show ?thesis by (simp add: trace_def run_mounts_def int_op_def emit_def run_simps Let_def)
qed

text \<open>
  Claim C38. A limit on the memory of the scopes is a positive number and reaches the configuration of
  the scopes as the number that was given, not as another word; without one there is no limit.
\<close>

theorem handle_memory_limit:
  assumes "\<And>q. q_Sign Q q > 0 \<Longrightarrow> 0 < sint (q_Value Q q)"
    and "handle C L Q limit nodeID endpoint = Inr (C', d)"
  shows "if limit = [] then C' = C
    else \<exists>q. ParseQuantity Q limit = Inr q \<and> uint (sc_memory_max (scopeConfig C' lifetime)) = sint (q_Value Q q)
      \<and> sc_memory_max (scopeConfig C' lifetime) \<noteq> 0"
proof (cases "limit = []")
  case True
  then show ?thesis using assms(2) by (auto simp: handle_def split: sum.splits)
next
  case False
  then obtain q where q: "ParseQuantity Q limit = Inr q" "q_Sign Q q > 0" "C' = C\<lparr>ScopeMemoryMax := q_Value Q q\<rparr>"
    using assms(2) by (auto simp: handle_def Let_def split: sum.splits if_splits)
  have pos: "0 < sint (q_Value Q q)" by (rule assms(1) [OF q(2)])
  then have "uint (q_Value Q q) = sint (q_Value Q q)"
    using sint_lt [of "q_Value Q q"] by (simp add: uint_sint take_bit_int_eq_self)
  then show ?thesis using False q pos by (auto simp: scopeConfig_def)
qed

section \<open>Examples\<close>

theorem supervisor_ids_registry_witness:
  "\<exists>ids. result (supervisor_ids plain_config (sim_env plain_config)) \<lparr>history = [], clock = 0\<rparr> = Inr ids
    \<and> set ids = dom (registry_of plain_config (history \<lparr>history = [], clock = 0\<rparr>))
    \<and> registry_of plain_config (history (snd (run_state (supervisor_ids plain_config
        (sim_env plain_config)) \<lparr>history = [], clock = 0\<rparr>)))
      = registry_of plain_config (history \<lparr>history = [], clock = 0\<rparr>)"
  by (rule supervisor_ids_registry [OF sim_env_store])

theorem run_without_state_dir_witness:
  "\<exists>e. trace (run_mounts plain_config (sim_env plain_config) (ret ())) \<lparr>history = [], clock = 0\<rparr>
     = [IntEv (Stat (StateDir plain_config)) (Inl e)]"
  by (rule run_without_state_dir) (simp add: sim_env_def)

text \<open>Libraries that accept everything, and a quantity that is capped at the largest value.\<close>

definition example_libs :: "(string, unit, unit, unit) driver_libs" where
  "example_libs = \<lparr>ParseLifetime = (\<lambda>s. Inr s), NewProber = (\<lambda>_. ()), scope_New = (\<lambda>c. Inr ()), supervisor_New = (\<lambda>c. Inr ())\<rparr>"

definition example_quantities :: "bool quantities" where
  "example_quantities = \<lparr>ParseQuantity = (\<lambda>s. if s = ''2Gi'' then Inr True else Inr False),
     q_Sign = (\<lambda>q. if q then 1 else 0), q_Value = (\<lambda>q. if q then 2147483648 else 0)\<rparr>"

theorem handle_memory_limit_witness:
  "\<exists>q. ParseQuantity example_quantities ''2Gi'' = Inr q
     \<and> uint (sc_memory_max (scopeConfig (plain_config\<lparr>ScopeMemoryMax := 2147483648\<rparr>) ''auto'')) = sint (q_Value example_quantities q)
     \<and> sc_memory_max (scopeConfig (plain_config\<lparr>ScopeMemoryMax := 2147483648\<rparr>) ''auto'') \<noteq> 0"
proof -
  have "handle plain_config example_libs example_quantities ''2Gi'' ''node'' ''/csi.sock'' =
    Inr (plain_config\<lparr>ScopeMemoryMax := 2147483648\<rparr>,
      \<lparr>drv_nodeID = ''node'', drv_endpoint = ''/csi.sock'', drv_mounts = \<lparr>m_scopes = (), m_sup = (), m_prober = ()\<rparr>\<rparr>)"
    by (simp add: handle_def example_quantities_def example_libs_def NewDriver_def newMounts_def)
  moreover have "0 < sint (q_Value example_quantities q)" if "q_Sign example_quantities q > 0" for q
    using that by (cases q) (simp_all add: example_quantities_def)
  ultimately show ?thesis
    using handle_memory_limit [of example_quantities plain_config example_libs "''2Gi''" _ _ _ _ "''auto''"]
    by (simp only: list.distinct if_False)
qed

end
