(* ===== verification/Command_Line.thy ===== *)
theory Command_Line
  imports Driver
begin

text \<open>
  The command line, \<^verbatim>\<open>cmd/csi-rclone-plugin/main.go\<close>: the flags with the variables they set and
  their defaults, the two commands, and how the process ends. The parser of command lines (the
  packages cobra and pflag) is a parameter, as are the flags that klog declares.
\<close>

section \<open>Variables and flags\<close>

text \<open>The variables of \<^verbatim>\<open>main.go\<close>, with those of the package \<^verbatim>\<open>rclone\<close> that flags set.\<close>

record plugin_vars =
  pv_endpoint :: string
  pv_nodeID :: string
  pv_scopeMemoryMax :: string
  pv_config :: config

datatype flag_value =
    StringValue (string_value: string)
  | Uint64Value (uint64_value: "64 word")
  | BoolValue (bool_value: bool)
  | StringSliceValue (slice_value: "string list")

text \<open>
  A declared flag: its name, its default, whether it has to be given, and the variable it sets, as
  an update of the variables. Declaring a flag sets its variable to the default.
\<close>

record flag_spec =
  fl_name :: string
  fl_default :: flag_value
  fl_required :: bool
  fl_set :: "flag_value \<Rightarrow> plugin_vars \<Rightarrow> plugin_vars"

definition StringVar :: "(string \<Rightarrow> plugin_vars \<Rightarrow> plugin_vars) \<Rightarrow> string \<Rightarrow> string \<Rightarrow> flag_spec" where
  "StringVar upd name def = \<lparr>fl_name = name, fl_default = StringValue def, fl_required = False, fl_set = upd \<circ> string_value\<rparr>"

definition Uint64Var :: "(64 word \<Rightarrow> plugin_vars \<Rightarrow> plugin_vars) \<Rightarrow> string \<Rightarrow> 64 word \<Rightarrow> flag_spec" where
  "Uint64Var upd name def = \<lparr>fl_name = name, fl_default = Uint64Value def, fl_required = False, fl_set = upd \<circ> uint64_value\<rparr>"

definition BoolVar :: "(bool \<Rightarrow> plugin_vars \<Rightarrow> plugin_vars) \<Rightarrow> string \<Rightarrow> bool \<Rightarrow> flag_spec" where
  "BoolVar upd name def = \<lparr>fl_name = name, fl_default = BoolValue def, fl_required = False, fl_set = upd \<circ> bool_value\<rparr>"

definition StringSliceVar :: "(string list \<Rightarrow> plugin_vars \<Rightarrow> plugin_vars) \<Rightarrow> string \<Rightarrow> string list \<Rightarrow> flag_spec" where
  "StringSliceVar upd name def =
     \<lparr>fl_name = name, fl_default = StringSliceValue def, fl_required = False, fl_set = upd \<circ> slice_value\<rparr>"

lemmas flag_defs = StringVar_def Uint64Var_def BoolVar_def StringSliceVar_def

definition set_config :: "(config \<Rightarrow> config) \<Rightarrow> plugin_vars \<Rightarrow> plugin_vars" where
  "set_config f vs = vs\<lparr>pv_config := f (pv_config vs)\<rparr>"

text \<open>\<^verbatim>\<open>MarkFlagRequired\<close> on a flag that is declared.\<close>

definition required :: "flag_spec \<Rightarrow> flag_spec" where
  "required f = f\<lparr>fl_required := True\<rparr>"

definition plugin_flags :: "flag_spec list" where
  "plugin_flags =
     [required (StringVar (\<lambda>s. pv_nodeID_update (\<lambda>_. s)) ''nodeid'' []),
      required (StringVar (\<lambda>s. pv_endpoint_update (\<lambda>_. s)) ''endpoint'' []),
      StringVar (\<lambda>s. set_config (DaemonLifetime_update (\<lambda>_. s))) ''daemon-lifetime'' ''auto'',
      StringVar (\<lambda>s. pv_scopeMemoryMax_update (\<lambda>_. s)) ''scope-memory-max'' [],
      Uint64Var (\<lambda>n. set_config (ScopeTasksMax_update (\<lambda>_. n))) ''scope-tasks-max'' 0,
      BoolVar (\<lambda>b. set_config (ReuseMounts_update (\<lambda>_. b))) ''reuse-mounts'' True,
      BoolVar (\<lambda>b. set_config (UnrestrictedOptions_update (\<lambda>_. b))) ''unrestricted-rclone-options'' False,
      StringSliceVar (\<lambda>ss. set_config (AllowedBackends_update (\<lambda>_. ss))) ''allowed-backends'' [],
      StringSliceVar (\<lambda>ss. set_config (AllowedEndpoints_update (\<lambda>_. ss))) ''allowed-endpoints'' []]"

text \<open>The flags of klog, by name and default; their variables are klog's own.\<close>

type_synonym klog_flags = "(string \<times> flag_value) list"

definition AddGoFlagSet :: "klog_flags \<Rightarrow> flag_spec list" where
  "AddGoFlagSet klog = map (\<lambda>(n, v). \<lparr>fl_name = n, fl_default = v, fl_required = False, fl_set = (\<lambda>_ vs. vs)\<rparr>) klog"

definition declare_flags :: "flag_spec list \<Rightarrow> plugin_vars \<Rightarrow> plugin_vars" where
  "declare_flags fs vs = foldl (\<lambda>vs f. fl_set f (fl_default f) vs) vs fs"

text \<open>Setting a flag that was given.\<close>

definition set_flag :: "flag_spec list \<Rightarrow> plugin_vars \<Rightarrow> string \<times> flag_value \<Rightarrow> plugin_vars" where
  "set_flag fs vs nv = (case find (\<lambda>f. fl_name f = fst nv) fs of Some f \<Rightarrow> fl_set f (snd nv) vs | None \<Rightarrow> vs)"

section \<open>Commands\<close>

record cobra_command =
  cmd_use :: string
  cmd_flags :: "flag_spec list"
  cmd_commands :: "(string \<times> flag_spec list) list"

definition root_command :: "klog_flags \<Rightarrow> cobra_command" where
  "root_command klog = \<lparr>cmd_use = ''rclone'', cmd_flags = AddGoFlagSet klog @ plugin_flags, cmd_commands = [(''version'', [])]\<rparr>"

text \<open>
  What the library makes of a command line: an error, the help, or a command to run with the flags
  that were given, each with its value.
\<close>

datatype cobra_outcome =
    CobraError go_error
  | CobraHelp
  | CobraRun string "(string \<times> flag_value) list"

type_synonym cobra = "cobra_command \<Rightarrow> string list \<Rightarrow> cobra_outcome"

text \<open>What the process does, in order. After \<open>LogFatal\<close> and \<open>Exit\<close> there is nothing more.\<close>

datatype ('s, 'v, 'p) process_action =
    Stdout string
  | Stderr string
  | LogFatal string
  | Drive config "('s, 'v, 'p) driver"
  | ServerDoes server_action
  | Exit nat

text \<open>\<^verbatim>\<open>handle\<close> with the variables as the flags left them, and what follows when the server returns.\<close>

definition run_handle :: "('l, 's, 'v, 'p) driver_libs \<Rightarrow> 'q quantities \<Rightarrow> server_world \<Rightarrow> plugin_vars \<Rightarrow> ('s, 'v, 'p) process_action list" where
  "run_handle L Q W vs =
     (case handle (pv_config vs) L Q (pv_scopeMemoryMax vs) (pv_nodeID vs) (pv_endpoint vs) of
        Inl m \<Rightarrow> [LogFatal m]
      | Inr (C, d) \<Rightarrow>
          let acts = serve (go_unicode C) W (drv_endpoint d)
          in Drive C d # map ServerDoes acts @ (if list_ex is_Fatal acts then [] else [Exit 0]))"

definition main :: "unicode \<Rightarrow> (string \<Rightarrow> string option) \<Rightarrow> ('l, 's, 'v, 'p) driver_libs \<Rightarrow> 'q quantities \<Rightarrow> server_world \<Rightarrow> cobra \<Rightarrow>
    klog_flags \<Rightarrow> string \<Rightarrow> string list \<Rightarrow> ('s, 'v, 'p) process_action list" where
  "main U ip L Q W execute klog DriverVersion args =
     (let cmd = root_command klog;
          vs = declare_flags (cmd_flags cmd)
                 \<lparr>pv_endpoint = [], pv_nodeID = [], pv_scopeMemoryMax = [], pv_config = default_config U ip\<rparr>
      in case execute cmd args of
           CobraError e \<Rightarrow> [Stderr (Error e), Exit 1]
         | CobraHelp \<Rightarrow> [Exit 0]
         | CobraRun use given \<Rightarrow>
             if use = ''version'' then [Stdout (version_text DriverVersion), Exit 0]
             else run_handle L Q W (foldl (set_flag (cmd_flags cmd)) vs given))"

section \<open>What the flags set\<close>

text \<open>
  What the plugin relies on of the library: a command that runs is one of those declared, and for
  the root command every flag is given at most once with a value of its declared kind, and every
  required flag is given.
\<close>

fun same_kind :: "flag_value \<Rightarrow> flag_value \<Rightarrow> bool" where
  "same_kind (StringValue _) (StringValue _) = True"
| "same_kind (Uint64Value _) (Uint64Value _) = True"
| "same_kind (BoolValue _) (BoolValue _) = True"
| "same_kind (StringSliceValue _) (StringSliceValue _) = True"
| "same_kind _ _ = False"

definition given_ok :: "flag_spec list \<Rightarrow> (string \<times> flag_value) list \<Rightarrow> bool" where
  "given_ok fs given \<longleftrightarrow> distinct (map fst given)
     \<and> list_all (\<lambda>(n, v). list_ex (\<lambda>f. fl_name f = n \<and> same_kind v (fl_default f)) fs) given
     \<and> list_all (\<lambda>f. fl_required f \<longrightarrow> fl_name f \<in> fst ` set given) fs"

definition cobra_law :: "cobra \<Rightarrow> bool" where
  "cobra_law execute \<longleftrightarrow> (\<forall>cmd args use given. execute cmd args = CobraRun use given \<longrightarrow>
     use \<in> fst ` set (cmd_commands cmd) \<or> use = cmd_use cmd \<and> given_ok (cmd_flags cmd) given)"

definition flag_names :: "flag_spec list \<Rightarrow> string set" where
  "flag_names fs = fl_name ` set fs"

lemma set_flag_klog:
  assumes "fst ` set klog \<inter> flag_names fs = {}"
  shows "set_flag (AddGoFlagSet klog @ fs) = set_flag fs"
proof (intro ext)
  fix vs nv
  have "set_flag (AddGoFlagSet klog @ fs) vs nv = set_flag fs vs nv" if "fst nv \<notin> fst ` set klog"
    using that by (induction klog) (auto simp: AddGoFlagSet_def set_flag_def)
  moreover have "set_flag (AddGoFlagSet klog @ fs) vs nv = vs" if "fst nv \<in> fst ` set klog"
    using that by (induction klog) (auto simp: AddGoFlagSet_def set_flag_def)
  moreover have "set_flag fs vs nv = vs" if "fst nv \<notin> flag_names fs"
    using that by (induction fs) (auto simp: set_flag_def flag_names_def)
  ultimately show "set_flag (AddGoFlagSet klog @ fs) vs nv = set_flag fs vs nv"
    using assms by (metis disjoint_iff)
qed

lemma declare_klog: "declare_flags (AddGoFlagSet klog @ fs) vs = declare_flags fs vs"
  by (induction klog) (auto simp: AddGoFlagSet_def declare_flags_def)

text \<open>A field that one flag sets has the value given for that flag, and keeps its own without one.\<close>

definition flag_or :: "(string \<times> flag_value) list \<Rightarrow> string \<Rightarrow> (flag_value \<Rightarrow> 'a) \<Rightarrow> 'a \<Rightarrow> 'a" where
  "flag_or given n val def = (case map_of given n of Some v \<Rightarrow> val v | None \<Rightarrow> def)"

lemma field_of_flags:
  assumes "distinct (map fst given)" "\<And>vs m v. field (set_flag fs vs (m, v)) = (if m = n then val v else field vs)"
  shows "field (foldl (set_flag fs) vs given) = flag_or given n val (field vs)"
  using assms(1)
proof (induction given arbitrary: vs)
  case (Cons nv given)
  obtain m v where nv: "nv = (m, v)" by fastforce
  show ?case
  proof (cases "m = n")
    case True
    then have "map_of given n = None" using Cons.prems nv by (simp add: map_of_eq_None_iff)
    then show ?thesis using Cons nv True by (simp add: assms(2) flag_or_def)
  next
    case False
    then show ?thesis using Cons nv by (simp add: assms(2) flag_or_def split: option.split)
  qed
qed (simp add: flag_or_def)

lemma set_flag_fields:
  "pv_nodeID (set_flag plugin_flags vs (m, v)) = (if m = ''nodeid'' then string_value v else pv_nodeID vs)"
  "pv_endpoint (set_flag plugin_flags vs (m, v)) = (if m = ''endpoint'' then string_value v else pv_endpoint vs)"
  "pv_scopeMemoryMax (set_flag plugin_flags vs (m, v)) = (if m = ''scope-memory-max'' then string_value v else pv_scopeMemoryMax vs)"
  "DaemonLifetime (pv_config (set_flag plugin_flags vs (m, v))) = (if m = ''daemon-lifetime'' then string_value v else DaemonLifetime (pv_config vs))"
  "ScopeTasksMax (pv_config (set_flag plugin_flags vs (m, v))) = (if m = ''scope-tasks-max'' then uint64_value v else ScopeTasksMax (pv_config vs))"
  "ReuseMounts (pv_config (set_flag plugin_flags vs (m, v))) = (if m = ''reuse-mounts'' then bool_value v else ReuseMounts (pv_config vs))"
  "UnrestrictedOptions (pv_config (set_flag plugin_flags vs (m, v))) = (if m = ''unrestricted-rclone-options'' then bool_value v else UnrestrictedOptions (pv_config vs))"
  "AllowedBackends (pv_config (set_flag plugin_flags vs (m, v))) = (if m = ''allowed-backends'' then slice_value v else AllowedBackends (pv_config vs))"
  "AllowedEndpoints (pv_config (set_flag plugin_flags vs (m, v))) = (if m = ''allowed-endpoints'' then slice_value v else AllowedEndpoints (pv_config vs))"
  by (simp_all add: set_flag_def plugin_flags_def required_def flag_defs set_config_def)

lemma plugin_fields:
  assumes "distinct (map fst given)"
  shows
    "pv_nodeID (foldl (set_flag plugin_flags) vs given) =
      flag_or given ''nodeid'' string_value (pv_nodeID vs)"
    "pv_endpoint (foldl (set_flag plugin_flags) vs given) =
      flag_or given ''endpoint'' string_value (pv_endpoint vs)"
    "pv_scopeMemoryMax (foldl (set_flag plugin_flags) vs given) =
      flag_or given ''scope-memory-max'' string_value (pv_scopeMemoryMax vs)"
    "DaemonLifetime (pv_config (foldl (set_flag plugin_flags) vs given)) =
      flag_or given ''daemon-lifetime'' string_value (DaemonLifetime (pv_config vs))"
    "ScopeTasksMax (pv_config (foldl (set_flag plugin_flags) vs given)) =
      flag_or given ''scope-tasks-max'' uint64_value (ScopeTasksMax (pv_config vs))"
    "ReuseMounts (pv_config (foldl (set_flag plugin_flags) vs given)) =
      flag_or given ''reuse-mounts'' bool_value (ReuseMounts (pv_config vs))"
    "UnrestrictedOptions (pv_config (foldl (set_flag plugin_flags) vs given)) =
      flag_or given ''unrestricted-rclone-options'' bool_value (UnrestrictedOptions (pv_config vs))"
    "AllowedBackends (pv_config (foldl (set_flag plugin_flags) vs given)) =
      flag_or given ''allowed-backends'' slice_value (AllowedBackends (pv_config vs))"
    "AllowedEndpoints (pv_config (foldl (set_flag plugin_flags) vs given)) =
      flag_or given ''allowed-endpoints'' slice_value (AllowedEndpoints (pv_config vs))"
  using field_of_flags [OF assms, where field = "\<lambda>vs. pv_nodeID vs", OF set_flag_fields(1)]
    field_of_flags [OF assms, where field = "\<lambda>vs. pv_endpoint vs", OF set_flag_fields(2)]
    field_of_flags [OF assms, where field = "\<lambda>vs. pv_scopeMemoryMax vs", OF set_flag_fields(3)]
    field_of_flags [OF assms, where field = "\<lambda>vs. DaemonLifetime (pv_config vs)", OF set_flag_fields(4)]
    field_of_flags [OF assms, where field = "\<lambda>vs. ScopeTasksMax (pv_config vs)", OF set_flag_fields(5)]
    field_of_flags [OF assms, where field = "\<lambda>vs. ReuseMounts (pv_config vs)", OF set_flag_fields(6)]
    field_of_flags [OF assms, where field = "\<lambda>vs. UnrestrictedOptions (pv_config vs)", OF set_flag_fields(7)]
    field_of_flags [OF assms, where field = "\<lambda>vs. AllowedBackends (pv_config vs)", OF set_flag_fields(8)]
    field_of_flags [OF assms, where field = "\<lambda>vs. AllowedEndpoints (pv_config vs)", OF set_flag_fields(9)]
  by blast+

text \<open>The settings and the driver that the flags given ask for; a flag that is not given has its default.\<close>

definition configured :: "(string \<times> flag_value) list \<Rightarrow> config \<Rightarrow> ('s, 'v, 'p) driver \<Rightarrow> bool" where
  "configured given C d \<longleftrightarrow>
     map_of given ''nodeid'' = Some (StringValue (drv_nodeID d))
     \<and> map_of given ''endpoint'' = Some (StringValue (drv_endpoint d))
     \<and> DaemonLifetime C = flag_or given ''daemon-lifetime'' string_value ''auto''
     \<and> (flag_or given ''scope-memory-max'' string_value [] = [] \<longrightarrow> ScopeMemoryMax C = 0)
     \<and> ScopeTasksMax C = flag_or given ''scope-tasks-max'' uint64_value 0
     \<and> ReuseMounts C = flag_or given ''reuse-mounts'' bool_value True
     \<and> UnrestrictedOptions C = flag_or given ''unrestricted-rclone-options'' bool_value False
     \<and> AllowedBackends C = flag_or given ''allowed-backends'' slice_value []
     \<and> AllowedEndpoints C = flag_or given ''allowed-endpoints'' slice_value []
     \<and> StateDir C = ''/var/lib/csi-rclone''"

lemma handle_config:
  assumes "handle C L Q limit nodeID endpoint = Inr (C', d)"
  shows "drv_nodeID d = nodeID" "drv_endpoint d = endpoint" "C' = C\<lparr>ScopeMemoryMax := ScopeMemoryMax C'\<rparr>" "limit = [] \<Longrightarrow> C' = C"
  using assms by (auto simp: handle_def NewDriver_def Let_def split: sum.splits if_splits)

lemma given_string:
  assumes given: "given_ok (AddGoFlagSet klog @ plugin_flags) given" and klog: "fst ` set klog \<inter> flag_names plugin_flags = {}"
    and n: "n \<in> {''nodeid'', ''endpoint''}"
  shows "\<exists>s. map_of given n = Some (StringValue s)"
proof -
  have names: "n \<in> flag_names plugin_flags" using n by (auto simp: flag_names_def plugin_flags_def required_def flag_defs)
  have "n \<in> fst ` set given"
    using given n by (auto simp: given_ok_def plugin_flags_def required_def flag_defs)
  then obtain v where v: "map_of given n = Some v" by (metis map_of_eq_None_iff not_Some_eq)
  then obtain f where f: "f \<in> set (AddGoFlagSet klog @ plugin_flags)" "fl_name f = n" "same_kind v (fl_default f)"
    using given map_of_SomeD [OF v] by (fastforce simp: given_ok_def list_all_iff list_ex_iff)
  have "f \<notin> set (AddGoFlagSet klog)" using names klog f(2) by (auto simp: AddGoFlagSet_def)
  then have "f \<in> set plugin_flags" using f(1) by simp
  then have "\<exists>s. fl_default f = StringValue s" using f(2) n by (auto simp: plugin_flags_def required_def flag_defs)
  then show ?thesis using v f(3) by (cases v) auto
qed

lemma set_flag_kept:
  "StateDir (pv_config (foldl (set_flag plugin_flags) vs given)) = StateDir (pv_config vs)"
  "ScopeMemoryMax (pv_config (foldl (set_flag plugin_flags) vs given)) = ScopeMemoryMax (pv_config vs)"
proof -
  have "StateDir (pv_config (set_flag plugin_flags vs nv)) = StateDir (pv_config vs)"
    "ScopeMemoryMax (pv_config (set_flag plugin_flags vs nv)) = ScopeMemoryMax (pv_config vs)" for vs nv
    by (simp_all add: set_flag_def plugin_flags_def required_def flag_defs set_config_def)
  then show "StateDir (pv_config (foldl (set_flag plugin_flags) vs given)) = StateDir (pv_config vs)"
    "ScopeMemoryMax (pv_config (foldl (set_flag plugin_flags) vs given)) = ScopeMemoryMax (pv_config vs)"
    by (induction given arbitrary: vs) simp_all
qed

lemma declared:
  "declare_flags plugin_flags \<lparr>pv_endpoint = [], pv_nodeID = [], pv_scopeMemoryMax = [], pv_config = default_config U ip\<rparr>
     = \<lparr>pv_endpoint = [], pv_nodeID = [], pv_scopeMemoryMax = [], pv_config = default_config U ip\<rparr>"
  by (simp add: declare_flags_def plugin_flags_def required_def flag_defs set_config_def default_config_def)

lemma drive_runs:
  "Drive C d \<in> set (main U ip L Q W execute klog DriverVersion args) \<Longrightarrow>
   \<exists>use given. execute (root_command klog) args = CobraRun use given \<and> use \<noteq> ''version''"
  by (auto simp: main_def Let_def split: cobra_outcome.splits if_splits)

lemma drive_configured:
  assumes law: "cobra_law execute" and klog: "fst ` set klog \<inter> flag_names plugin_flags = {}"
    and drive: "Drive C d \<in> set (main U ip L Q W execute klog DriverVersion args)"
    and run: "execute (root_command klog) args = CobraRun use given"
  shows "use = ''rclone''" "configured given C d"
proof -
  let ?vs = "\<lparr>pv_endpoint = [], pv_nodeID = [], pv_scopeMemoryMax = [], pv_config = default_config U ip\<rparr>"
  have use: "use \<noteq> ''version''" using drive_runs [OF drive] run by simp
  have given: "use = ''rclone''" "given_ok (AddGoFlagSet klog @ plugin_flags) given"
    using law run use unfolding cobra_law_def by (fastforce simp: root_command_def)+
  let ?vs' = "foldl (set_flag plugin_flags) ?vs given"
  have "Drive C d \<in> set (run_handle L Q W ?vs')"
    using drive run use by (simp add: main_def Let_def root_command_def set_flag_klog [OF klog] declare_klog declared)
  then have h: "handle (pv_config ?vs') L Q (pv_scopeMemoryMax ?vs') (pv_nodeID ?vs') (pv_endpoint ?vs') = Inr (C, d)"
    by (auto simp: run_handle_def Let_def split: sum.splits if_splits)
  obtain m where C: "C = pv_config ?vs'\<lparr>ScopeMemoryMax := m\<rparr>" using handle_config(3) [OF h] by metis
  have fields: "distinct (map fst given)" using given(2) by (simp add: given_ok_def)
  have mem: "ScopeMemoryMax C = ScopeMemoryMax (default_config U ip)" if "flag_or given ''scope-memory-max'' string_value [] = []"
    using handle_config(4) [OF h] that by (simp add: plugin_fields [OF fields] set_flag_kept)
  have str: "map_of given n = Some (StringValue (flag_or given n string_value []))" if "n \<in> {''nodeid'', ''endpoint''}" for n
    using given_string [OF given(2) klog that] by (auto simp: flag_or_def)
  show "configured given C d"
    using str mem unfolding configured_def
    by (simp add: C handle_config(1,2) [OF h] plugin_fields [OF fields] set_flag_kept default_config_def)
  show "use = ''rclone''" by (rule given(1))
qed

text \<open>
  Claim C34. A plugin that starts to drive was told its node and endpoint, and each of its settings is
  the value given for the flag of that setting, or the flag's default.
\<close>

theorem main_configures:
  assumes "cobra_law execute" "fst ` set klog \<inter> flag_names plugin_flags = {}"
    and "Drive C d \<in> set (main U ip L Q W execute klog DriverVersion args)"
  shows "\<exists>given. execute (root_command klog) args = CobraRun ''rclone'' given \<and> configured given C d"
  using drive_runs [OF assms(3)] drive_configured [OF assms] by metis

section \<open>Examples\<close>

text \<open>A parser that knows one command line, and refuses it where a flag of it is not declared.\<close>

definition example_given :: "(string \<times> flag_value) list" where
  "example_given = [(''nodeid'', StringValue ''node''), (''endpoint'', StringValue ''unix:///csi.sock''),
     (''allowed-backends'', StringSliceValue [''s3''])]"

definition example_cobra :: cobra where
  "example_cobra cmd args =
     (if args = [''--nodeid=node'', ''--endpoint=unix:///csi.sock'', ''--allowed-backends=s3'']
        \<and> given_ok (cmd_flags cmd) example_given
      then CobraRun (cmd_use cmd) example_given else CobraError (Errorf ''unknown flag''))"

lemma example_cobra_law: "cobra_law example_cobra"
  by (auto simp: cobra_law_def example_cobra_def split: if_splits)

definition example_server :: server_world where
  "example_server = \<lparr>sw_remove = (\<lambda>_. None), sw_listen = (\<lambda>_ _. None), sw_serve = (\<lambda>_ _. None)\<rparr>"

definition example_klog :: klog_flags where
  "example_klog = [(''v'', StringValue ''0'')]"

definition example_args :: "string list" where
  "example_args = [''--nodeid=node'', ''--endpoint=unix:///csi.sock'', ''--allowed-backends=s3'']"

definition s3_config :: config where
  "s3_config = plain_config\<lparr>AllowedBackends := [''s3'']\<rparr>"

definition example_driver :: "(unit, unit, unit) driver" where
  "example_driver = \<lparr>drv_nodeID = ''node'', drv_endpoint = ''unix:///csi.sock'', drv_mounts = \<lparr>m_scopes = (), m_sup = (), m_prober = ()\<rparr>\<rparr>"

lemma example_klog_apart: "fst ` set example_klog \<inter> flag_names plugin_flags = {}"
  by (simp add: example_klog_def flag_names_def plugin_flags_def required_def flag_defs)

lemma example_execute: "example_cobra (root_command example_klog) example_args = CobraRun ''rclone'' example_given"
  by (simp add: example_cobra_def example_args_def root_command_def given_ok_def AddGoFlagSet_def plugin_flags_def required_def
      flag_defs example_given_def example_klog_def)

lemma example_drive:
  "Drive s3_config example_driver \<in> set (main plain_unicode (\<lambda>_. None) example_libs example_quantities example_server example_cobra
     example_klog ''1.0'' example_args)"
  unfolding main_def example_execute Let_def
  by (simp add: root_command_def AddGoFlagSet_def plugin_flags_def required_def flag_defs example_given_def example_klog_def
      run_handle_def declare_flags_def set_flag_def set_config_def handle_def NewDriver_def newMounts_def example_libs_def Let_def
      s3_config_def example_driver_def plain_config_def default_config_def)

theorem main_configures_witness:
  "\<exists>given. example_cobra (root_command example_klog) example_args = CobraRun ''rclone'' given
    \<and> configured given s3_config example_driver"
  by (rule main_configures [OF example_cobra_law example_klog_apart example_drive])

end
