(* ===== verification/Spec2Isabelle.thy ===== *)
theory Spec2Isabelle
  imports Controller Node_Removal Node_Start Node_Runs Node_Repair Node_Env Passed_Inputs Volume_Flags Uploads Mount_Id Config_File Command_Line
begin

text \<open>
  \<^bold>\<open>csi-rclone\<close>, a CSI driver that mounts rclone remotes as Kubernetes volumes.

  \<^bold>\<open>The program.\<close> One binary (\<^verbatim>\<open>cmd/csi-rclone-plugin\<close>) serves three gRPC services: the identity service
  (\<^verbatim>\<open>driver.go\<close>), the controller service (\<^verbatim>\<open>controller.go\<close>), which names the remote path of a new
  volume from its claim, and the node service (\<^verbatim>\<open>nodeserver.go\<close>), which stages, publishes,
  unpublishes and unstages volumes. The node service checks the rclone options of a volume
  (\<^verbatim>\<open>options.go\<close>) against a table of backends (\<^verbatim>\<open>options_gen.go\<close>, printed by \<^verbatim>\<open>hack/gen-options\<close>),
  starts one rclone per distinct set of arguments and keeps a state file per mount (\<^verbatim>\<open>rclone.go\<close>).
  A supervisor calls \<^verbatim>\<open>reconcile\<close> (\<^verbatim>\<open>reconcile.go\<close>) for each mount, under the lock of the mount that
  the calls take too.

  \<^bold>\<open>Model.\<close>
  \<^item> \<open>Prelude\<close>, \<open>Go_Strings\<close>, \<open>Go_Net\<close>, \<open>Go_Hash\<close>, \<open>Go_Json\<close>: the parts of Go that the program uses. A
    map is an association list in the order in which a loop visits it; the locale \<open>kv_map\<close> has the
    laws of maps. Strings are lists of bytes; the case of letters beyond ASCII and the parse of IP
    literals are parameters. SHA-256 and the marshalling of JSON strings are computed.
  \<^item> \<open>Csi_Types\<close>, \<open>Config\<close>: requests, and the variables that the command line sets, as a record
    that every operation takes as its first argument.
  \<^item> \<open>Controller\<close>: \<^verbatim>\<open>CreateVolume\<close> with the pattern parser and the checks, the other calls, and the
    Kubernetes client, whose library is a parameter.
  \<^item> \<open>Options_Table\<close>, \<open>Options\<close>, \<open>Gen_Options\<close>: the table of backends, the checks, and the generator.
  \<^item> \<open>Volume_State\<close>, \<open>Volume_Args\<close>: the paths and the state of a mount, the arguments of rclone, and
    the ID of a mount.
  \<^item> \<open>Node_World\<close>, \<open>State_Files\<close>: what surrounds the node service. Each call of the file system, the
    mount table, the supervisor, the clock or rclone is an event; an \<open>environment\<close> answers each call
    from the history of events, so that a theorem for every environment covers whatever other
    goroutines and processes do in between. Programs are values of the library's state monad.
  \<^item> \<open>Mounts\<close>, \<open>Node_Server\<close>: the operations on mounts and the handlers of the node service, branch
    by branch. Log lines are left out.
  \<^item> \<open>Server\<close>, \<open>Driver\<close>, \<open>Command_Line\<close>: the gRPC server up to the library, the construction of the
    driver and of its supervisor, and \<^verbatim>\<open>main\<close> with its flags, its commands and how the process ends. The
    parser of command lines is a parameter, of which \<open>cobra_law\<close> says what is relied on.

  \<^bold>\<open>What is shown.\<close>
  \<^item> \<open>Controller\<close>: remote paths of different namespaces are not nested unless a class shares them; the
    pattern check and its specification; what a context may hold; refusal of unseparated classes.
  \<^item> \<open>Options\<close>, \<open>Config_File\<close>, \<open>Allow_List\<close>, \<open>Gen_Options\<close>: the checks are equivalent to a declarative policy;
    the parser reads back what a printer of the format prints; every accepted flag becomes an environment
    variable of the list, none of which names rclone's configuration, remote control, files or
    commands or an option that the generator denies; no accepted option is one that it denies; the text
    of \<^verbatim>\<open>options_gen.go\<close> is what the generator prints. Of Go's tables of upper and lower case, \<open>case_law\<close>
    says what is relied on. \<open>Passed_Inputs\<close>: two kinds of input pass although they should not.
  \<^item> \<open>Node_Monitor\<close>, \<open>Monitors\<close>: automata over events and a triple \<open>safe\<close> for programs that keep an
    automaton from failing; the locale \<open>quiet_monitor\<close> gives its clients the rules for the lookup of a
    mount and the start of rclone. \<open>Node_Locks\<close>, \<open>Node_Removal\<close>, \<open>Node_Start\<close>, \<open>Node_Bind\<close> interpret it: one
    lock at a time and none left behind; directories are removed only below mount points that were
    found not mounted; rclone starts only where none serves; targets are recorded before they are
    bound; leaving a mount keeps it for its other users.
  \<^item> \<open>Registry\<close>, \<open>Node_Refinement\<close>, \<open>Node_Roundtrip\<close>, \<open>Node_Runs\<close>: the abstract specification, a registry of
    mounts with users and targets. The four volume calls, for staged and ephemeral volumes, and
    \<^verbatim>\<open>reconcile\<close> refine its operations; runs of them are paths of a state machine, in whose reachable
    states no path but the target of an ephemeral volume is a user of two mounts; staging and
    unstaging, publishing and unpublishing undo each other. The hypothesis \<open>store_law\<close> says of the state files
    that they can be read, and that reading gives what was saved; \<open>distinct_dirs\<close> says that the hashed
    directory names of the mounts at hand differ. Every other call may fail. A state file is written and
    removed at once; the removal of a directory that fails may have removed the state file in it or
    not, and the specifications of unstaging and unpublishing allow for both. A mount without users,
    as a failed staging leaves it, goes with the next user that leaves it.
  \<^item> \<open>Node_States\<close>, \<open>Node_Types\<close>, \<open>Node_Env\<close>: the locale \<open>state_type\<close> has the laws of a property of states
    that the operations keep, and its lemma that every state saved and every rclone started has it.
    It is interpreted twice: the states are well-formed, and what rclone is started with, and the
    configurations written for it, keep to the allow-list.
  \<^item> \<open>Command_Line\<close> and the end of this theory: each flag sets its own setting; a plugin started with the
    allow-list keeps to it in whatever run of calls.
  \<^item> \<open>Node_Repair\<close>: on a node that works again, one
    pass of reconcile brings back every path of its mount that it finds dead. A mount that came up
    without being marked as mounted is shown to be left down after a clean exit.
  \<^item> \<open>Volume_Flags\<close>: the flags of a volume are the effective values of its attributes over the secret.
  \<^item> \<open>Uploads\<close>: the wait before an unmount ends, after at most 720 pauses and 1442 requests, and why, where
    every request to rclone returns.
  \<^item> \<open>Mount_Id\<close>: two volumes share a mount exactly when their arguments are the same, up to collisions
    of SHA-256, for arguments in valid UTF-8; arguments that differ in bytes of no UTF-8 text are merged.

  \<^bold>\<open>Termination.\<close> No definition has fuel to run out of but the trimming of spaces, whose fuel is the
  length of the string. The loop that waits for uploads ends because the clock passes its deadline,
  an hour after the first reading; the hour and the pause of five seconds bound its rounds.

  \<^bold>\<open>Not modelled.\<close> The libraries: gRPC, the supervisor, scopes, the prober of mounts, the store of
  state files, client-go, cobra and net/http; each is an argument of what uses it. Log lines, the
  texts of the help, and the contexts that carry deadlines. A request to rclone's remote control that is
  never answered: the client has no timeout, so it would block the call under the lock of its mount;
  such a run is one of the model up to the request. State files that exist and cannot be read, which
  \<^verbatim>\<open>loadStates\<close> skips, are in the model, but outside of the claims that assume \<open>store_law\<close>. The refinement theorems are about calls
  one after the other, as the locks order them on one mount; the theorems on locks, removals, starts
  and binds hold for every interleaving, since an environment may answer anything.
\<close>

section \<open>The plugin as a whole\<close>







end
